(* ===== verification/Prelude.thy ===== *)
theory Prelude
  imports Main "HOL-Library.Word"
begin

text \<open>
  Shared vocabulary of the development: the machine types the proxy works on
  (\<open>u8\<close>, \<open>i32\<close>, \<open>u32\<close>, \<open>i64\<close> as fixed-width words), the \<open>Result\<close> type with the two
  combinators behind the question-mark operator, the little-endian byte encodings of
  \<open>i32::to_le_bytes\<close> and its kin, C strings, and UTF-8 validity of byte strings.
  The generic lemmas here carry the wire-format proofs of every operation body.
\<close>

unbundle bit_operations_syntax

named_theorems result_simps \<open>rewriting of the Result combinators\<close>
named_theorems wire_lengths \<open>lengths of encoded fields\<close>
named_theorems wire_roundtrips \<open>decoding an encoded field gives the field back\<close>

section \<open>Machine types\<close>

type_synonym byte = "8 word"
type_synonym u16 = "16 word"
type_synonym u32 = "32 word"
type_synonym u64 = "64 word"
type_synonym i32 = "32 word" \<comment> \<open>two's complement, read with \<open>sint\<close>\<close>
type_synonym i64 = "64 word" \<comment> \<open>two's complement, read with \<open>sint\<close>\<close>

definition i32_max :: int where
  "i32_max = 2147483647"

text \<open>\<open>i32::try_from(n: usize)\<close>: \<open>None\<close> is the conversion error.\<close>

definition i32_try_from :: "nat \<Rightarrow> i32 option" where
  "i32_try_from n = (if int n \<le> i32_max then Some (word_of_nat n) else None)"

lemma sint_word_of_nat_i32:
  assumes "int n \<le> i32_max"
  shows "sint (word_of_nat n :: i32) = int n"
proof -
  from assms have "int n < 2 ^ 31" by (simp add: i32_max_def)
  then have "signed_take_bit 31 (int n) = int n"
    by (intro signed_take_bit_int_eq_self) simp_all
  then show ?thesis by (simp add: signed_of_nat)
qed

lemma i32_try_from_Some: "i32_try_from n = Some w \<Longrightarrow> sint w = int n"
  by (auto simp: i32_try_from_def sint_word_of_nat_i32 split: if_splits)

section \<open>Results\<close>

text \<open>
  A Rust \<open>Result<T, E>\<close> is \<open>'e + 't\<close> with \<open>Inl\<close> for \<open>Err\<close>. The question-mark operator
  is \<open>res_bind\<close>; the conversion it applies to the error (\<open>From::from\<close>) or an
  explicit \<open>map_err\<close> is \<open>map_err\<close>.
\<close>

fun res_bind :: "'e + 'a \<Rightarrow> ('a \<Rightarrow> 'e + 'b) \<Rightarrow> 'e + 'b" where
  "res_bind (Inl e) f = Inl e"
| "res_bind (Inr x) f = f x"

fun map_err :: "('e \<Rightarrow> 'f) \<Rightarrow> 'e + 'a \<Rightarrow> 'f + 'a" where
  "map_err f (Inl e) = Inl (f e)"
| "map_err f (Inr x) = Inr x"

fun ok_or :: "'a option \<Rightarrow> 'e \<Rightarrow> 'e + 'a" where
  "ok_or None e = Inl e"
| "ok_or (Some x) e = Inr x"

lemma res_bind_Inr_iff [result_simps]:
  "res_bind r f = Inr y \<longleftrightarrow> (\<exists>x. r = Inr x \<and> f x = Inr y)"
  by (cases r) auto

lemma res_bind_Inl_iff [result_simps]:
  "res_bind r f = Inl e \<longleftrightarrow> r = Inl e \<or> (\<exists>x. r = Inr x \<and> f x = Inl e)"
  by (cases r) auto

lemma map_err_Inr_iff [result_simps]: "map_err f r = Inr x \<longleftrightarrow> r = Inr x"
  by (cases r) auto

lemma map_err_Inl_iff [result_simps]: "map_err f r = Inl e \<longleftrightarrow> (\<exists>d. r = Inl d \<and> e = f d)"
  by (cases r) auto

lemma ok_or_Inr_iff [result_simps]: "ok_or x e = Inr y \<longleftrightarrow> x = Some y"
  by (cases x) auto

lemma ok_or_Inl_iff [result_simps]: "ok_or x e = Inl d \<longleftrightarrow> x = None \<and> d = e"
  by (cases x) auto

lemma res_bind_cong [fundef_cong]:
  "r = r' \<Longrightarrow> (\<And>x. r' = Inr x \<Longrightarrow> f x = g x) \<Longrightarrow> res_bind r f = res_bind r' g"
  by (cases r') auto

text \<open>\<open>iter().map(f).collect::<Result<Vec<_>, _>>()\<close> and the loops that push each
  element after a question mark: the first error wins.\<close>

fun res_map :: "('a \<Rightarrow> 'e + 'b) \<Rightarrow> 'a list \<Rightarrow> 'e + 'b list" where
  "res_map f [] = Inr []"
| "res_map f (x # xs) = res_bind (f x) (\<lambda>y. res_bind (res_map f xs) (\<lambda>ys. Inr (y # ys)))"

lemma res_map_Inr_iff:
  "res_map f xs = Inr ys \<longleftrightarrow> list_all2 (\<lambda>x y. f x = Inr y) xs ys"
  by (induction xs arbitrary: ys) (auto simp: result_simps list_all2_Cons1)

lemma res_map_cong [fundef_cong]:
  "xs = ys \<Longrightarrow> (\<And>x. x \<in> set ys \<Longrightarrow> f x = g x) \<Longrightarrow> res_map f xs = res_map g ys"
  by (induction ys arbitrary: xs) auto

section \<open>Little-endian integers\<close>

fun le_bytes :: "nat \<Rightarrow> 'a::len word \<Rightarrow> byte list" where
  "le_bytes 0 w = []"
| "le_bytes (Suc n) w = ucast w # le_bytes n (drop_bit 8 w)"

fun of_le_bytes :: "byte list \<Rightarrow> 'a::len word" where
  "of_le_bytes [] = 0"
| "of_le_bytes (b # bs) = ucast b OR push_bit 8 (of_le_bytes bs)"

lemma length_le_bytes [simp, wire_lengths]: "length (le_bytes n w) = n"
  by (induction n arbitrary: w) auto

lemma ucast_byte_OR_drop:
  "(ucast (ucast w :: byte) :: 'a::len word) OR push_bit 8 (take_bit n (drop_bit 8 w)) =
   take_bit (8 + n) w"
  by (rule bit_word_eqI) (auto simp: bit_simps)

lemma of_le_bytes_le_bytes: "of_le_bytes (le_bytes n w) = take_bit (8 * n) w"
  by (induction n arbitrary: w) (simp_all add: ucast_byte_OR_drop)

abbreviation u32_to_le_bytes :: "u32 \<Rightarrow> byte list" where "u32_to_le_bytes \<equiv> le_bytes 4"
abbreviation u32_from_le_bytes :: "byte list \<Rightarrow> u32" where "u32_from_le_bytes \<equiv> of_le_bytes"
abbreviation i32_to_le_bytes :: "i32 \<Rightarrow> byte list" where "i32_to_le_bytes \<equiv> le_bytes 4"
abbreviation i32_from_le_bytes :: "byte list \<Rightarrow> i32" where "i32_from_le_bytes \<equiv> of_le_bytes"
abbreviation i64_to_le_bytes :: "i64 \<Rightarrow> byte list" where "i64_to_le_bytes \<equiv> le_bytes 8"
abbreviation i64_from_le_bytes :: "byte list \<Rightarrow> i64" where "i64_from_le_bytes \<equiv> of_le_bytes"

lemma of_le_bytes_le_bytes_u32 [simp, wire_roundtrips]:
  "of_le_bytes (le_bytes 4 w) = (w :: 32 word)"
  by (simp add: of_le_bytes_le_bytes take_bit_word_eq_self)

lemma of_le_bytes_le_bytes_u64 [simp, wire_roundtrips]:
  "of_le_bytes (le_bytes 8 w) = (w :: 64 word)"
  by (simp add: of_le_bytes_le_bytes take_bit_word_eq_self)

lemma bit_of_le_bytes_bound: "bit (of_le_bytes bs :: 'a::len word) n \<Longrightarrow> n < 8 * length bs"
proof (induction bs arbitrary: n)
  case (Cons b bs)
  then have "bit b n \<or> 8 \<le> n \<and> bit (of_le_bytes bs :: 'a word) (n - 8)"
    by (auto simp: bit_simps)
  with Cons.IH [of "n - 8"] bit_imp_le_length [of b n] show ?case by auto
qed simp

lemma le_bytes_of_le_bytes:
  "8 * length bs \<le> LENGTH('a) \<Longrightarrow> le_bytes (length bs) (of_le_bytes bs :: 'a::len word) = bs"
proof (induction bs)
  case (Cons b bs)
  let ?v = "of_le_bytes bs :: 'a word"
  have "ucast (ucast b OR push_bit 8 ?v) = b"
    using Cons.prems by (auto intro!: bit_word_eqI simp: bit_simps)
  moreover have "drop_bit 8 (ucast b OR push_bit 8 ?v) = ?v"
  proof (rule bit_word_eqI)
    fix n
    assume n: "n < LENGTH('a)"
    show "bit (drop_bit 8 (ucast b OR push_bit 8 ?v)) n = bit ?v n"
      using Cons.prems bit_of_le_bytes_bound [of bs n, where 'a = 'a] bit_imp_le_length [of b "8 + n"]
      by (auto simp: bit_simps)
  qed
  ultimately show ?case using Cons by simp
qed simp

lemma le_bytes_of_le_bytes_u32:
  "length bs = 4 \<Longrightarrow> le_bytes 4 (of_le_bytes bs :: 32 word) = bs"
  using le_bytes_of_le_bytes [of bs, where 'a = 32] by simp

lemma le_bytes_4_inj: "le_bytes 4 v = le_bytes 4 w \<Longrightarrow> v = (w :: 32 word)"
  by (metis of_le_bytes_le_bytes_u32)

section \<open>Strings\<close>

text \<open>
  A Rust \<open>String\<close> is its UTF-8 encoding, one \<open>char\<close> of HOL per byte; the wire carries
  the same bytes as words.
\<close>

definition bytes_of_string :: "string \<Rightarrow> byte list" where
  "bytes_of_string s = map (\<lambda>c. word_of_nat (of_char c)) s"

definition string_of_bytes :: "byte list \<Rightarrow> string" where
  "string_of_bytes bs = map (\<lambda>b. char_of (unat b)) bs"

lemma length_bytes_of_string [simp, wire_lengths]: "length (bytes_of_string s) = length s"
  by (simp add: bytes_of_string_def)

lemma string_of_bytes_of_string [simp, wire_roundtrips]:
  "string_of_bytes (bytes_of_string s) = s"
proof -
  have "char_of (unat (word_of_nat (of_char c) :: byte)) = c" for c
  proof -
    have "(of_char c :: nat) < 256" by (rule nat_of_char_less_256)
    then have "unat (word_of_nat (of_char c) :: byte) = of_char c"
      by (simp add: unat_of_nat)
    then show ?thesis by simp
  qed
  then show ?thesis by (simp add: bytes_of_string_def string_of_bytes_def comp_def)
qed

lemma bytes_of_string_of_bytes [simp]: "bytes_of_string (string_of_bytes bs) = bs"
proof -
  have "word_of_nat (of_char (char_of (unat b) :: char)) = b" for b :: byte
  proof -
    have "unat b < 256" using unsigned_less [of b] by simp
    then have "of_char (char_of (unat b)) = unat b" by (simp add: of_char_of)
    then show ?thesis by simp
  qed
  then show ?thesis by (simp add: bytes_of_string_def string_of_bytes_def comp_def)
qed

text \<open>\<open>CStr::from_bytes_until_nul\<close>: the bytes before the first NUL, \<open>None\<close> without one.\<close>

fun until_nul :: "byte list \<Rightarrow> byte list option" where
  "until_nul [] = None"
| "until_nul (b # bs) = (if b = 0 then Some [] else map_option ((#) b) (until_nul bs))"

lemma until_nul_append [simp]:
  "0 \<notin> set xs \<Longrightarrow> until_nul (xs @ 0 # ys) = Some xs"
  by (induction xs) auto

lemma until_nul_Some:
  "until_nul bs = Some xs \<Longrightarrow> \<exists>ys. bs = xs @ 0 # ys \<and> 0 \<notin> set xs"
proof (induction bs arbitrary: xs)
  case (Cons b bs)
  show ?case
  proof (cases "b = 0")
    case False
    with Cons.prems obtain zs where "xs = b # zs" "until_nul bs = Some zs" by auto
    with Cons.IH False show ?thesis by fastforce
  qed (use Cons.prems in auto)
qed simp

text \<open>\<open>CString::new\<close>: the bytes with a terminating NUL, an error on an interior NUL.\<close>

definition cstring_new :: "string \<Rightarrow> byte list option" where
  "cstring_new s =
     (if 0 \<in> set (bytes_of_string s) then None else Some (bytes_of_string s @ [0]))"

lemma cstring_new_Some:
  "cstring_new s = Some bs \<longleftrightarrow> 0 \<notin> set (bytes_of_string s) \<and> bs = bytes_of_string s @ [0]"
  by (auto simp: cstring_new_def)

text \<open>\<open>core::str::from_utf8\<close>: well-formed UTF-8 (no overlong forms, no surrogates, at
  most U+10FFFF).\<close>

definition utf8_cont :: "byte \<Rightarrow> bool" where
  "utf8_cont b \<longleftrightarrow> 0x80 \<le> b \<and> b \<le> 0xBF"

fun utf8_valid :: "byte list \<Rightarrow> bool" where
  "utf8_valid [] = True"
| "utf8_valid (a # r) =
     (if a \<le> 0x7F then utf8_valid r
      else if 0xC2 \<le> a \<and> a \<le> 0xDF then
        (case r of b # r' \<Rightarrow> utf8_cont b \<and> utf8_valid r' | _ \<Rightarrow> False)
      else if 0xE0 \<le> a \<and> a \<le> 0xEF then
        (case r of
           b # c # r' \<Rightarrow>
             utf8_cont b \<and> (a = 0xE0 \<longrightarrow> 0xA0 \<le> b) \<and> (a = 0xED \<longrightarrow> b \<le> 0x9F) \<and>
             utf8_cont c \<and> utf8_valid r'
         | _ \<Rightarrow> False)
      else if 0xF0 \<le> a \<and> a \<le> 0xF4 then
        (case r of
           b # c # d # r' \<Rightarrow>
             utf8_cont b \<and> (a = 0xF0 \<longrightarrow> 0x90 \<le> b) \<and> (a = 0xF4 \<longrightarrow> b \<le> 0x8F) \<and>
             utf8_cont c \<and> utf8_cont d \<and> utf8_valid r'
         | _ \<Rightarrow> False)
      else False)"

lemma utf8_valid_ascii: "\<forall>b \<in> set bs. b \<le> 0x7F \<Longrightarrow> utf8_valid bs"
  by (induction bs) auto

end
