(* ===== verification/Bson.thy ===== *)
theory Bson
  imports Prelude
begin

text \<open>
  The interface to the \<open>bson\<close> crate, which is not part of the repository. The public
  data types are written out: \<open>bson\<close> has the variants the proxy's code matches on, and
  \<open>Scalar\<close> stands for the remaining leaf variants (ObjectId, DateTime, Binary, \dots),
  tagged with their \<open>ElementType\<close>; a \<open>Document\<close> is an insertion-ordered list of entries.
  The functions of the crate are a parameter: the record \<open>bson_crate\<close> is an
  argument of every definition that calls the crate, and the locales below state
  the documented behaviour that the proxy relies on.
\<close>

section \<open>Documents\<close>

type_synonym bson_error = string
type_synonym element_type = byte \<comment> \<open>\<open>bson::spec::ElementType\<close>, as its tag byte\<close>

datatype bson =
    Double u64 \<comment> \<open>IEEE 754 binary64, as its bits\<close>
  | String string
  | Array "bson list"
  | Document "(string \<times> bson) list"
  | Boolean bool
  | Null
  | Int32 i32
  | Int64 i64
  | JavaScriptCodeWithScope string "(string \<times> bson) list"
  | Scalar element_type "byte list"

type_synonym document = "(string \<times> bson) list"

definition doc_get :: "document \<Rightarrow> string \<Rightarrow> bson option" where
  "doc_get d k = map_of d k"

text \<open>\<open>Document::keys\<close>; the crate keeps keys distinct.\<close>

definition doc_keys :: "document \<Rightarrow> string list" where
  "doc_keys d = map fst d"

text \<open>\<open>Document::get_str(k).ok()\<close> and \<open>Document::get_bool(k).ok()\<close>: \<open>None\<close> when the
  key is absent or holds another variant.\<close>

definition get_str :: "document \<Rightarrow> string \<Rightarrow> string option" where
  "get_str d k = (case doc_get d k of Some (String s) \<Rightarrow> Some s | _ \<Rightarrow> None)"

definition get_bool :: "document \<Rightarrow> string \<Rightarrow> bool option" where
  "get_bool d k = (case doc_get d k of Some (Boolean b) \<Rightarrow> Some b | _ \<Rightarrow> None)"

text \<open>\<open>Bson::element_type\<close>.\<close>

fun bson_element_type :: "bson \<Rightarrow> element_type" where
  "bson_element_type (Double _) = 0x01"
| "bson_element_type (String _) = 0x02"
| "bson_element_type (Document _) = 0x03"
| "bson_element_type (Array _) = 0x04"
| "bson_element_type (Boolean _) = 0x08"
| "bson_element_type Null = 0x0A"
| "bson_element_type (JavaScriptCodeWithScope _ _) = 0x0F"
| "bson_element_type (Int32 _) = 0x10"
| "bson_element_type (Int64 _) = 0x12"
| "bson_element_type (Scalar t _) = t"

section \<open>The functions of the crate\<close>

text \<open>
  \<open>from_reader\<close> is \<open>Document::from_reader\<close> on the bytes that follow the cursor: it reads
  the four bytes of the length prefix first, and a success reports the document and
  the number of bytes consumed after that prefix. \<open>to_writer\<close> is
  \<open>Document::to_writer\<close> (and \<open>bson::serialize_to_vec\<close>): the bytes it appends.
  \<open>doc_insert\<close> and \<open>doc_remove\<close> are \<open>Document::insert\<close> and \<open>Document::remove\<close>.
\<close>

record bson_crate =
  from_reader :: "byte list \<Rightarrow> bson_error + document \<times> nat"
  to_writer :: "document \<Rightarrow> bson_error + byte list"
  doc_insert :: "document \<Rightarrow> string \<Rightarrow> bson \<Rightarrow> document"
  doc_remove :: "document \<Rightarrow> string \<Rightarrow> document"

text \<open>One read on a cursor whose unread bytes are \<open>bs\<close>: the document and what is
  left unread.\<close>

definition read_document :: "bson_crate \<Rightarrow> byte list \<Rightarrow> bson_error + document \<times> byte list" where
  "read_document B bs =
     (case from_reader B bs of
        Inl e \<Rightarrow> Inl e
      | Inr (d, n) \<Rightarrow> Inr (d, drop (4 + n) bs))"

lemma read_document_shorter:
  "read_document B bs = Inr (d, rest) \<Longrightarrow> bs \<noteq> [] \<Longrightarrow> length rest < length bs"
  by (auto simp: read_document_def split: sum.splits prod.splits)

text \<open>Documented behaviour of the codec: reading back what was written gives the
  document and consumes exactly the written bytes, whatever follows them, and a read
  never runs past the end of its input; a document has at least its four-byte length
  and its terminator.\<close>

locale bson_codec =
  fixes B :: bson_crate
  assumes read_written:
      "to_writer B d = Inr bs \<Longrightarrow> from_reader B (bs @ rest) = Inr (d, length bs - 4)"
    and written_min: "to_writer B d = Inr bs \<Longrightarrow> 5 \<le> length bs"
    and read_within: "from_reader B bs = Inr (d, n) \<Longrightarrow> 4 + n \<le> length bs"
begin

lemma read_document_written:
  "to_writer B d = Inr bs \<Longrightarrow> read_document B (bs @ rest) = Inr (d, rest)"
  using read_written [of d bs rest] written_min [of d bs]
  by (simp add: read_document_def)

lemma read_document_suffix:
  "read_document B bs = Inr (d, rest) \<Longrightarrow> \<exists>pre. bs = pre @ rest \<and> 4 \<le> length pre"
proof -
  assume "read_document B bs = Inr (d, rest)"
  then obtain n where n: "from_reader B bs = Inr (d, n)" and rest: "rest = drop (4 + n) bs"
    by (auto simp: read_document_def split: sum.splits prod.splits)
  from read_within [OF n] have "4 \<le> length (take (4 + n) bs)" by simp
  moreover have "bs = take (4 + n) bs @ rest" by (simp only: rest append_take_drop_id)
  ultimately show ?thesis by blast
qed

lemma written_not_Nil: "to_writer B d = Inr bs \<Longrightarrow> bs \<noteq> []"
  using written_min [of d bs] by auto

end

text \<open>Documented behaviour of the document operations: a map with insertion order.\<close>

locale bson_document =
  fixes B :: bson_crate
  assumes get_insert: "doc_get (doc_insert B d k v) = (doc_get d)(k \<mapsto> v)"
    and keys_insert:
      "doc_keys (doc_insert B d k v) =
         (if k \<in> set (doc_keys d) then doc_keys d else doc_keys d @ [k])"
    and get_remove: "distinct (doc_keys d) \<Longrightarrow> doc_get (doc_remove B d k) = (doc_get d)(k := None)"
    and distinct_remove: "distinct (doc_keys d) \<Longrightarrow> distinct (doc_keys (doc_remove B d k))"
begin

lemma distinct_insert:
  "distinct (doc_keys d) \<Longrightarrow> distinct (doc_keys (doc_insert B d k v))"
  by (simp add: keys_insert)

text \<open>Removing a list of keys one after another.\<close>

lemma fold_remove:
  assumes "distinct (doc_keys d)"
  shows "doc_get (fold (\<lambda>k d. doc_remove B d k) ks d) =
           (\<lambda>k. if k \<in> set ks then None else doc_get d k)"
    and "distinct (doc_keys (fold (\<lambda>k d. doc_remove B d k) ks d))"
  using assms
  by (induction ks arbitrary: d) (auto simp: get_remove distinct_remove fun_eq_iff)

end

locale bson_library = bson_codec B + bson_document B for B

end
