(* ===== verification/Header.thy ===== *)
theory Header
  imports Prelude
begin

text \<open>
  Wire identifiers (\<open>src/src/ids.rs\<close>), opcodes (\<open>src/src/op_code.rs\<close>) and the 16-byte
  message header (\<open>src/src/header.rs\<close>). A \<open>nutype\<close> newtype is a one-constructor
  datatype; a validated one has its constructor function \<open>try_new\<close> and its predicate, which
  every value built by the code satisfies.
\<close>

section \<open>Identifiers\<close>

datatype RequestId = RequestId (request_id_inner: i32)

datatype ExplainRequestId = ExplainRequestId (explain_request_id_inner: i32)

datatype ExplainRequestIdError = ExplainRequestIdPredicateViolated

definition ExplainRequestId_valid :: "i32 \<Rightarrow> bool" where
  "ExplainRequestId_valid n \<longleftrightarrow> sint n < 0"

definition ExplainRequestId_try_new :: "i32 \<Rightarrow> ExplainRequestIdError + ExplainRequestId" where
  "ExplainRequestId_try_new n =
     (if ExplainRequestId_valid n then Inr (ExplainRequestId n)
      else Inl ExplainRequestIdPredicateViolated)"

text \<open>\<open>impl From<ExplainRequestId> for RequestId\<close>.\<close>

definition RequestId_from_explain :: "ExplainRequestId \<Rightarrow> RequestId" where
  "RequestId_from_explain e = RequestId (explain_request_id_inner e)"

text \<open>\<open>ResponseTo\<close> wraps a \<open>NonZeroI32\<close>; \<open>NonZeroI32::new\<close> gives \<open>None\<close> on zero.\<close>

datatype ResponseTo = ResponseTo (response_to_inner: i32)

definition ResponseTo_from_i32 :: "i32 \<Rightarrow> ResponseTo option" where
  "ResponseTo_from_i32 n = (if n = 0 then None else Some (ResponseTo n))"

datatype MessageLength = MessageLength (message_length_inner: i32)

datatype MessageLengthError = MessageLengthPredicateViolated

definition MessageLength_valid :: "i32 \<Rightarrow> bool" where
  "MessageLength_valid n \<longleftrightarrow> 16 \<le> sint n \<and> sint n \<le> 48 * 1024 * 1024"

definition MessageLength_try_new :: "i32 \<Rightarrow> MessageLengthError + MessageLength" where
  "MessageLength_try_new n =
     (if MessageLength_valid n then Inr (MessageLength n)
      else Inl MessageLengthPredicateViolated)"

text \<open>\<open>usize::try_from(..).unwrap_or(0)\<close>.\<close>

definition MessageLength_as_usize :: "MessageLength \<Rightarrow> nat" where
  "MessageLength_as_usize m =
     (let n = sint (message_length_inner m) in if 0 \<le> n then nat n else 0)"

section \<open>Opcodes\<close>

datatype OPCode = OpcodeMsg | OpcodeQuery | OpcodeReply

datatype OPCodeParseError = UnsupportedOpCode i32

definition OP_REPLY :: "byte list" where "OP_REPLY = i32_to_le_bytes 1"
definition OP_QUERY :: "byte list" where "OP_QUERY = i32_to_le_bytes 2004"
definition OP_MSG :: "byte list" where "OP_MSG = i32_to_le_bytes 2013"

definition OPCode_from_le_bytes :: "byte list \<Rightarrow> OPCodeParseError + OPCode" where
  "OPCode_from_le_bytes bytes =
     (if bytes = OP_MSG then Inr OpcodeMsg
      else if bytes = OP_QUERY then Inr OpcodeQuery
      else if bytes = OP_REPLY then Inr OpcodeReply
      else Inl (UnsupportedOpCode (i32_from_le_bytes bytes)))"

fun OPCode_to_le_bytes :: "OPCode \<Rightarrow> byte list" where
  "OPCode_to_le_bytes OpcodeMsg = OP_MSG"
| "OPCode_to_le_bytes OpcodeQuery = OP_QUERY"
| "OPCode_to_le_bytes OpcodeReply = OP_REPLY"

section \<open>The message header\<close>

record MessageHeader =
  mh_message_length :: MessageLength
  mh_request_id :: RequestId
  mh_response_to :: "ResponseTo option"
  mh_op_code :: OPCode

datatype MessageHeaderParseError =
    HeaderTooFewBytes nat
  | InvalidOPCode OPCodeParseError
  | InvalidMessageLength MessageLengthError

definition MessageHeader_size :: nat where
  "MessageHeader_size = 16"

definition MessageHeader_from_bytes :: "byte list \<Rightarrow> MessageHeaderParseError + MessageHeader" where
  "MessageHeader_from_bytes bytes =
     (let len = length bytes in
      if len < MessageHeader_size then Inl (HeaderTooFewBytes len)
      else
        let raw_length = i32_from_le_bytes (take 4 bytes) in
        res_bind (map_err InvalidMessageLength (MessageLength_try_new raw_length)) (\<lambda>message_length.
        let request_id = RequestId (i32_from_le_bytes (take 4 (drop 4 bytes)));
            response_to = ResponseTo_from_i32 (i32_from_le_bytes (take 4 (drop 8 bytes))) in
        res_bind (map_err InvalidOPCode (OPCode_from_le_bytes (take 4 (drop 12 bytes)))) (\<lambda>op_code.
        Inr \<lparr>mh_message_length = message_length, mh_request_id = request_id,
             mh_response_to = response_to, mh_op_code = op_code\<rparr>)))"

text \<open>\<open>write_bytes\<close> returns the contents of \<open>dst\<close> after the call.\<close>

definition MessageHeader_write_bytes :: "MessageHeader \<Rightarrow> byte list \<Rightarrow> byte list" where
  "MessageHeader_write_bytes h dst =
     dst @ i32_to_le_bytes (message_length_inner (mh_message_length h))
         @ i32_to_le_bytes (request_id_inner (mh_request_id h))
         @ i32_to_le_bytes (case mh_response_to h of None \<Rightarrow> 0 | Some r \<Rightarrow> response_to_inner r)
         @ OPCode_to_le_bytes (mh_op_code h)"

text \<open>The states the Rust types admit: a validated length and a non-zero
  \<open>response_to\<close>.\<close>

definition wf_response_to :: "ResponseTo option \<Rightarrow> bool" where
  "wf_response_to r \<longleftrightarrow> r \<noteq> Some (ResponseTo 0)"

definition wf_header :: "MessageHeader \<Rightarrow> bool" where
  "wf_header h \<longleftrightarrow>
     MessageLength_valid (message_length_inner (mh_message_length h)) \<and>
     wf_response_to (mh_response_to h)"

section \<open>Lemmas\<close>

lemma MessageLength_try_new_Inr [result_simps]:
  "MessageLength_try_new n = Inr m \<longleftrightarrow> MessageLength_valid n \<and> m = MessageLength n"
  by (auto simp: MessageLength_try_new_def)

lemma MessageLength_as_usize_valid:
  "MessageLength_valid (message_length_inner m) \<Longrightarrow>
   int (MessageLength_as_usize m) = sint (message_length_inner m)"
  by (simp add: MessageLength_valid_def MessageLength_as_usize_def)

lemma MessageLength_as_usize_bounds:
  "MessageLength_valid (message_length_inner m) \<Longrightarrow>
   16 \<le> MessageLength_as_usize m \<and> MessageLength_as_usize m \<le> 48 * 1024 * 1024"
  by (auto simp: MessageLength_valid_def MessageLength_as_usize_def Let_def)

lemma length_OPCode_to_le_bytes [simp, wire_lengths]: "length (OPCode_to_le_bytes c) = 4"
  by (cases c) (simp_all add: OP_MSG_def OP_QUERY_def OP_REPLY_def)

lemma opcodes_distinct [simp]:
  "OP_QUERY \<noteq> OP_MSG" "OP_REPLY \<noteq> OP_MSG" "OP_REPLY \<noteq> OP_QUERY"
  by (auto simp: OP_MSG_def OP_QUERY_def OP_REPLY_def dest!: le_bytes_4_inj)

lemma OPCode_roundtrip [simp, wire_roundtrips]:
  "OPCode_from_le_bytes (OPCode_to_le_bytes c) = Inr c"
  by (cases c) (simp_all add: OPCode_from_le_bytes_def)

lemma OPCode_from_le_bytes_Inr:
  "OPCode_from_le_bytes bs = Inr c \<Longrightarrow> bs = OPCode_to_le_bytes c"
  by (auto simp: OPCode_from_le_bytes_def split: if_splits)

lemma MessageHeader_write_bytes_append:
  "MessageHeader_write_bytes h dst = dst @ MessageHeader_write_bytes h []"
  by (simp add: MessageHeader_write_bytes_def)

lemma length_MessageHeader_write_bytes [simp, wire_lengths]:
  "length (MessageHeader_write_bytes h dst) = length dst + MessageHeader_size"
  by (simp add: MessageHeader_write_bytes_def MessageHeader_size_def)

lemma ResponseTo_roundtrip [wire_roundtrips]:
  "wf_response_to r \<Longrightarrow>
   ResponseTo_from_i32 (case r of None \<Rightarrow> 0 | Some x \<Rightarrow> response_to_inner x) = r"
  by (cases r; cases "the r") (auto simp: wf_response_to_def ResponseTo_from_i32_def)

lemma ResponseTo_from_i32_inner [simp]:
  "(case ResponseTo_from_i32 n of None \<Rightarrow> 0 | Some r \<Rightarrow> response_to_inner r) = n"
  by (simp add: ResponseTo_from_i32_def)

lemma header_roundtrip:
  assumes "wf_header h"
  shows "MessageHeader_from_bytes (MessageHeader_write_bytes h [] @ rest) = Inr h"
  using assms
  by (cases h; cases "mh_message_length h"; cases "mh_request_id h")
    (simp add: MessageHeader_from_bytes_def MessageHeader_write_bytes_def MessageHeader_size_def
      wf_header_def MessageLength_try_new_def ResponseTo_roundtrip)

lemma header_from_bytes_wf: "MessageHeader_from_bytes bs = Inr h \<Longrightarrow> wf_header h"
  by (auto simp: MessageHeader_from_bytes_def wf_header_def wf_response_to_def
      ResponseTo_from_i32_def Let_def result_simps split: if_splits)

lemma header_from_bytes_length:
  "MessageHeader_from_bytes bs = Inr h \<Longrightarrow> MessageHeader_size \<le> length bs"
  by (auto simp: MessageHeader_from_bytes_def Let_def split: if_splits)

lemma header_from_bytes_prefix:
  "MessageHeader_size \<le> length bs \<Longrightarrow>
   MessageHeader_from_bytes (bs @ ext) = MessageHeader_from_bytes bs"
  by (simp add: MessageHeader_from_bytes_def MessageHeader_size_def Let_def)

text \<open>A parsed header occupies exactly the bytes it writes.\<close>

lemma header_bytes_roundtrip:
  assumes "MessageHeader_from_bytes bs = Inr h"
  shows "MessageHeader_write_bytes h [] = take MessageHeader_size bs"
proof -
  have len: "16 \<le> length bs"
    using header_from_bytes_length [OF assms] by (simp add: MessageHeader_size_def)
  from assms have op: "OPCode_to_le_bytes (mh_op_code h) = take 4 (drop 12 bs)"
    by (auto simp: MessageHeader_from_bytes_def Let_def result_simps split: if_splits
        dest: OPCode_from_le_bytes_Inr)
  have "take 16 bs = take 4 bs @ take 4 (drop 4 bs) @ take 4 (drop 8 bs) @ take 4 (drop 12 bs)"
    using take_add [of 4 12 bs] take_add [of 4 8 "drop 4 bs"] take_add [of 4 4 "drop 8 bs"]
    by simp
  moreover have "le_bytes 4 (case mh_response_to h of None \<Rightarrow> 0 | Some r \<Rightarrow> response_to_inner r) =
      take 4 (drop 8 bs)"
    using assms len
    by (auto simp: MessageHeader_from_bytes_def Let_def result_simps
        le_bytes_of_le_bytes_u32 split: if_splits)
  ultimately show ?thesis
    using assms len op
    by (auto simp: MessageHeader_from_bytes_def MessageHeader_write_bytes_def Let_def result_simps
        MessageHeader_size_def le_bytes_of_le_bytes_u32 split: if_splits)
qed

end
