(* ===== verification/Frame.thy ===== *)
theory Frame
  imports Header
begin

text \<open>
  What the three operation bodies share: the header each writer derives from the size
  of its body, and the contract of an operation codec. The contract is the interface
  that \<open>src/src/operation/mod.rs\<close> and \<open>src/src/message.rs\<close> rely on: a failing writer leaves
  the destination buffer alone, a successful one appends exactly one frame whose header
  declares its size, and parsing the body of that frame gives the operation back (in
  the normal form \<open>norm\<close> that the wire can carry).
\<close>

section \<open>The frame header\<close>

text \<open>The header of a frame of \<open>message_length\<close> bytes; \<open>too_large\<close> is the error of the
  opcode at hand. Every operation writer builds its header this way.\<close>

definition frame_header ::
  "(nat \<Rightarrow> 'e) \<Rightarrow> nat \<Rightarrow> OPCode \<Rightarrow> RequestId \<Rightarrow> ResponseTo option \<Rightarrow> 'e + MessageHeader" where
  "frame_header too_large message_length op_code request_id response_to =
     res_bind (ok_or (i32_try_from message_length) (too_large message_length)) (\<lambda>message_length_i32.
     res_bind (map_err (\<lambda>_. too_large message_length) (MessageLength_try_new message_length_i32)) (\<lambda>ml.
     Inr \<lparr>mh_message_length = ml, mh_request_id = request_id,
          mh_response_to = response_to, mh_op_code = op_code\<rparr>))"

lemma frame_header_Inr:
  assumes "frame_header too_large n op_code request_id response_to = Inr h"
  shows "mh_op_code h = op_code" "mh_request_id h = request_id" "mh_response_to h = response_to"
    and "MessageLength_as_usize (mh_message_length h) = n"
    and "wf_response_to response_to \<Longrightarrow> wf_header h"
  using assms
  by (auto simp: frame_header_def result_simps wf_header_def MessageLength_valid_def
      MessageLength_as_usize_def dest: i32_try_from_Some)

lemma frame_header_Inl:
  assumes "frame_header too_large n op_code request_id response_to = Inl e"
  shows "e = too_large n" "n < 16 \<or> 48 * 1024 * 1024 < n"
  using assms
  by (auto simp: frame_header_def result_simps MessageLength_try_new_def MessageLength_valid_def
      i32_try_from_def i32_max_def sint_word_of_nat_i32 [unfolded i32_max_def] split: if_splits)

section \<open>The contract of an operation codec\<close>

text \<open>\<open>frame_of h body\<close>: the header is the one of a frame with that body.\<close>

definition frame_of :: "MessageHeader \<Rightarrow> byte list \<Rightarrow> bool" where
  "frame_of h body \<longleftrightarrow>
     wf_header h \<and> MessageLength_as_usize (mh_message_length h) = MessageHeader_size + length body"

lemma written_frame:
  assumes "frame_header too_large n op_code rid rto = Inr h"
    and "dst' = dst @ MessageHeader_write_bytes h [] @ body"
    and "n = MessageHeader_size + length body" and "wf_response_to rto" and "P body"
  shows "\<exists>h body. dst' = dst @ MessageHeader_write_bytes h [] @ body \<and> frame_of h body \<and>
           mh_op_code h = op_code \<and> mh_request_id h = rid \<and> mh_response_to h = rto \<and> P body"
  using frame_header_Inr [OF assms(1)] assms(2-5)
  by (intro exI [of _ h] exI [of _ body]) (simp add: frame_of_def)

locale operation_codec =
  fixes op_code :: OPCode
    and parse :: "byte list \<Rightarrow> 'pe + 'o"
    and wr :: "'o \<Rightarrow> byte list \<Rightarrow> RequestId \<Rightarrow> ResponseTo option \<Rightarrow> ('we + unit) \<times> byte list"
    and wf :: "'o \<Rightarrow> bool"
    and norm :: "'o \<Rightarrow> 'o"
  assumes write_error: "wr x dst rid rto = (Inl e, dst') \<Longrightarrow> dst' = dst"
    and write_frame:
      "wr x dst rid rto = (Inr u, dst') \<Longrightarrow> wf_response_to rto \<Longrightarrow>
       \<exists>h body. dst' = dst @ MessageHeader_write_bytes h [] @ body \<and> frame_of h body \<and>
         mh_op_code h = op_code \<and> mh_request_id h = rid \<and> mh_response_to h = rto \<and>
         (wf x \<longrightarrow> parse body = Inr (norm x))"
begin

lemma write_only_appends: "wr x dst rid rto = (r, dst') \<Longrightarrow> wf_response_to rto \<Longrightarrow> \<exists>s. dst' = dst @ s"
  by (cases r) (auto dest: write_error write_frame)

text \<open>What a reader of the written frame sees.\<close>

lemma read_back:
  assumes "wr x [] rid rto = (Inr u, frame)" "wf_response_to rto" "wf x"
  shows "\<exists>h. MessageHeader_from_bytes (frame @ rest) = Inr h \<and> mh_op_code h = op_code \<and>
           mh_request_id h = rid \<and> mh_response_to h = rto \<and>
           MessageLength_as_usize (mh_message_length h) = length frame \<and>
           parse (drop MessageHeader_size frame) = Inr (norm x)"
proof -
  from write_frame [OF assms(1,2)] assms(3) obtain h body where
      frame: "frame = MessageHeader_write_bytes h [] @ body" and fo: "frame_of h body"
      and h: "mh_op_code h = op_code" "mh_request_id h = rid" "mh_response_to h = rto"
      and p: "parse body = Inr (norm x)"
    by auto
  have "MessageHeader_from_bytes (frame @ rest) = Inr h"
    using fo by (simp add: frame header_roundtrip frame_of_def)
  moreover have "drop MessageHeader_size frame = body" by (simp add: frame)
  moreover have "MessageLength_as_usize (mh_message_length h) = length frame"
    using fo by (simp add: frame frame_of_def)
  ultimately show ?thesis using h p by auto
qed

end

end
