(* ===== verification/OpMsg.thy ===== *)
theory OpMsg
  imports Bson Frame
begin

text \<open>
  OP_MSG bodies (\<open>src/src/operation/op_msg.rs\<close>): flag bits, body and document-sequence
  sections, the optional checksum. A cursor over a slice is represented by the bytes
  that are still unread; a writer returns the bytes it appends.
\<close>

section \<open>Flags and sections\<close>

type_synonym OperationMessageFlags = u32

definition REQUIRED_BITS_MASK :: u32 where "REQUIRED_BITS_MASK = 0x0000FFFF"

definition CHECKSUM_PRESENT :: OperationMessageFlags where "CHECKSUM_PRESENT = push_bit 0 1"
definition MORE_TO_COME :: OperationMessageFlags where "MORE_TO_COME = push_bit 1 1"
definition EXHAUST_ALLOWED :: OperationMessageFlags where "EXHAUST_ALLOWED = push_bit 16 1"

definition OperationMessageFlags_all :: OperationMessageFlags where
  "OperationMessageFlags_all = CHECKSUM_PRESENT OR MORE_TO_COME OR EXHAUST_ALLOWED"

text \<open>The \<open>bitflags\<close> operations \<open>contains\<close> and \<open>set\<close>.\<close>

definition flags_contains :: "u32 \<Rightarrow> u32 \<Rightarrow> bool" where
  "flags_contains flags f \<longleftrightarrow> flags AND f = f"

definition flags_set :: "u32 \<Rightarrow> u32 \<Rightarrow> bool \<Rightarrow> u32" where
  "flags_set flags f b = (if b then flags OR f else flags AND NOT f)"

datatype OpMsgSection =
    Body document
  | DocumentSequence string "document list"

fun as_body :: "OpMsgSection \<Rightarrow> document option" where
  "as_body (Body doc) = Some doc"
| "as_body (DocumentSequence _ _) = None"

record OperationMessage =
  om_flags :: OperationMessageFlags
  om_sections :: "OpMsgSection list"
  om_checksum :: "u32 option"

datatype OperationMessageParseError =
    MsgNotEnoughBytes nat nat \<comment> \<open>actual, min\<close>
  | UnknownRequiredBits u32
  | InvalidKind byte
  | MissingChecksum
  | InvalidDocumentSequenceSize i32
  | DocumentSequenceIdentifierMissingNul
  | DocumentSequenceIdentifierNotUtf8
  | InvalidBson bson_error

datatype OperationMessageWriteError =
    SerializeError bson_error
  | IdentifierContainsNullByte
  | SectionTooLarge nat
  | MsgMessageTooLarge nat

definition OperationMessage_min_len :: nat where
  "OperationMessage_min_len = 4 + 1"

fun find_body :: "OpMsgSection list \<Rightarrow> document option" where
  "find_body [] = None"
| "find_body (s # ss) = (case as_body s of Some d \<Rightarrow> Some d | None \<Rightarrow> find_body ss)"

definition first_key :: "document \<Rightarrow> string option" where
  "first_key d = (case doc_keys d of [] \<Rightarrow> None | k # _ \<Rightarrow> Some k)"

definition OperationMessage_command_name :: "OperationMessage \<Rightarrow> string option" where
  "OperationMessage_command_name m = Option.bind (find_body (om_sections m)) first_key"

section \<open>Parsing\<close>

text \<open>\<open>while reader.position() < docs_bytes.len() { Document::from_reader(..)? }\<close>.\<close>

function read_documents :: "bson_crate \<Rightarrow> byte list \<Rightarrow> bson_error + document list" where
  "read_documents B bs =
     (if bs = [] then Inr []
      else res_bind (read_document B bs) (\<lambda>(doc, rest).
           res_bind (read_documents B rest) (\<lambda>docs. Inr (doc # docs))))"
  by pat_completeness auto
termination
  by (relation "measure (\<lambda>(B, bs). length bs)") (auto dest: read_document_shorter)

declare read_documents.simps [simp del]

text \<open>The kind-1 arm of \<open>parse_sections\<close>; \<open>bs\<close> are the bytes after the kind byte.\<close>

definition parse_document_sequence ::
  "bson_crate \<Rightarrow> byte list \<Rightarrow> OperationMessageParseError + OpMsgSection \<times> byte list" where
  "parse_document_sequence B bs =
     (if length bs < 4 then Inl (InvalidDocumentSequenceSize 0)
      else
        let size = i32_from_le_bytes (take 4 bs) in
        if sint size < 5 then Inl (InvalidDocumentSequenceSize size)
        else if length bs < nat (sint size) then Inl (InvalidDocumentSequenceSize size)
        else
          let identifier_bytes = drop 4 (take (nat (sint size)) bs) in
          res_bind (ok_or (until_nul identifier_bytes) DocumentSequenceIdentifierMissingNul) (\<lambda>identifier.
          if \<not> utf8_valid identifier then Inl DocumentSequenceIdentifierNotUtf8
          else
            let docs_bytes = drop (length identifier + 1) identifier_bytes in
            res_bind (map_err InvalidBson (read_documents B docs_bytes)) (\<lambda>documents.
            Inr (DocumentSequence (string_of_bytes identifier) documents, drop (nat (sint size)) bs))))"

lemma parse_document_sequence_shorter:
  "parse_document_sequence B bs = Inr (s, rest) \<Longrightarrow> length rest < length bs"
  by (auto simp: parse_document_sequence_def Let_def result_simps split: if_splits)

function parse_sections ::
  "bson_crate \<Rightarrow> byte list \<Rightarrow> OperationMessageParseError + OpMsgSection list" where
  "parse_sections B [] = Inr []"
| "parse_sections B (kind # bs) =
     (if kind = 0 then
        res_bind (map_err InvalidBson (read_document B bs)) (\<lambda>(doc, rest).
        res_bind (parse_sections B rest) (\<lambda>sections. Inr (Body doc # sections)))
      else if kind = 1 then
        res_bind (parse_document_sequence B bs) (\<lambda>(section, rest).
        res_bind (parse_sections B rest) (\<lambda>sections. Inr (section # sections)))
      else Inl (InvalidKind kind))"
  by pat_completeness auto
termination
proof (relation "measure (\<lambda>(B, bs). length bs)", goal_cases)
  case (2 B kind bs x doc rest)
  then show ?case
    by (cases "bs = []")
      (auto simp: result_simps read_document_def split: sum.splits prod.splits
        dest: read_document_shorter)
next
  case (3 B kind bs x sec rest)
  then show ?case using parse_document_sequence_shorter [of B bs sec rest] by auto
qed auto

definition OperationMessage_from_bytes ::
  "bson_crate \<Rightarrow> byte list \<Rightarrow> OperationMessageParseError + OperationMessage" where
  "OperationMessage_from_bytes B bytes =
     (let actual_len = length bytes; min_len = OperationMessage_min_len in
      if actual_len < min_len then Inl (MsgNotEnoughBytes actual_len min_len)
      else
        let raw_flags = u32_from_le_bytes (take 4 bytes);
            unknown_required = (raw_flags AND REQUIRED_BITS_MASK) AND NOT OperationMessageFlags_all in
        if unknown_required \<noteq> 0 then Inl (UnknownRequiredBits unknown_required)
        else
          let flags = raw_flags AND OperationMessageFlags_all;
              after_flags = drop 4 bytes in
          if flags_contains flags CHECKSUM_PRESENT then
            (if length after_flags < 4 then Inl MissingChecksum
             else
               let body_len = length after_flags - 4;
                   checksum = u32_from_le_bytes (drop body_len after_flags) in
               res_bind (parse_sections B (take body_len after_flags)) (\<lambda>sections.
               Inr \<lparr>om_flags = flags, om_sections = sections, om_checksum = Some checksum\<rparr>))
          else
            res_bind (parse_sections B after_flags) (\<lambda>sections.
            Inr \<lparr>om_flags = flags, om_sections = sections, om_checksum = None\<rparr>))"

section \<open>Writing\<close>

text \<open>The bytes \<open>write_section\<close> appends to \<open>out\<close>.\<close>

fun write_documents :: "bson_crate \<Rightarrow> document list \<Rightarrow> bson_error + byte list" where
  "write_documents B [] = Inr []"
| "write_documents B (d # ds) =
     res_bind (to_writer B d) (\<lambda>bs.
     res_bind (write_documents B ds) (\<lambda>rest. Inr (bs @ rest)))"

fun write_section ::
  "bson_crate \<Rightarrow> OpMsgSection \<Rightarrow> OperationMessageWriteError + byte list" where
  "write_section B (Body doc) =
     res_bind (map_err SerializeError (to_writer B doc)) (\<lambda>bs. Inr (0 # bs))"
| "write_section B (DocumentSequence identifier documents) =
     res_bind (ok_or (cstring_new identifier) IdentifierContainsNullByte) (\<lambda>identifier_bytes.
     res_bind (map_err SerializeError (write_documents B documents)) (\<lambda>docs_bytes.
     let section_size = 4 + length identifier_bytes + length docs_bytes in
     res_bind (ok_or (i32_try_from section_size) (SectionTooLarge section_size)) (\<lambda>section_size_i32.
     Inr (1 # i32_to_le_bytes section_size_i32 @ identifier_bytes @ docs_bytes))))"

fun write_sections ::
  "bson_crate \<Rightarrow> OpMsgSection list \<Rightarrow> OperationMessageWriteError + byte list" where
  "write_sections B [] = Inr []"
| "write_sections B (s # ss) =
     res_bind (write_section B s) (\<lambda>bs.
     res_bind (write_sections B ss) (\<lambda>rest. Inr (bs @ rest)))"

definition checksum_flags :: "OperationMessage \<Rightarrow> OperationMessageFlags" where
  "checksum_flags m = flags_set (om_flags m) CHECKSUM_PRESENT (om_checksum m \<noteq> None)"

definition checksum_bytes :: "u32 option \<Rightarrow> byte list" where
  "checksum_bytes c = (case c of None \<Rightarrow> [] | Some crc \<Rightarrow> u32_to_le_bytes crc)"

text \<open>A writer with a destination buffer returns its result and the buffer after the
  call, on the error paths too.\<close>

definition OperationMessage_write_bytes ::
  "bson_crate \<Rightarrow> OperationMessage \<Rightarrow> byte list \<Rightarrow> RequestId \<Rightarrow> ResponseTo option
   \<Rightarrow> (OperationMessageWriteError + unit) \<times> byte list" where
  "OperationMessage_write_bytes B m dst request_id response_to =
     (case write_sections B (om_sections m) of
        Inl e \<Rightarrow> (Inl e, dst)
      | Inr sections_bytes \<Rightarrow>
          let flags = checksum_flags m;
              checksum_len = (if om_checksum m \<noteq> None then 4 else 0);
              message_length = MessageHeader_size + 4 + length sections_bytes + checksum_len in
          case frame_header MsgMessageTooLarge message_length OpcodeMsg request_id response_to of
            Inl e \<Rightarrow> (Inl e, dst)
          | Inr header \<Rightarrow>
              let dst = MessageHeader_write_bytes header dst;
                  dst = dst @ u32_to_le_bytes flags;
                  dst = dst @ sections_bytes;
                  dst = (case om_checksum m of
                           Some checksum \<Rightarrow> dst @ u32_to_le_bytes checksum
                         | None \<Rightarrow> dst) in
              (Inr (), dst))"

section \<open>Round trip\<close>

text \<open>What the Rust types guarantee of a value: only defined flag bits, identifiers that
  are UTF-8. \<open>wf_OperationMessage\<close> adds the one thing the wire needs and the struct does
  not enforce, a body of at least \<open>OperationMessage_min_len\<close> bytes.\<close>

fun wf_section :: "OpMsgSection \<Rightarrow> bool" where
  "wf_section (Body _) = True"
| "wf_section (DocumentSequence identifier _) = utf8_valid (bytes_of_string identifier)"

definition known_flags :: "u32 \<Rightarrow> u32 \<Rightarrow> bool" where
  "known_flags all_flags flags \<longleftrightarrow> flags AND NOT all_flags = 0"

definition wf_OperationMessage :: "OperationMessage \<Rightarrow> bool" where
  "wf_OperationMessage m \<longleftrightarrow>
     known_flags OperationMessageFlags_all (om_flags m) \<and> list_all wf_section (om_sections m) \<and>
     (om_sections m \<noteq> [] \<or> om_checksum m \<noteq> None)"

text \<open>The writer re-derives the checksum bit from the presence of the checksum.\<close>

definition norm_OperationMessage :: "OperationMessage \<Rightarrow> OperationMessage" where
  "norm_OperationMessage m = m\<lparr>om_flags := checksum_flags m\<rparr>"

lemmas flag_consts = CHECKSUM_PRESENT_def MORE_TO_COME_def EXHAUST_ALLOWED_def
  OperationMessageFlags_all_def

lemma OperationMessageFlags_all_value: "OperationMessageFlags_all = 0x10003"
  by (simp add: flag_consts)

lemma known_flags_iff: "known_flags a f \<longleftrightarrow> (\<forall>n. bit f n \<longrightarrow> bit a n)"
  using bit_imp_le_length [of f] by (fastforce simp: known_flags_def bit_eq_iff bit_simps)

lemma known_flags_AND: "known_flags a f \<Longrightarrow> f AND a = f"
  by (rule bit_word_eqI) (auto simp: known_flags_iff bit_simps)

lemma known_flags_masked: "known_flags a f \<Longrightarrow> (f AND m) AND NOT a = 0"
  by (rule bit_word_eqI) (auto simp: known_flags_iff bit_simps)

lemma known_checksum_flags:
  "known_flags OperationMessageFlags_all (om_flags m) \<Longrightarrow>
   known_flags OperationMessageFlags_all (checksum_flags m)"
  by (auto simp: known_flags_iff checksum_flags_def flags_set_def bit_simps
      OperationMessageFlags_all_def)

lemma contains_checksum_flags:
  "flags_contains (checksum_flags m) CHECKSUM_PRESENT \<longleftrightarrow> om_checksum m \<noteq> None"
proof -
  have "\<not> bit ((x AND NOT CHECKSUM_PRESENT) AND CHECKSUM_PRESENT) 0" for x
    by (simp add: bit_simps)
  moreover have "bit CHECKSUM_PRESENT 0" by (simp add: CHECKSUM_PRESENT_def)
  ultimately have "(x AND NOT CHECKSUM_PRESENT) AND CHECKSUM_PRESENT \<noteq> CHECKSUM_PRESENT" for x
    by metis
  moreover have "(x OR CHECKSUM_PRESENT) AND CHECKSUM_PRESENT = CHECKSUM_PRESENT" for x
    by (rule bit_word_eqI) (auto simp: bit_simps)
  ultimately show ?thesis
    by (auto simp: checksum_flags_def flags_set_def flags_contains_def)
qed

lemma OperationMessage_write_bytes_Inl:
  "OperationMessage_write_bytes B m dst rid rto = (Inl e, dst') \<Longrightarrow> dst' = dst"
  by (auto simp: OperationMessage_write_bytes_def Let_def split: sum.splits)

lemma OperationMessage_write_bytes_Inr:
  assumes "OperationMessage_write_bytes B m dst rid rto = (Inr u, dst')"
  shows "\<exists>h secs. write_sections B (om_sections m) = Inr secs \<and>
           frame_header MsgMessageTooLarge
             (MessageHeader_size + 4 + length secs + length (checksum_bytes (om_checksum m)))
             OpcodeMsg rid rto = Inr h \<and>
           dst' = dst @ MessageHeader_write_bytes h [] @
             u32_to_le_bytes (checksum_flags m) @ secs @ checksum_bytes (om_checksum m)"
  using assms MessageHeader_write_bytes_append [of _ dst]
  by (cases "om_checksum m")
    (auto simp: OperationMessage_write_bytes_def checksum_bytes_def Let_def split: sum.splits)

context bson_codec
begin

lemma read_documents_written:
  "write_documents B ds = Inr bs \<Longrightarrow> read_documents B bs = Inr ds"
proof (induction ds arbitrary: bs)
  case Nil
  then show ?case by (simp add: read_documents.simps)
next
  case (Cons d ds)
  then obtain b rest where b: "to_writer B d = Inr b" and r: "write_documents B ds = Inr rest"
    and bs: "bs = b @ rest"
    by (auto simp: result_simps)
  have "read_document B bs = Inr (d, rest)" using b by (simp add: bs read_document_written)
  moreover have "bs \<noteq> []" using written_not_Nil [OF b] by (simp add: bs)
  ultimately show ?case
    using Cons.IH [OF r] by (subst read_documents.simps) simp
qed

lemma parse_document_sequence_written:
  assumes "write_section B (DocumentSequence identifier documents) = Inr bs"
    and "utf8_valid (bytes_of_string identifier)"
  shows "\<exists>body. bs = 1 # body \<and>
           parse_document_sequence B (body @ rest) = Inr (DocumentSequence identifier documents, rest)"
proof -
  from assms(1) obtain docs_bytes size where
      nul: "0 \<notin> set (bytes_of_string identifier)"
      and docs: "write_documents B documents = Inr docs_bytes"
      and size: "i32_try_from (5 + length identifier + length docs_bytes) = Some size"
      and bs: "bs = 1 # i32_to_le_bytes size @ bytes_of_string identifier @ 0 # docs_bytes"
    by (auto simp: result_simps Let_def cstring_new_Some)
  define body where "body = i32_to_le_bytes size @ bytes_of_string identifier @ 0 # docs_bytes"
  have sz: "sint size = 5 + int (length identifier) + int (length docs_bytes)"
    using i32_try_from_Some [OF size] by simp
  have len: "nat (sint size) = length body" by (simp add: sz body_def)
  have "parse_document_sequence B (body @ rest) = Inr (DocumentSequence identifier documents, rest)"
    using len sz nul assms(2) read_documents_written [OF docs]
    by (simp add: parse_document_sequence_def body_def)
  then show ?thesis by (simp add: bs body_def)
qed

lemma parse_section_written:
  assumes "write_section B s = Inr bs" "wf_section s"
  shows "parse_sections B (bs @ rest) = res_bind (parse_sections B rest) (\<lambda>ss. Inr (s # ss))"
proof (cases s)
  case (Body d)
  with assms show ?thesis by (auto simp: result_simps read_document_written)
next
  case (DocumentSequence name docs)
  with assms parse_document_sequence_written [of name docs bs rest]
  show ?thesis by auto
qed

lemma parse_sections_written:
  "write_sections B ss = Inr bs \<Longrightarrow> list_all wf_section ss \<Longrightarrow> parse_sections B bs = Inr ss"
  by (induction ss arbitrary: bs) (auto simp: result_simps parse_section_written)

lemma OperationMessage_body_roundtrip:
  assumes "write_sections B (om_sections m) = Inr secs" "wf_OperationMessage m"
  shows "OperationMessage_from_bytes B
           (u32_to_le_bytes (checksum_flags m) @ secs @ checksum_bytes (om_checksum m)) =
         Inr (norm_OperationMessage m)"
proof -
  have kf: "known_flags OperationMessageFlags_all (checksum_flags m)"
    using assms(2) known_checksum_flags by (simp add: wf_OperationMessage_def)
  have secs: "parse_sections B secs = Inr (om_sections m)"
    using assms by (simp add: wf_OperationMessage_def parse_sections_written)
  have ne: "secs \<noteq> [] \<or> om_checksum m \<noteq> None"
  proof (cases "om_sections m")
    case (Cons s ss)
    then show ?thesis using assms(1) by (cases s) (auto simp: result_simps Let_def)
  qed (use assms(2) in \<open>simp add: wf_OperationMessage_def\<close>)
  show ?thesis
    using kf secs ne contains_checksum_flags [of m]
    by (cases "om_checksum m")
      (auto simp: OperationMessage_from_bytes_def OperationMessage_min_len_def checksum_bytes_def
        known_flags_masked known_flags_AND norm_OperationMessage_def Let_def Suc_le_eq)
qed

end

sublocale bson_codec \<subseteq> op_msg:
  operation_codec OpcodeMsg "OperationMessage_from_bytes B" "OperationMessage_write_bytes B"
    wf_OperationMessage norm_OperationMessage
proof unfold_locales
  fix m dst rid rto e dst'
  assume "OperationMessage_write_bytes B m dst rid rto = (Inl e, dst')"
  then show "dst' = dst" by (rule OperationMessage_write_bytes_Inl)
next
  fix m dst rid rto u dst'
  assume w: "OperationMessage_write_bytes B m dst rid rto = (Inr u, dst')"
    and rto: "wf_response_to rto"
  from OperationMessage_write_bytes_Inr [OF w] obtain h secs where
      secs: "write_sections B (om_sections m) = Inr secs"
      and h: "frame_header MsgMessageTooLarge
        (MessageHeader_size + 4 + length secs + length (checksum_bytes (om_checksum m)))
        OpcodeMsg rid rto = Inr h"
      and dst': "dst' = dst @ MessageHeader_write_bytes h [] @
        u32_to_le_bytes (checksum_flags m) @ secs @ checksum_bytes (om_checksum m)"
    by blast
  show "\<exists>h body. dst' = dst @ MessageHeader_write_bytes h [] @ body \<and> frame_of h body \<and>
          mh_op_code h = OpcodeMsg \<and> mh_request_id h = rid \<and> mh_response_to h = rto \<and>
          (wf_OperationMessage m \<longrightarrow>
           OperationMessage_from_bytes B body = Inr (norm_OperationMessage m))"
    using OperationMessage_body_roundtrip [OF secs]
    by (intro written_frame [OF h dst' _ rto]) simp_all
qed

section \<open>What a parsed message satisfies\<close>

lemma known_flags_AND_all: "known_flags a (f AND a)"
  by (simp add: known_flags_iff bit_simps)

lemma parse_document_sequence_wf:
  "parse_document_sequence B bs = Inr (s, rest) \<Longrightarrow> wf_section s"
  by (auto simp: parse_document_sequence_def Let_def result_simps
      split: if_splits)

lemma parse_sections_wf: "parse_sections B bs = Inr ss \<Longrightarrow> list_all wf_section ss"
  by (induction B bs arbitrary: ss rule: parse_sections.induct)
    (auto simp: result_simps split: if_splits dest: parse_document_sequence_wf)

lemma parse_sections_Nil: "parse_sections B bs = Inr [] \<Longrightarrow> bs = []"
  by (cases bs) (auto simp: result_simps split: if_splits)

lemma OperationMessage_from_bytes_flags:
  assumes "OperationMessage_from_bytes B bs = Inr m"
  shows "om_flags m = u32_from_le_bytes (take 4 bs) AND OperationMessageFlags_all"
    and "(u32_from_le_bytes (take 4 bs) AND REQUIRED_BITS_MASK) AND NOT OperationMessageFlags_all = 0"
    and "flags_contains (om_flags m) CHECKSUM_PRESENT \<longleftrightarrow> om_checksum m \<noteq> None"
  using assms
  by (auto simp: OperationMessage_from_bytes_def Let_def result_simps split: if_splits)

lemma OperationMessage_from_bytes_wf:
  assumes "OperationMessage_from_bytes B bs = Inr m"
  shows "wf_OperationMessage m" "norm_OperationMessage m = m"
proof -
  note fl = OperationMessage_from_bytes_flags [OF assms]
  have "om_sections m \<noteq> [] \<or> om_checksum m \<noteq> None" "list_all wf_section (om_sections m)"
    using assms parse_sections_Nil [of B "drop 4 bs"]
    by (auto simp: OperationMessage_from_bytes_def OperationMessage_min_len_def Let_def result_simps
        split: if_splits dest: parse_sections_wf)
  then show "wf_OperationMessage m"
    using fl(1) by (simp add: wf_OperationMessage_def known_flags_AND_all)
  have "f OR CHECKSUM_PRESENT = f" if "flags_contains f CHECKSUM_PRESENT" for f :: u32
    using that by (auto simp: flags_contains_def bit_eq_iff bit_simps)
  moreover have "f AND NOT CHECKSUM_PRESENT = f" if "\<not> flags_contains f CHECKSUM_PRESENT" for f :: u32
  proof -
    have "even f"
      using that
      by (auto simp: flags_contains_def CHECKSUM_PRESENT_def and_one_eq odd_iff_mod_2_eq_one)
    then show ?thesis by (intro bit_word_eqI) (auto simp: CHECKSUM_PRESENT_def bit_simps bit_0 intro: gr0I)
  qed
  ultimately have "checksum_flags m = om_flags m"
    using fl(3) by (auto simp: checksum_flags_def flags_set_def)
  then show "norm_OperationMessage m = m" by (simp add: norm_OperationMessage_def)
qed

text \<open>An unknown flag bit is never reported by the section parser.\<close>

lemma parse_document_sequence_no_flag_error:
  "parse_document_sequence B bs \<noteq> Inl (UnknownRequiredBits bits)"
  by (auto simp: parse_document_sequence_def Let_def result_simps split: if_splits)

lemma parse_sections_no_flag_error: "parse_sections B bs \<noteq> Inl (UnknownRequiredBits bits)"
  by (induction B bs rule: parse_sections.induct)
    (auto simp: result_simps parse_document_sequence_no_flag_error split: if_splits)

end
