(* ===== verification/OpQuery.thy ===== *)
theory OpQuery
  imports OpMsg
begin

text \<open>
  Legacy OP_QUERY bodies (\<open>src/src/operation/op_query.rs\<close>): flags, the NUL-terminated
  collection name, two integers, the query document and an optional projection.
\<close>

section \<open>Data\<close>

type_synonym OperationQueryFlags = u32

definition TAILABLE_CURSOR :: OperationQueryFlags where "TAILABLE_CURSOR = push_bit 1 1"
definition SLAVE_OK :: OperationQueryFlags where "SLAVE_OK = push_bit 2 1"
definition OPLOG_REPLAY :: OperationQueryFlags where "OPLOG_REPLAY = push_bit 3 1"
definition NO_CURSOR_TIMEOUT :: OperationQueryFlags where "NO_CURSOR_TIMEOUT = push_bit 4 1"
definition AWAIT_DATA :: OperationQueryFlags where "AWAIT_DATA = push_bit 5 1"
definition EXHAUST :: OperationQueryFlags where "EXHAUST = push_bit 6 1"
definition PARTIAL :: OperationQueryFlags where "PARTIAL = push_bit 7 1"

definition OperationQueryFlags_all :: OperationQueryFlags where
  "OperationQueryFlags_all =
     TAILABLE_CURSOR OR SLAVE_OK OR OPLOG_REPLAY OR NO_CURSOR_TIMEOUT OR AWAIT_DATA OR EXHAUST
     OR PARTIAL"

text \<open>The \<open>bitflags\<close> operation \<open>from_bits\<close>: \<open>None\<close> when an undefined bit is set.\<close>

definition flags_from_bits :: "u32 \<Rightarrow> u32 \<Rightarrow> u32 option" where
  "flags_from_bits all_flags raw = (if raw AND NOT all_flags = 0 then Some raw else None)"

record OperationQuery =
  oq_flags :: OperationQueryFlags
  oq_full_collection_name :: string
  oq_number_to_skip :: i32
  oq_number_to_return :: i32
  oq_query :: document
  oq_return_fields_selector :: "document option"

datatype OperationQueryParseError =
    QueryNotEnoughBytes nat nat \<comment> \<open>actual, min\<close>
  | QueryUnknownFlagBits u32
  | InvalidCollectionName
  | InvalidUtf8CollectionName
  | FailedToParseQueryDoc bson_error
  | FailedToParseReturnFieldsSelector bson_error

datatype OperationQueryWriteError =
    SerializeQueryError bson_error
  | SerializeReturnFieldSelectorError bson_error
  | CollectionNameContainsNullByte
  | QueryMessageTooLarge nat

section \<open>Parsing and writing\<close>

definition OperationQuery_min_len :: nat where
  "OperationQuery_min_len = 4 + 1 + 4 + 4 + 5"

definition TAIL_MIN :: nat where
  "TAIL_MIN = 4 + 4 + 5"

text \<open>\<open>saturating_sub\<close> is subtraction on \<open>nat\<close>; \<open>saturating_add\<close> on lengths of buffers
  never saturates.\<close>

definition OperationQuery_from_bytes ::
  "bson_crate \<Rightarrow> byte list \<Rightarrow> OperationQueryParseError + OperationQuery" where
  "OperationQuery_from_bytes B bytes =
     (let actual_len = length bytes; min_len = OperationQuery_min_len in
      if actual_len < min_len then Inl (QueryNotEnoughBytes actual_len min_len)
      else
        let raw_flags = u32_from_le_bytes (take 4 bytes) in
        res_bind (ok_or (flags_from_bits OperationQueryFlags_all raw_flags)
          (QueryUnknownFlagBits (raw_flags AND NOT OperationQueryFlags_all))) (\<lambda>flags.
        let bytes = drop 4 bytes in
        res_bind (ok_or (until_nul bytes) InvalidCollectionName) (\<lambda>name_cstr.
        if \<not> utf8_valid name_cstr then Inl InvalidUtf8CollectionName
        else
          let full_collection_name = string_of_bytes name_cstr;
              bytes = drop (length name_cstr + 1) bytes in
          if length bytes < TAIL_MIN then
            Inl (QueryNotEnoughBytes actual_len (actual_len - length bytes + TAIL_MIN))
          else
            let number_to_skip = i32_from_le_bytes (take 4 bytes);
                number_to_return = i32_from_le_bytes (take 4 (drop 4 bytes)) in
            res_bind (map_err FailedToParseQueryDoc (read_document B (drop 8 bytes))) (\<lambda>(query, rest).
            res_bind
              (if rest \<noteq> [] then
                 res_bind (map_err FailedToParseReturnFieldsSelector (read_document B rest))
                   (\<lambda>(doc, _). Inr (Some doc))
               else Inr None) (\<lambda>return_fields_selector.
            Inr \<lparr>oq_flags = flags, oq_full_collection_name = full_collection_name,
                 oq_number_to_skip = number_to_skip, oq_number_to_return = number_to_return,
                 oq_query = query, oq_return_fields_selector = return_fields_selector\<rparr>)))))"

definition OperationQuery_write_bytes ::
  "bson_crate \<Rightarrow> OperationQuery \<Rightarrow> byte list \<Rightarrow> RequestId \<Rightarrow> ResponseTo option
   \<Rightarrow> (OperationQueryWriteError + unit) \<times> byte list" where
  "OperationQuery_write_bytes B q dst request_id response_to =
     (case
        res_bind (map_err SerializeQueryError (to_writer B (oq_query q))) (\<lambda>query_bytes.
        res_bind
          (case oq_return_fields_selector q of
             Some doc \<Rightarrow> map_err SerializeReturnFieldSelectorError (to_writer B doc)
           | None \<Rightarrow> Inr []) (\<lambda>selector_bytes.
        res_bind (ok_or (cstring_new (oq_full_collection_name q)) CollectionNameContainsNullByte)
          (\<lambda>name_bytes.
        let message_length =
              MessageHeader_size + 4 + length name_bytes + 4 + 4 + length query_bytes +
              length selector_bytes in
        res_bind (frame_header QueryMessageTooLarge message_length OpcodeQuery request_id response_to)
          (\<lambda>header. Inr (header, name_bytes, query_bytes, selector_bytes))))) of
        Inl e \<Rightarrow> (Inl e, dst)
      | Inr (header, name_bytes, query_bytes, selector_bytes) \<Rightarrow>
          let dst = MessageHeader_write_bytes header dst;
              dst = dst @ u32_to_le_bytes (oq_flags q);
              dst = dst @ name_bytes;
              dst = dst @ i32_to_le_bytes (oq_number_to_skip q);
              dst = dst @ i32_to_le_bytes (oq_number_to_return q);
              dst = dst @ query_bytes;
              dst = dst @ selector_bytes in
          (Inr (), dst))"

section \<open>Round trip\<close>

definition wf_OperationQuery :: "OperationQuery \<Rightarrow> bool" where
  "wf_OperationQuery q \<longleftrightarrow>
     known_flags OperationQueryFlags_all (oq_flags q) \<and>
     utf8_valid (bytes_of_string (oq_full_collection_name q))"

lemma OperationQuery_write_bytes_Inl:
  "OperationQuery_write_bytes B q dst rid rto = (Inl e, dst') \<Longrightarrow> dst' = dst"
  by (auto simp: OperationQuery_write_bytes_def Let_def split: sum.splits prod.splits)

definition selector_bytes :: "bson_crate \<Rightarrow> document option \<Rightarrow> bson_error + byte list" where
  "selector_bytes B sel = (case sel of None \<Rightarrow> Inr [] | Some doc \<Rightarrow> to_writer B doc)"

lemma OperationQuery_write_bytes_Inr:
  assumes "OperationQuery_write_bytes B q dst rid rto = (Inr u, dst')"
  shows "\<exists>h qb sb. to_writer B (oq_query q) = Inr qb \<and>
           selector_bytes B (oq_return_fields_selector q) = Inr sb \<and>
           0 \<notin> set (bytes_of_string (oq_full_collection_name q)) \<and>
           frame_header QueryMessageTooLarge
             (MessageHeader_size + 4 + (length (oq_full_collection_name q) + 1) + 4 + 4 +
              length qb + length sb) OpcodeQuery rid rto = Inr h \<and>
           dst' = dst @ MessageHeader_write_bytes h [] @ u32_to_le_bytes (oq_flags q) @
             (bytes_of_string (oq_full_collection_name q) @ [0]) @
             i32_to_le_bytes (oq_number_to_skip q) @ i32_to_le_bytes (oq_number_to_return q) @
             qb @ sb"
  using assms MessageHeader_write_bytes_append [of _ dst]
  by (cases "oq_return_fields_selector q")
    (auto simp: OperationQuery_write_bytes_def selector_bytes_def Let_def result_simps
      cstring_new_Some split: sum.splits prod.splits)

context bson_codec
begin

lemma OperationQuery_body_roundtrip:
  assumes wf: "wf_OperationQuery q"
    and qb: "to_writer B (oq_query q) = Inr qb"
    and sb: "selector_bytes B (oq_return_fields_selector q) = Inr sb"
    and nul: "0 \<notin> set (bytes_of_string (oq_full_collection_name q))"
  shows "OperationQuery_from_bytes B
           (u32_to_le_bytes (oq_flags q) @ (bytes_of_string (oq_full_collection_name q) @ [0]) @
            i32_to_le_bytes (oq_number_to_skip q) @ i32_to_le_bytes (oq_number_to_return q) @
            qb @ sb) = Inr q"
proof -
  have sel: "(if sb \<noteq> [] then
               res_bind (map_err FailedToParseReturnFieldsSelector (read_document B sb))
                 (\<lambda>(doc, _). Inr (Some doc))
             else Inr None) = Inr (oq_return_fields_selector q)"
    using sb read_document_written [of _ sb "[]"] written_not_Nil [of _ sb]
    by (cases "oq_return_fields_selector q") (auto simp: selector_bytes_def)
  have len: "5 \<le> length qb" using written_min [OF qb] .
  show ?thesis
    using wf nul len sel read_document_written [OF qb, of sb]
    by (simp add: OperationQuery_from_bytes_def OperationQuery_min_len_def TAIL_MIN_def
        wf_OperationQuery_def flags_from_bits_def known_flags_def)
qed

end

sublocale bson_codec \<subseteq> op_query:
  operation_codec OpcodeQuery "OperationQuery_from_bytes B" "OperationQuery_write_bytes B"
    wf_OperationQuery id
proof unfold_locales
  fix q dst rid rto e dst'
  assume "OperationQuery_write_bytes B q dst rid rto = (Inl e, dst')"
  then show "dst' = dst" by (rule OperationQuery_write_bytes_Inl)
next
  fix q dst rid rto u dst'
  assume w: "OperationQuery_write_bytes B q dst rid rto = (Inr u, dst')"
    and rto: "wf_response_to rto"
  from OperationQuery_write_bytes_Inr [OF w] obtain h qb sb where
      qb: "to_writer B (oq_query q) = Inr qb"
      and sb: "selector_bytes B (oq_return_fields_selector q) = Inr sb"
      and nul: "0 \<notin> set (bytes_of_string (oq_full_collection_name q))"
      and h: "frame_header QueryMessageTooLarge
        (MessageHeader_size + 4 + (length (oq_full_collection_name q) + 1) + 4 + 4 +
         length qb + length sb) OpcodeQuery rid rto = Inr h"
      and dst': "dst' = dst @ MessageHeader_write_bytes h [] @ u32_to_le_bytes (oq_flags q) @
        (bytes_of_string (oq_full_collection_name q) @ [0]) @
        i32_to_le_bytes (oq_number_to_skip q) @ i32_to_le_bytes (oq_number_to_return q) @ qb @ sb"
    by blast
  show "\<exists>h body. dst' = dst @ MessageHeader_write_bytes h [] @ body \<and> frame_of h body \<and>
          mh_op_code h = OpcodeQuery \<and> mh_request_id h = rid \<and> mh_response_to h = rto \<and>
          (wf_OperationQuery q \<longrightarrow> OperationQuery_from_bytes B body = Inr (id q))"
    using OperationQuery_body_roundtrip [OF _ qb sb nul]
    by (intro written_frame [OF h dst' _ rto]) simp_all
qed

lemma flags_from_bits_known: "flags_from_bits a raw = Some f \<Longrightarrow> known_flags a f"
  by (auto simp: flags_from_bits_def known_flags_def split: if_splits)

lemma OperationQuery_from_bytes_wf:
  "OperationQuery_from_bytes B bs = Inr q \<Longrightarrow> wf_OperationQuery q"
  by (auto simp: OperationQuery_from_bytes_def wf_OperationQuery_def Let_def result_simps
      split: if_splits dest: flags_from_bits_known)

end
