(* ===== verification/OpReply.thy ===== *)
theory OpReply
  imports OpQuery
begin

text \<open>
  Legacy OP_REPLY bodies (\<open>src/src/operation/op_reply.rs\<close>): flags, cursor metadata and a
  counted batch of documents. The count on the wire is derived from the batch.
\<close>

section \<open>Data\<close>

type_synonym OperationReplyFlags = u32

definition CURSOR_NOT_FOUND :: OperationReplyFlags where "CURSOR_NOT_FOUND = push_bit 0 1"
definition QUERY_FAILURE :: OperationReplyFlags where "QUERY_FAILURE = push_bit 1 1"
definition SHARD_CONFIG_STALE :: OperationReplyFlags where "SHARD_CONFIG_STALE = push_bit 2 1"
definition AWAIT_CAPABLE :: OperationReplyFlags where "AWAIT_CAPABLE = push_bit 3 1"

definition OperationReplyFlags_all :: OperationReplyFlags where
  "OperationReplyFlags_all =
     CURSOR_NOT_FOUND OR QUERY_FAILURE OR SHARD_CONFIG_STALE OR AWAIT_CAPABLE"

record OperationReply =
  or_flags :: OperationReplyFlags
  or_cursor_id :: i64
  or_starting_from :: i32
  or_documents :: "document list"

datatype OperationReplyParseError =
    ReplyNotEnoughBytes nat nat \<comment> \<open>actual, min\<close>
  | ReplyUnknownFlagBits u32
  | FailedToParseDocument nat bson_error

datatype OperationReplyWriteError =
    SerializeDocumentError bson_error
  | TooManyDocuments nat
  | ReplyMessageTooLarge nat

section \<open>Parsing and writing\<close>

definition OperationReply_min_len :: nat where
  "OperationReply_min_len = 4 + 8 + 4 + 4"

text \<open>\<open>for n in 0..num_docs\<close>; \<open>todo\<close> iterations remain, \<open>n\<close> is the loop variable.\<close>

fun read_counted ::
  "bson_crate \<Rightarrow> nat \<Rightarrow> nat \<Rightarrow> byte list \<Rightarrow> OperationReplyParseError + document list" where
  "read_counted B 0 n bs = Inr []"
| "read_counted B (Suc todo) n bs =
     res_bind (map_err (FailedToParseDocument n) (read_document B bs)) (\<lambda>(doc, rest).
     res_bind (read_counted B todo (Suc n) rest) (\<lambda>docs. Inr (doc # docs)))"

definition OperationReply_from_bytes ::
  "bson_crate \<Rightarrow> byte list \<Rightarrow> OperationReplyParseError + OperationReply" where
  "OperationReply_from_bytes B bytes =
     (let actual_len = length bytes; min_len = OperationReply_min_len in
      if actual_len < min_len then Inl (ReplyNotEnoughBytes actual_len min_len)
      else
        let raw_flags = u32_from_le_bytes (take 4 bytes) in
        res_bind (ok_or (flags_from_bits OperationReplyFlags_all raw_flags)
          (ReplyUnknownFlagBits (raw_flags AND NOT OperationReplyFlags_all))) (\<lambda>flags.
        let cursor_id = i64_from_le_bytes (take 8 (drop 4 bytes));
            starting_from = i32_from_le_bytes (take 4 (drop 12 bytes));
            number_returned = i32_from_le_bytes (take 4 (drop 16 bytes));
            num_docs = nat (max (sint number_returned) 0) in
        res_bind (read_counted B num_docs 0 (drop min_len bytes)) (\<lambda>documents.
        Inr \<lparr>or_flags = flags, or_cursor_id = cursor_id, or_starting_from = starting_from,
             or_documents = documents\<rparr>)))"

definition OperationReply_write_bytes ::
  "bson_crate \<Rightarrow> OperationReply \<Rightarrow> byte list \<Rightarrow> RequestId \<Rightarrow> ResponseTo option
   \<Rightarrow> (OperationReplyWriteError + unit) \<times> byte list" where
  "OperationReply_write_bytes B r dst request_id response_to =
     (case
        res_bind (ok_or (i32_try_from (length (or_documents r)))
          (TooManyDocuments (length (or_documents r)))) (\<lambda>number_returned.
        res_bind (map_err SerializeDocumentError (write_documents B (or_documents r)))
          (\<lambda>documents_bytes.
        let message_length = MessageHeader_size + OperationReply_min_len + length documents_bytes in
        res_bind (frame_header ReplyMessageTooLarge message_length OpcodeReply request_id response_to)
          (\<lambda>header. Inr (header, number_returned, documents_bytes)))) of
        Inl e \<Rightarrow> (Inl e, dst)
      | Inr (header, number_returned, documents_bytes) \<Rightarrow>
          let dst = MessageHeader_write_bytes header dst;
              dst = dst @ u32_to_le_bytes (or_flags r);
              dst = dst @ i64_to_le_bytes (or_cursor_id r);
              dst = dst @ i32_to_le_bytes (or_starting_from r);
              dst = dst @ i32_to_le_bytes number_returned;
              dst = dst @ documents_bytes in
          (Inr (), dst))"

section \<open>Round trip\<close>

definition wf_OperationReply :: "OperationReply \<Rightarrow> bool" where
  "wf_OperationReply r \<longleftrightarrow> known_flags OperationReplyFlags_all (or_flags r)"

lemma OperationReply_write_bytes_Inl:
  "OperationReply_write_bytes B r dst rid rto = (Inl e, dst') \<Longrightarrow> dst' = dst"
  by (auto simp: OperationReply_write_bytes_def Let_def split: sum.splits prod.splits)

lemma OperationReply_write_bytes_Inr:
  assumes "OperationReply_write_bytes B r dst rid rto = (Inr u, dst')"
  shows "\<exists>h count docs. i32_try_from (length (or_documents r)) = Some count \<and>
           write_documents B (or_documents r) = Inr docs \<and>
           frame_header ReplyMessageTooLarge
             (MessageHeader_size + OperationReply_min_len + length docs)
             OpcodeReply rid rto = Inr h \<and>
           dst' = dst @ MessageHeader_write_bytes h [] @ u32_to_le_bytes (or_flags r) @
             i64_to_le_bytes (or_cursor_id r) @ i32_to_le_bytes (or_starting_from r) @
             i32_to_le_bytes count @ docs"
  using assms MessageHeader_write_bytes_append [of _ dst]
  by (auto simp: OperationReply_write_bytes_def Let_def result_simps
      split: sum.splits prod.splits)

text \<open>A parsed batch has as many documents as the (clamped) count says, and never more
  than the body has bytes for.\<close>

lemma read_counted_length: "read_counted B k n bs = Inr docs \<Longrightarrow> length docs = k"
  by (induction B k n bs arbitrary: docs rule: read_counted.induct) (auto simp: result_simps)

context bson_codec
begin

lemma read_counted_bound:
  "read_counted B k n bs = Inr docs \<Longrightarrow> 4 * length docs \<le> length bs"
proof (induction k arbitrary: n bs docs)
  case (Suc k)
  then obtain d rest ds where d: "read_document B bs = Inr (d, rest)"
    and ds: "read_counted B k (Suc n) rest = Inr ds" and docs: "docs = d # ds"
    by (auto simp: result_simps)
  from read_document_suffix [OF d] Suc.IH [OF ds] show ?case by (auto simp: docs)
qed simp

lemma read_counted_written:
  "write_documents B ds = Inr bs \<Longrightarrow> read_counted B (length ds) n (bs @ rest) = Inr ds"
  by (induction ds arbitrary: bs n) (auto simp: result_simps read_document_written)

lemma OperationReply_body_roundtrip:
  assumes wf: "wf_OperationReply r"
    and count: "i32_try_from (length (or_documents r)) = Some count"
    and docs: "write_documents B (or_documents r) = Inr docs"
  shows "OperationReply_from_bytes B
           (u32_to_le_bytes (or_flags r) @ i64_to_le_bytes (or_cursor_id r) @
            i32_to_le_bytes (or_starting_from r) @ i32_to_le_bytes count @ docs) = Inr r"
  using wf i32_try_from_Some [OF count] read_counted_written [OF docs, of 0 "[]"]
  by (simp add: OperationReply_from_bytes_def OperationReply_min_len_def wf_OperationReply_def
      flags_from_bits_def known_flags_def)

end

sublocale bson_codec \<subseteq> op_reply:
  operation_codec OpcodeReply "OperationReply_from_bytes B" "OperationReply_write_bytes B"
    wf_OperationReply id
proof unfold_locales
  fix r dst rid rto e dst'
  assume "OperationReply_write_bytes B r dst rid rto = (Inl e, dst')"
  then show "dst' = dst" by (rule OperationReply_write_bytes_Inl)
next
  fix r dst rid rto u dst'
  assume w: "OperationReply_write_bytes B r dst rid rto = (Inr u, dst')"
    and rto: "wf_response_to rto"
  from OperationReply_write_bytes_Inr [OF w] obtain h count docs where
      count: "i32_try_from (length (or_documents r)) = Some count"
      and docs: "write_documents B (or_documents r) = Inr docs"
      and h: "frame_header ReplyMessageTooLarge
        (MessageHeader_size + OperationReply_min_len + length docs) OpcodeReply rid rto = Inr h"
      and dst': "dst' = dst @ MessageHeader_write_bytes h [] @ u32_to_le_bytes (or_flags r) @
        i64_to_le_bytes (or_cursor_id r) @ i32_to_le_bytes (or_starting_from r) @
        i32_to_le_bytes count @ docs"
    by blast
  show "\<exists>h body. dst' = dst @ MessageHeader_write_bytes h [] @ body \<and> frame_of h body \<and>
          mh_op_code h = OpcodeReply \<and> mh_request_id h = rid \<and> mh_response_to h = rto \<and>
          (wf_OperationReply r \<longrightarrow> OperationReply_from_bytes B body = Inr (id r))"
    using OperationReply_body_roundtrip [OF _ count docs]
    by (intro written_frame [OF h dst' _ rto]) (simp_all add: OperationReply_min_len_def)
qed

lemma OperationReply_from_bytes_wf:
  "OperationReply_from_bytes B bs = Inr r \<Longrightarrow> wf_OperationReply r"
  by (auto simp: OperationReply_from_bytes_def wf_OperationReply_def Let_def result_simps
      split: if_splits dest: flags_from_bits_known)

end
