(* ===== verification/Message.thy ===== *)
theory Message
  imports OpReply
begin

text \<open>
  The operation union (\<open>src/src/operation/mod.rs\<close>), the framed message
  (\<open>src/src/message.rs\<close>) and the encoder (\<open>src/src/encoder.rs\<close>).
\<close>

section \<open>Operations\<close>

datatype Operation =
    Operation_Query OperationQuery
  | Operation_Message OperationMessage
  | Operation_Reply OperationReply

datatype OperationParseError =
    FailedToParseMessage OperationMessageParseError
  | FailedToParseQuery OperationQueryParseError
  | FailedToParseReply OperationReplyParseError

datatype OperationWriteError =
    FailedToWriteOperationMessage OperationMessageWriteError
  | FailedToWriteOperationQuery OperationQueryWriteError
  | FailedToWriteOperationReply OperationReplyWriteError

fun Operation_op_kind :: "Operation \<Rightarrow> string" where
  "Operation_op_kind (Operation_Message _) = ''OP_MSG''"
| "Operation_op_kind (Operation_Query _) = ''OP_QUERY''"
| "Operation_op_kind (Operation_Reply _) = ''OP_REPLY''"

fun Operation_command_name :: "Operation \<Rightarrow> string option" where
  "Operation_command_name (Operation_Message m) = OperationMessage_command_name m"
| "Operation_command_name (Operation_Query q) = first_key (oq_query q)"
| "Operation_command_name (Operation_Reply _) = None"

fun Operation_from_bytes ::
  "bson_crate \<Rightarrow> OPCode \<Rightarrow> byte list \<Rightarrow> OperationParseError + Operation" where
  "Operation_from_bytes B OpcodeMsg bytes =
     res_bind (map_err FailedToParseMessage (OperationMessage_from_bytes B bytes))
       (\<lambda>m. Inr (Operation_Message m))"
| "Operation_from_bytes B OpcodeQuery bytes =
     res_bind (map_err FailedToParseQuery (OperationQuery_from_bytes B bytes))
       (\<lambda>q. Inr (Operation_Query q))"
| "Operation_from_bytes B OpcodeReply bytes =
     res_bind (map_err FailedToParseReply (OperationReply_from_bytes B bytes))
       (\<lambda>r. Inr (Operation_Reply r))"

fun Operation_write_bytes ::
  "bson_crate \<Rightarrow> Operation \<Rightarrow> byte list \<Rightarrow> RequestId \<Rightarrow> ResponseTo option
   \<Rightarrow> (OperationWriteError + unit) \<times> byte list" where
  "Operation_write_bytes B (Operation_Message m) dst request_id response_to =
     (case OperationMessage_write_bytes B m dst request_id response_to of
        (r, dst) \<Rightarrow> (map_err FailedToWriteOperationMessage r, dst))"
| "Operation_write_bytes B (Operation_Query q) dst request_id response_to =
     (case OperationQuery_write_bytes B q dst request_id response_to of
        (r, dst) \<Rightarrow> (map_err FailedToWriteOperationQuery r, dst))"
| "Operation_write_bytes B (Operation_Reply p) dst request_id response_to =
     (case OperationReply_write_bytes B p dst request_id response_to of
        (r, dst) \<Rightarrow> (map_err FailedToWriteOperationReply r, dst))"

section \<open>Messages\<close>

record Message =
  msg_request_id :: RequestId
  msg_response_to :: "ResponseTo option"
  msg_operation :: Operation

datatype MessageAndHeaderParseError =
    MessageNotEnoughBytes nat nat \<comment> \<open>actual, expected\<close>
  | FailedToParseOperation OperationParseError

datatype MessageParseError =
    FailedToParseHeader MessageHeaderParseError
  | FailedToParseMessageBody MessageAndHeaderParseError

datatype MessageWriteError = FailedToWriteOperation OperationWriteError

definition Message_from_headers_and_bytes ::
  "bson_crate \<Rightarrow> MessageHeader \<Rightarrow> byte list \<Rightarrow> MessageAndHeaderParseError + Message" where
  "Message_from_headers_and_bytes B header bytes =
     (let actual_bytes = length bytes;
          expected_bytes = MessageLength_as_usize (mh_message_length header) in
      if actual_bytes < expected_bytes then Inl (MessageNotEnoughBytes actual_bytes expected_bytes)
      else
        let bytes = drop MessageHeader_size bytes in
        res_bind (map_err FailedToParseOperation
          (Operation_from_bytes B (mh_op_code header) bytes)) (\<lambda>operation.
        Inr \<lparr>msg_request_id = mh_request_id header, msg_response_to = mh_response_to header,
             msg_operation = operation\<rparr>))"

definition Message_from_bytes :: "bson_crate \<Rightarrow> byte list \<Rightarrow> MessageParseError + Message" where
  "Message_from_bytes B bytes =
     res_bind (map_err FailedToParseHeader (MessageHeader_from_bytes bytes)) (\<lambda>header.
     res_bind (map_err FailedToParseMessageBody (Message_from_headers_and_bytes B header bytes))
       (\<lambda>message. Inr message))"

definition Message_write_bytes ::
  "bson_crate \<Rightarrow> Message \<Rightarrow> byte list \<Rightarrow> (MessageWriteError + unit) \<times> byte list" where
  "Message_write_bytes B m dst =
     (case Operation_write_bytes B (msg_operation m) dst (msg_request_id m) (msg_response_to m) of
        (r, dst) \<Rightarrow> (map_err FailedToWriteOperation r, dst))"

section \<open>The encoder\<close>

datatype WireEncoderError =
    EncoderIoError string
  | MessageWriteError MessageWriteError

definition WireEncoder_encode ::
  "bson_crate \<Rightarrow> Message \<Rightarrow> byte list \<Rightarrow> (WireEncoderError + unit) \<times> byte list" where
  "WireEncoder_encode B message dst =
     (case Message_write_bytes B message dst of
        (r, dst) \<Rightarrow> (map_err MessageWriteError r, dst))"

section \<open>Well-formed messages and the round trip\<close>

fun wf_Operation :: "Operation \<Rightarrow> bool" where
  "wf_Operation (Operation_Message m) = wf_OperationMessage m"
| "wf_Operation (Operation_Query q) = wf_OperationQuery q"
| "wf_Operation (Operation_Reply r) = wf_OperationReply r"

fun norm_Operation :: "Operation \<Rightarrow> Operation" where
  "norm_Operation (Operation_Message m) = Operation_Message (norm_OperationMessage m)"
| "norm_Operation (Operation_Query q) = Operation_Query q"
| "norm_Operation (Operation_Reply r) = Operation_Reply r"

definition wf_Message :: "Message \<Rightarrow> bool" where
  "wf_Message m \<longleftrightarrow> wf_response_to (msg_response_to m) \<and> wf_Operation (msg_operation m)"

definition norm_Message :: "Message \<Rightarrow> Message" where
  "norm_Message m = m\<lparr>msg_operation := norm_Operation (msg_operation m)\<rparr>"

fun Operation_op_code :: "Operation \<Rightarrow> OPCode" where
  "Operation_op_code (Operation_Message _) = OpcodeMsg"
| "Operation_op_code (Operation_Query _) = OpcodeQuery"
| "Operation_op_code (Operation_Reply _) = OpcodeReply"

text \<open>The frame a message occupies on the wire: a header that declares the size of
  the whole frame, and a body that parses back to the operation.\<close>

definition message_frame :: "bson_crate \<Rightarrow> Message \<Rightarrow> byte list \<Rightarrow> bool" where
  "message_frame B m frame \<longleftrightarrow>
     (\<exists>h body. frame = MessageHeader_write_bytes h [] @ body \<and> frame_of h body \<and>
        mh_op_code h = Operation_op_code (msg_operation m) \<and>
        mh_request_id h = msg_request_id m \<and> mh_response_to h = msg_response_to m \<and>
        (wf_Operation (msg_operation m) \<longrightarrow>
         Operation_from_bytes B (Operation_op_code (msg_operation m)) body =
         Inr (norm_Operation (msg_operation m))))"

context bson_codec
begin

lemma Operation_write_error:
  "Operation_write_bytes B x dst rid rto = (Inl e, dst') \<Longrightarrow> dst' = dst"
  by (cases x) (auto simp: result_simps split: prod.splits
      dest: op_msg.write_error op_query.write_error op_reply.write_error)

lemma Operation_write_frame:
  assumes "Operation_write_bytes B x dst rid rto = (Inr u, dst')" "wf_response_to rto"
  shows "\<exists>h body. dst' = dst @ MessageHeader_write_bytes h [] @ body \<and> frame_of h body \<and>
           mh_op_code h = Operation_op_code x \<and> mh_request_id h = rid \<and> mh_response_to h = rto \<and>
           (wf_Operation x \<longrightarrow>
            Operation_from_bytes B (Operation_op_code x) body = Inr (norm_Operation x))"
proof (cases x)
  case (Operation_Query q)
  with assms op_query.write_frame [of q dst rid rto u dst'] show ?thesis
    by (auto simp: result_simps split: prod.splits)
next
  case (Operation_Message m)
  with assms op_msg.write_frame [of m dst rid rto u dst'] show ?thesis
    by (auto simp: result_simps split: prod.splits)
next
  case (Operation_Reply r)
  with assms op_reply.write_frame [of r dst rid rto u dst'] show ?thesis
    by (auto simp: result_simps split: prod.splits)
qed

lemma Message_write_error: "Message_write_bytes B m dst = (Inl e, dst') \<Longrightarrow> dst' = dst"
  by (auto simp: Message_write_bytes_def result_simps split: prod.splits dest: Operation_write_error)

lemma Message_write_frame:
  assumes "Message_write_bytes B m dst = (Inr u, dst')" "wf_response_to (msg_response_to m)"
  shows "\<exists>frame. dst' = dst @ frame \<and> message_frame B m frame"
proof -
  from assms(1) have "Operation_write_bytes B (msg_operation m) dst (msg_request_id m)
      (msg_response_to m) = (Inr u, dst')"
    by (auto simp: Message_write_bytes_def result_simps split: prod.splits)
  from Operation_write_frame [OF this assms(2)] obtain h body where
    "dst' = dst @ MessageHeader_write_bytes h [] @ body" and fo: "frame_of h body"
    and h: "mh_op_code h = Operation_op_code (msg_operation m)"
    "mh_request_id h = msg_request_id m" "mh_response_to h = msg_response_to m"
    and p: "wf_Operation (msg_operation m) \<longrightarrow>
      Operation_from_bytes B (Operation_op_code (msg_operation m)) body =
      Inr (norm_Operation (msg_operation m))"
    by blast
  moreover from fo h p have "message_frame B m (MessageHeader_write_bytes h [] @ body)"
    unfolding message_frame_def by blast
  ultimately show ?thesis by blast
qed

lemma encode_error: "WireEncoder_encode B m dst = (Inl e, dst') \<Longrightarrow> dst' = dst"
  by (auto simp: WireEncoder_encode_def result_simps split: prod.splits dest: Message_write_error)

lemma encode_frame:
  "WireEncoder_encode B m dst = (Inr u, dst') \<Longrightarrow> wf_response_to (msg_response_to m) \<Longrightarrow>
   \<exists>frame. dst' = dst @ frame \<and> message_frame B m frame"
  by (auto simp: WireEncoder_encode_def result_simps split: prod.splits dest: Message_write_frame)

end

lemma message_frame_length:
  "message_frame B m frame \<Longrightarrow>
   MessageHeader_size \<le> length frame \<and> length frame \<le> 48 * 1024 * 1024"
proof -
  assume "message_frame B m frame"
  then obtain h body where f: "frame = MessageHeader_write_bytes h [] @ body" "frame_of h body"
    unfolding message_frame_def by blast
  then show ?thesis
    using MessageLength_as_usize_bounds [of "mh_message_length h"]
    by (auto simp: frame_of_def wf_header_def)
qed

lemma message_frame_header:
  assumes "message_frame B m frame"
  obtains h where "MessageHeader_from_bytes (frame @ rest) = Inr h" "wf_header h"
    "MessageLength_as_usize (mh_message_length h) = length frame"
    "wf_Operation (msg_operation m) \<longrightarrow>
     Message_from_headers_and_bytes B h frame = Inr (norm_Message m)"
proof -
  from assms obtain h body where f: "frame = MessageHeader_write_bytes h [] @ body"
    and fo: "frame_of h body" and h: "mh_op_code h = Operation_op_code (msg_operation m)"
    "mh_request_id h = msg_request_id m" "mh_response_to h = msg_response_to m"
    and p: "wf_Operation (msg_operation m) \<longrightarrow>
      Operation_from_bytes B (Operation_op_code (msg_operation m)) body =
      Inr (norm_Operation (msg_operation m))"
    unfolding message_frame_def by blast
  have "MessageHeader_from_bytes (frame @ rest) = Inr h"
    using fo by (simp add: f header_roundtrip frame_of_def)
  moreover have "MessageLength_as_usize (mh_message_length h) = length frame"
    using fo by (simp add: f frame_of_def)
  moreover from this have "wf_Operation (msg_operation m) \<longrightarrow>
      Message_from_headers_and_bytes B h frame = Inr (norm_Message m)"
    using h p by (auto simp: Message_from_headers_and_bytes_def f norm_Message_def)
  moreover have "wf_header h" using fo by (simp add: frame_of_def)
  ultimately show ?thesis using that by blast
qed

lemma message_frame_from_bytes:
  assumes "message_frame B m frame" "wf_Operation (msg_operation m)"
  shows "Message_from_bytes B frame = Inr (norm_Message m)"
proof -
  obtain h where "MessageHeader_from_bytes (frame @ []) = Inr h"
    "Message_from_headers_and_bytes B h frame = Inr (norm_Message m)"
    using message_frame_header [OF assms(1), of "[]"] assms(2) by metis
  then show ?thesis by (simp add: Message_from_bytes_def)
qed

text \<open>What the parser returns is well-formed and already in the form the wire carries.\<close>

lemma Operation_from_bytes_wf:
  "Operation_from_bytes B c bs = Inr x \<Longrightarrow> wf_Operation x \<and> norm_Operation x = x"
  by (cases c) (auto simp: result_simps dest: OperationMessage_from_bytes_wf
      OperationQuery_from_bytes_wf OperationReply_from_bytes_wf)

lemma Message_from_headers_and_bytes_wf:
  "Message_from_headers_and_bytes B h bs = Inr m \<Longrightarrow> wf_header h \<Longrightarrow>
   wf_Message m \<and> norm_Message m = m"
  by (auto simp: Message_from_headers_and_bytes_def wf_Message_def norm_Message_def wf_header_def
      Let_def result_simps split: if_splits dest: Operation_from_bytes_wf)

lemma Message_from_bytes_wf:
  "Message_from_bytes B bs = Inr m \<Longrightarrow> wf_Message m \<and> norm_Message m = m"
  by (auto simp: Message_from_bytes_def result_simps
      dest: header_from_bytes_wf Message_from_headers_and_bytes_wf)

text \<open>A sample message, for evaluation.\<close>

definition ping_message :: Message where
  "ping_message = \<lparr>msg_request_id = RequestId 7, msg_response_to = None,
     msg_operation = Operation_Message \<lparr>om_flags = 0,
       om_sections = [Body [(''ping'', Int32 1)]], om_checksum = None\<rparr>\<rparr>"

end
