(* ===== verification/Decoder.thy ===== *)
theory Decoder
  imports Message "HOL-Library.Sublist"
begin

text \<open>
  The stream decoder (\<open>src/src/decoder.rs\<close>) and its runs. A run interleaves arrivals of
  bytes with calls of \<open>decode\<close> in any order, which covers every way the socket can cut
  the stream into chunks and every schedule on which the framing layer polls the decoder.
\<close>

section \<open>The decoder\<close>

record WireDecoder =
  next_header :: "MessageHeader option"

definition WireDecoder_default :: WireDecoder where
  "WireDecoder_default = \<lparr>next_header = None\<rparr>"

datatype WireDecoderError =
    DecoderIoError string
  | DecoderInvalidOpcode OPCodeParseError
  | DecoderMessageParse MessageAndHeaderParseError
  | DecoderInvalidMessageLength MessageLengthError

text \<open>The first block of \<open>decode\<close>: peek the header unless one is cached.\<close>

definition peek_header :: "WireDecoder \<Rightarrow> byte list \<Rightarrow> WireDecoderError + WireDecoder" where
  "peek_header d buf =
     (case next_header d of
        Some _ \<Rightarrow> Inr d
      | None \<Rightarrow>
          (case MessageHeader_from_bytes buf of
             Inr header \<Rightarrow> Inr (d\<lparr>next_header := Some header\<rparr>)
           | Inl (HeaderTooFewBytes _) \<Rightarrow> Inr d
           | Inl (InvalidOPCode e) \<Rightarrow> Inl (DecoderInvalidOpcode e)
           | Inl (InvalidMessageLength e) \<Rightarrow> Inl (DecoderInvalidMessageLength e)))"

text \<open>\<open>decode(&mut self, buf)\<close>: the result, the decoder and the buffer after the call.\<close>

definition WireDecoder_decode ::
  "bson_crate \<Rightarrow> WireDecoder \<Rightarrow> byte list
   \<Rightarrow> (WireDecoderError + Message option) \<times> WireDecoder \<times> byte list" where
  "WireDecoder_decode B d buf =
     (case peek_header d buf of
        Inl e \<Rightarrow> (Inl e, d, buf)
      | Inr d \<Rightarrow>
          (case next_header d of
             None \<Rightarrow> (Inr None, d, buf)
           | Some header \<Rightarrow>
               let frame_len = MessageLength_as_usize (mh_message_length header) in
               if length buf < frame_len then (Inr None, d, buf)
               else
                 let d = d\<lparr>next_header := None\<rparr>;
                     message_bytes = take frame_len buf;
                     buf = drop frame_len buf in
                 (res_bind (map_err DecoderMessageParse
                    (Message_from_headers_and_bytes B header message_bytes)) (\<lambda>m. Inr (Some m)),
                  d, buf)))"

section \<open>Runs\<close>

record decoder_run =
  dr_decoder :: WireDecoder
  dr_buf :: "byte list"
  dr_input :: "byte list" \<comment> \<open>everything received so far\<close>
  dr_output :: "Message list" \<comment> \<open>everything decoded so far\<close>

definition decoder_start :: decoder_run where
  "decoder_start =
     \<lparr>dr_decoder = WireDecoder_default, dr_buf = [], dr_input = [], dr_output = []\<rparr>"

inductive decoder_step :: "bson_crate \<Rightarrow> decoder_run \<Rightarrow> decoder_run \<Rightarrow> bool" for B where
  received: "decoder_step B s (s\<lparr>dr_buf := dr_buf s @ bs, dr_input := dr_input s @ bs\<rparr>)"
| polled_none:
    "WireDecoder_decode B (dr_decoder s) (dr_buf s) = (Inr None, d, buf) \<Longrightarrow>
     decoder_step B s (s\<lparr>dr_decoder := d, dr_buf := buf\<rparr>)"
| polled_some:
    "WireDecoder_decode B (dr_decoder s) (dr_buf s) = (Inr (Some m), d, buf) \<Longrightarrow>
     decoder_step B s (s\<lparr>dr_decoder := d, dr_buf := buf, dr_output := dr_output s @ [m]\<rparr>)"

inductive decoder_reachable :: "bson_crate \<Rightarrow> decoder_run \<Rightarrow> bool" for B where
  start: "decoder_reachable B decoder_start"
| step: "decoder_reachable B s \<Longrightarrow> decoder_step B s t \<Longrightarrow> decoder_reachable B t"

text \<open>No message is left to take out: the next poll returns \<open>Ok(None)\<close>.\<close>

definition decoder_idle :: "bson_crate \<Rightarrow> decoder_run \<Rightarrow> bool" where
  "decoder_idle B s \<longleftrightarrow> fst (WireDecoder_decode B (dr_decoder s) (dr_buf s)) = Inr None"

section \<open>The specification: frames in sequence\<close>

text \<open>The first complete frame of a byte string, if it has one.\<close>

definition split_frame :: "byte list \<Rightarrow> (MessageHeader \<times> byte list \<times> byte list) option" where
  "split_frame bs =
     (case MessageHeader_from_bytes bs of
        Inl _ \<Rightarrow> None
      | Inr h \<Rightarrow>
          let n = MessageLength_as_usize (mh_message_length h) in
          if n \<le> length bs then Some (h, take n bs, drop n bs) else None)"

inductive decodes :: "bson_crate \<Rightarrow> byte list \<Rightarrow> Message list \<Rightarrow> byte list \<Rightarrow> bool" for B where
  none: "decodes B bs [] bs"
| snoc: "decodes B bs ms rest \<Longrightarrow> split_frame rest = Some (h, frame, rest') \<Longrightarrow>
     Message_from_headers_and_bytes B h frame = Inr m \<Longrightarrow> decodes B bs (ms @ [m]) rest'"

inductive_cases decodes_snocE: "decodes B bs (ms @ [m]) rest"
inductive_cases decodes_NilE: "decodes B bs [] rest"

lemma split_frame_append:
  assumes "split_frame bs = Some (h, frame, rest)"
  shows "split_frame (bs @ ext) = Some (h, frame, rest @ ext)"
proof -
  from assms have h: "MessageHeader_from_bytes bs = Inr h"
    and n: "MessageLength_as_usize (mh_message_length h) \<le> length bs"
    by (auto simp: split_frame_def Let_def split: sum.splits if_splits)
  have "MessageHeader_from_bytes (bs @ ext) = Inr h"
    using h header_from_bytes_prefix [OF header_from_bytes_length [OF h]] by simp
  with assms h n show ?thesis by (auto simp: split_frame_def Let_def)
qed

lemma decodes_append: "decodes B bs ms rest \<Longrightarrow> decodes B (bs @ ext) ms (rest @ ext)"
  by (induction rule: decodes.induct) (auto intro: decodes.intros dest: split_frame_append)

text \<open>The specification is deterministic: of two decodings of the same bytes, one
  extends the other.\<close>

lemma decodes_same_length:
  "decodes B bs ms r \<Longrightarrow> decodes B bs ms' r' \<Longrightarrow> length ms = length ms' \<Longrightarrow> ms = ms' \<and> r = r'"
proof (induction arbitrary: ms' r' rule: decodes.induct)
  case (none bs)
  then show ?case by (auto elim: decodes_NilE)
next
  case (snoc bs ms rest h frame rest' m)
  from snoc.prems(2) obtain ns n where ms': "ms' = ns @ [n]"
    by (metis append_Nil length_0_conv length_append_singleton nat.distinct(1) rev_exhaust)
  with snoc.prems obtain r2 h2 frame2 where
    "decodes B bs ns r2" "split_frame r2 = Some (h2, frame2, r')"
    "Message_from_headers_and_bytes B h2 frame2 = Inr n"
    by (auto elim: decodes_snocE)
  with snoc.IH [of ns r2] snoc.hyps snoc.prems(2) show ?case by (auto simp: ms')
qed

lemma decodes_prefix:
  "decodes B bs ms r \<Longrightarrow> n \<le> length ms \<Longrightarrow> \<exists>r'. decodes B bs (take n ms) r'"
proof (induction arbitrary: n rule: decodes.induct)
  case (none bs)
  then show ?case by (auto intro: decodes.none)
next
  case (snoc bs ms rest h frame rest' m)
  show ?case
  proof (cases "n \<le> length ms")
    case False
    with snoc.prems have "take n (ms @ [m]) = ms @ [m]" by simp
    with snoc.hyps show ?thesis by (metis decodes.snoc)
  qed (use snoc in auto)
qed

lemma decodes_comparable:
  assumes "decodes B bs ms r" "decodes B bs ms' r'" "length ms \<le> length ms'"
  shows "prefix ms ms'"
proof -
  obtain r2 where "decodes B bs (take (length ms) ms') r2"
    using decodes_prefix [OF assms(2,3)] by blast
  with assms(1,3) have "ms = take (length ms) ms'" by (auto dest: decodes_same_length)
  then show ?thesis by (metis take_is_prefix)
qed

section \<open>The decoder implements the specification\<close>

definition decoder_inv :: "bson_crate \<Rightarrow> decoder_run \<Rightarrow> bool" where
  "decoder_inv B s \<longleftrightarrow>
     decodes B (dr_input s) (dr_output s) (dr_buf s) \<and>
     (\<forall>h. next_header (dr_decoder s) = Some h \<longrightarrow> MessageHeader_from_bytes (dr_buf s) = Inr h)"

definition decoder_ok :: "WireDecoder \<Rightarrow> byte list \<Rightarrow> bool" where
  "decoder_ok d buf \<longleftrightarrow> (\<forall>h. next_header d = Some h \<longrightarrow> MessageHeader_from_bytes buf = Inr h)"

lemma peek_header_Inr:
  assumes "decoder_ok d buf" "peek_header d buf = Inr d'"
  shows "next_header d' = (case MessageHeader_from_bytes buf of Inl _ \<Rightarrow> None | Inr h \<Rightarrow> Some h)"
  using assms
  by (cases d) (auto simp: peek_header_def decoder_ok_def
      split: option.splits sum.splits MessageHeaderParseError.splits)

lemma decode_None:
  assumes "decoder_ok d buf" "WireDecoder_decode B d buf = (Inr None, d', buf')"
  shows "buf' = buf" "decoder_ok d' buf" "split_frame buf = None"
  using assms peek_header_Inr [OF assms(1)]
  by (fastforce simp: WireDecoder_decode_def decoder_ok_def split_frame_def Let_def result_simps
      split: sum.splits option.splits if_splits)+

lemma decode_Some:
  assumes "decoder_ok d buf" "WireDecoder_decode B d buf = (Inr (Some m), d', buf')"
  shows "next_header d' = None"
    and "\<exists>h frame. split_frame buf = Some (h, frame, buf') \<and>
           Message_from_headers_and_bytes B h frame = Inr m"
  using assms peek_header_Inr [OF assms(1)]
  by (fastforce simp: WireDecoder_decode_def split_frame_def Let_def result_simps
      split: sum.splits option.splits if_splits)+

lemma decode_split_frame:
  assumes "decoder_ok d buf" "split_frame buf = Some (h, frame, rest)"
  shows "fst (WireDecoder_decode B d buf) \<noteq> Inr None"
proof
  assume "fst (WireDecoder_decode B d buf) = Inr None"
  then obtain d' buf' where "WireDecoder_decode B d buf = (Inr None, d', buf')"
    by (metis prod.collapse)
  with assms decode_None(3) show False by fastforce
qed

lemma decoder_inv_start: "decoder_inv B decoder_start"
  by (auto simp: decoder_inv_def decoder_start_def WireDecoder_default_def intro: decodes.none)

lemma decoder_step_inv: "decoder_step B s t \<Longrightarrow> decoder_inv B s \<Longrightarrow> decoder_inv B t"
proof (induction rule: decoder_step.induct)
  case (received s bs)
  then show ?case
    using header_from_bytes_prefix header_from_bytes_length
    by (auto simp: decoder_inv_def intro: decodes_append)
next
  case (polled_none s d buf)
  then show ?case
    using decode_None [of "dr_decoder s" "dr_buf s" B d buf]
    by (auto simp: decoder_inv_def decoder_ok_def)
next
  case (polled_some s m d buf)
  then show ?case
    using decode_Some [of "dr_decoder s" "dr_buf s" B m d buf]
    by (auto simp: decoder_inv_def decoder_ok_def intro: decodes.snoc)
qed

lemma decoder_reachable_inv: "decoder_reachable B s \<Longrightarrow> decoder_inv B s"
  by (induction rule: decoder_reachable.induct)
    (auto intro: decoder_inv_start decoder_step_inv)

lemma decoder_inv_ok: "decoder_inv B s \<Longrightarrow> decoder_ok (dr_decoder s) (dr_buf s)"
  by (simp add: decoder_inv_def decoder_ok_def)

lemma decoder_idle_split: "decoder_inv B s \<Longrightarrow> decoder_idle B s \<Longrightarrow> split_frame (dr_buf s) = None"
  using decode_split_frame [OF decoder_inv_ok] by (cases "split_frame (dr_buf s)") (auto simp: decoder_idle_def)

text \<open>A decoding that stops where no frame is complete is the longest one; an idle
  decoder is at such a point.\<close>

lemma decodes_maximal:
  assumes "decodes B bs out r" "split_frame r = None" "decodes B bs ms r'"
  shows "prefix ms out"
proof (cases "length ms \<le> length out")
  case True
  with assms show ?thesis by (auto intro: decodes_comparable)
next
  case False
  then obtain r2 where d: "decodes B bs (take (Suc (length out)) ms) r2"
    using decodes_prefix [OF assms(3), of "Suc (length out)"] by auto
  from False have "take (Suc (length out)) ms = take (length out) ms @ [ms ! length out]"
    by (simp add: take_Suc_conv_app_nth)
  with d obtain r3 h frame where d3: "decodes B bs (take (length out) ms) r3"
    and f: "split_frame r3 = Some (h, frame, r2)"
    by (auto elim: decodes_snocE)
  have "r3 = r" using assms(1) d3 False by (auto dest: decodes_same_length)
  with f assms(2) show ?thesis by simp
qed

lemma decoder_idle_maximal:
  assumes "decoder_inv B s" "decoder_idle B s" "decodes B (dr_input s) ms r"
  shows "prefix ms (dr_output s)"
  using decodes_maximal [OF _ decoder_idle_split [OF assms(1,2)] assms(3)] assms(1)
  by (auto simp: decoder_inv_def)

text \<open>A sequence of encoded messages decodes to its messages.\<close>

lemma split_frame_message:
  assumes "message_frame B m frame" "wf_Operation (msg_operation m)"
  shows "\<exists>h. split_frame (frame @ rest) = Some (h, frame, rest) \<and>
           Message_from_headers_and_bytes B h frame = Inr (norm_Message m)"
proof -
  from message_frame_header [OF assms(1), of rest] assms(2) obtain h where
    "MessageHeader_from_bytes (frame @ rest) = Inr h"
    "MessageLength_as_usize (mh_message_length h) = length frame"
    "Message_from_headers_and_bytes B h frame = Inr (norm_Message m)"
    by metis
  then show ?thesis by (simp add: split_frame_def)
qed

lemma decodes_frames:
  "list_all2 (message_frame B) ms frames \<Longrightarrow> list_all (\<lambda>m. wf_Operation (msg_operation m)) ms \<Longrightarrow>
   decodes B (concat frames @ rest) (map norm_Message ms) rest"
proof (induction ms arbitrary: frames rest rule: rev_induct)
  case Nil
  then show ?case by (auto intro: decodes.none)
next
  case (snoc m ms)
  then obtain fs f where frames: "frames = fs @ [f]" and fs: "list_all2 (message_frame B) ms fs"
    and f: "message_frame B m f"
    by (auto simp: list_all2_append1 list_all2_Cons1)
  from snoc.IH [OF fs, of "f @ rest"] snoc.prems
  have "decodes B (concat fs @ f @ rest) (map norm_Message ms) (f @ rest)" by simp
  with split_frame_message [OF f, of rest] snoc.prems show ?case
    by (auto simp: frames intro: decodes.snoc)
qed

section \<open>Driving the decoder\<close>

text \<open>The framing layer appends a chunk to the buffer and polls until the decoder has
  nothing more or fails. A poll that yields a message consumes a whole frame, so one
  poll more than there are bytes in the buffer is always enough.\<close>

definition receive :: "byte list \<Rightarrow> decoder_run \<Rightarrow> decoder_run" where
  "receive bs s = s\<lparr>dr_buf := dr_buf s @ bs, dr_input := dr_input s @ bs\<rparr>"

fun polls :: "bson_crate \<Rightarrow> nat \<Rightarrow> decoder_run \<Rightarrow> decoder_run" where
  "polls B 0 s = s"
| "polls B (Suc n) s =
     (case WireDecoder_decode B (dr_decoder s) (dr_buf s) of
        (Inl e, _) \<Rightarrow> s
      | (Inr None, d, buf) \<Rightarrow> s\<lparr>dr_decoder := d, dr_buf := buf\<rparr>
      | (Inr (Some m), d, buf) \<Rightarrow>
          polls B n (s\<lparr>dr_decoder := d, dr_buf := buf, dr_output := dr_output s @ [m]\<rparr>))"

definition poll_all :: "bson_crate \<Rightarrow> decoder_run \<Rightarrow> decoder_run" where
  "poll_all B s = polls B (Suc (length (dr_buf s))) s"

definition decode_chunks :: "bson_crate \<Rightarrow> byte list list \<Rightarrow> decoder_run" where
  "decode_chunks B chunks = fold (\<lambda>c s. poll_all B (receive c s)) chunks decoder_start"

lemma receive_reachable: "decoder_reachable B s \<Longrightarrow> decoder_reachable B (receive bs s)"
  unfolding receive_def by (blast intro: decoder_reachable.step decoder_step.received)

lemma polls_reachable:
  "decoder_reachable B s \<Longrightarrow>
   decoder_reachable B (polls B n s) \<and> dr_input (polls B n s) = dr_input s"
proof (induction n arbitrary: s)
  case (Suc n)
  obtain r d buf where dec: "WireDecoder_decode B (dr_decoder s) (dr_buf s) = (r, d, buf)"
    by (cases "WireDecoder_decode B (dr_decoder s) (dr_buf s)")
  show ?case
  proof (cases r)
    case (Inr mo)
    show ?thesis
    proof (cases mo)
      case None
      with Inr dec Suc.prems show ?thesis
        by (auto intro: decoder_reachable.step decoder_step.polled_none)
    next
      case (Some m)
      with Inr dec Suc.prems
      have "decoder_reachable B (s\<lparr>dr_decoder := d, dr_buf := buf, dr_output := dr_output s @ [m]\<rparr>)"
        by (blast intro: decoder_reachable.step decoder_step.polled_some)
      from Suc.IH [OF this] Some Inr dec show ?thesis by simp
    qed
  qed (use dec Suc.prems in simp)
qed simp

lemma split_frame_shorter: "split_frame bs = Some (h, frame, rest) \<Longrightarrow> length rest < length bs"
proof -
  assume a: "split_frame bs = Some (h, frame, rest)"
  then have h: "MessageHeader_from_bytes bs = Inr h"
    by (auto simp: split_frame_def Let_def split: sum.splits if_splits)
  from header_from_bytes_wf [OF h] have "16 \<le> MessageLength_as_usize (mh_message_length h)"
    using MessageLength_as_usize_bounds by (auto simp: wf_header_def)
  with a h show ?thesis by (auto simp: split_frame_def Let_def split: if_splits)
qed

text \<open>Enough polls end with an idle decoder or at a decoding error.\<close>

lemma polls_settled:
  "decoder_inv B s \<Longrightarrow> length (dr_buf s) < n \<Longrightarrow>
   decoder_idle B (polls B n s) \<or>
   (\<exists>e. fst (WireDecoder_decode B (dr_decoder (polls B n s)) (dr_buf (polls B n s))) = Inl e)"
proof (induction n arbitrary: s)
  case (Suc n)
  note ok = decoder_inv_ok [OF Suc.prems(1)]
  obtain r d buf where dec: "WireDecoder_decode B (dr_decoder s) (dr_buf s) = (r, d, buf)"
    by (cases "WireDecoder_decode B (dr_decoder s) (dr_buf s)")
  consider e where "r = Inl e" | "r = Inr None" | m where "r = Inr (Some m)"
    by (metis obj_sumE not_Some_eq)
  then show ?case
  proof cases
    case 1
    with dec show ?thesis by simp
  next
    case 2
    with dec decode_None [OF ok] have "buf = dr_buf s" "decoder_ok d (dr_buf s)"
      "split_frame (dr_buf s) = None" by blast+
    moreover have "WireDecoder_decode B d (dr_buf s) = (Inr None, d, dr_buf s)"
      using 2 dec \<open>buf = dr_buf s\<close>
      by (auto simp: WireDecoder_decode_def peek_header_def Let_def result_simps
          split: sum.splits option.splits if_splits MessageHeaderParseError.splits)
    ultimately show ?thesis using dec 2 by (simp add: decoder_idle_def)
  next
    case 3
    let ?t = "s\<lparr>dr_decoder := d, dr_buf := buf, dr_output := dr_output s @ [m]\<rparr>"
    have "length buf < length (dr_buf s)"
      using decode_Some(2) [OF ok] dec 3 split_frame_shorter by blast
    moreover have "decoder_inv B ?t"
      using decoder_step_inv [OF decoder_step.polled_some Suc.prems(1)] dec 3 by blast
    ultimately show ?thesis using Suc.IH [of ?t] Suc.prems(2) dec 3 by simp
  qed
qed simp

text \<open>On a prefix of a stream of frames the decoder never fails.\<close>

lemma decode_no_error:
  assumes inv: "decoder_inv B s" and bs: "dr_input s @ more_bytes = concat frames"
    and frames: "list_all2 (message_frame B) ms frames"
    and wf: "list_all (\<lambda>m. wf_Operation (msg_operation m)) ms"
  shows "fst (WireDecoder_decode B (dr_decoder s) (dr_buf s)) \<noteq> Inl e"
proof -
  note ok = decoder_inv_ok [OF inv]
  let ?k = "length (dr_output s)"
  have d: "decodes B (concat frames) (dr_output s) (dr_buf s @ more_bytes)"
    using inv decodes_append [of B "dr_input s"] by (simp add: decoder_inv_def flip: bs)
  have "decodes B (concat frames) (map norm_Message ms) []"
    using decodes_frames [OF frames wf, of "[]"] by simp
  moreover have "split_frame [] = None"
    by (simp add: split_frame_def MessageHeader_from_bytes_def MessageHeader_size_def)
  ultimately have "prefix (dr_output s) (map norm_Message ms)"
    using d by (blast intro: decodes_maximal)
  then have out: "dr_output s = map norm_Message (take ?k ms)"
    by (auto simp: prefix_def take_map [symmetric])
  then have k: "?k \<le> length ms"
    by (metis length_map length_take min.cobounded1)
  have "decodes B (concat (take ?k frames) @ concat (drop ?k frames))
      (map norm_Message (take ?k ms)) (concat (drop ?k frames))"
    using frames wf by (intro decodes_frames) (auto intro: list_all2_takeI simp: list_all_iff dest: in_set_takeD)
  then have "decodes B (concat frames) (dr_output s) (concat (drop ?k frames))"
    by (simp flip: concat_append out)
  with d have buf: "dr_buf s @ more_bytes = concat (drop ?k frames)"
    by (auto dest: decodes_same_length)
  show ?thesis
  proof (cases "MessageHeader_size \<le> length (dr_buf s)")
    case False
    then show ?thesis using ok
      by (auto simp: WireDecoder_decode_def peek_header_def decoder_ok_def Let_def
          MessageHeader_from_bytes_def split: option.splits)
  next
    case True
    then have "drop ?k frames \<noteq> []" using buf by (auto simp: MessageHeader_size_def)
    then have lt: "?k < length frames" by auto
    then have dr: "drop ?k frames = frames ! ?k # drop (Suc ?k) frames"
      by (simp add: Cons_nth_drop_Suc)
    have "message_frame B (ms ! ?k) (frames ! ?k)" "wf_Operation (msg_operation (ms ! ?k))"
      using frames wf lt by (auto simp: list_all2_conv_all_nth list_all_length)
    then obtain h where h: "MessageHeader_from_bytes (frames ! ?k @ concat (drop (Suc ?k) frames)) = Inr h"
      and len: "MessageLength_as_usize (mh_message_length h) = length (frames ! ?k)"
      and p: "Message_from_headers_and_bytes B h (frames ! ?k) = Inr (norm_Message (ms ! ?k))"
      using message_frame_header by metis
    have hb: "MessageHeader_from_bytes (dr_buf s) = Inr h"
      using h buf header_from_bytes_prefix [OF True, of more_bytes] by (simp add: dr)
    have "take (length (frames ! ?k)) (dr_buf s) = frames ! ?k"
      if "length (frames ! ?k) \<le> length (dr_buf s)"
      using that arg_cong [OF buf, of "take (length (frames ! ?k))"] by (simp add: dr)
    then show ?thesis using hb ok p len
      by (auto simp: WireDecoder_decode_def peek_header_def decoder_ok_def Let_def
          split: option.splits)
  qed
qed

lemma poll_all_frames:
  assumes "decoder_reachable B s" "dr_input s @ more_bytes = concat frames"
    and "list_all2 (message_frame B) ms frames" "list_all (\<lambda>m. wf_Operation (msg_operation m)) ms"
  shows "decoder_idle B (poll_all B s)"
  using polls_settled [OF decoder_reachable_inv [OF assms(1)], of "Suc (length (dr_buf s))"]
    decode_no_error [OF decoder_reachable_inv _ assms(3,4)] polls_reachable [OF assms(1)] assms(2)
  by (metis lessI poll_all_def)

lemma decode_chunks_reachable:
  "decoder_reachable B (decode_chunks B chunks) \<and> dr_input (decode_chunks B chunks) = concat chunks"
proof (induction chunks rule: rev_induct)
  case Nil
  show ?case by (simp add: decode_chunks_def decoder_reachable.start) (simp add: decoder_start_def)
next
  case (snoc c chunks)
  let ?s = "receive c (decode_chunks B chunks)"
  have s: "decoder_reachable B ?s" "dr_input ?s = concat chunks @ c"
    using snoc by (auto simp: receive_reachable) (simp add: receive_def)
  then show ?case
    using polls_reachable [OF s(1)] by (simp add: decode_chunks_def poll_all_def del: polls.simps)
qed

lemma decode_chunks_frames:
  assumes "concat chunks @ more_bytes = concat frames"
    and "list_all2 (message_frame B) ms frames" "list_all (\<lambda>m. wf_Operation (msg_operation m)) ms"
  shows "decoder_idle B (decode_chunks B chunks)"
proof (cases chunks rule: rev_cases)
  case Nil
  then show ?thesis
    by (simp add: decode_chunks_def decoder_idle_def decoder_start_def WireDecoder_decode_def
        peek_header_def WireDecoder_default_def MessageHeader_from_bytes_def MessageHeader_size_def)
next
  case (snoc cs c)
  let ?s = "receive c (decode_chunks B cs)"
  have "decoder_reachable B ?s" "dr_input ?s = concat chunks"
    using decode_chunks_reachable [of B cs] by (auto simp: receive_reachable) (simp add: receive_def snoc)
  then show ?thesis
    using poll_all_frames [of B ?s more_bytes frames ms] assms by (simp add: decode_chunks_def snoc)
qed

end
