(* ===== verification/BsonRef.thy ===== *)
theory BsonRef
  imports Bson
begin

text \<open>
  An executable codec after the BSON specification, version 1.1: it instantiates the
  crate parameter, so that the laws the development assumes of the crate are shown to
  be satisfiable by the real wire format, and witnesses can be evaluated. Binary values and
  element types with a fixed-width payload are covered besides the structured ones; writing
  another one fails.
\<close>

section \<open>Encoding\<close>

fun nat_digits :: "nat \<Rightarrow> string" where
  "nat_digits n =
     (if n < 10 then [char_of (48 + n)] else nat_digits (n div 10) @ [char_of (48 + n mod 10)])"

declare nat_digits.simps [simp del]

fun index_entries :: "nat \<Rightarrow> bson list \<Rightarrow> document" where
  "index_entries i [] = []"
| "index_entries i (v # vs) = (nat_digits i, v) # index_entries (Suc i) vs"

text \<open>How many bytes the payload at the head of \<open>bs\<close> takes; a binary value is its length, its
  subtype and its bytes.\<close>

definition scalar_width :: "element_type \<Rightarrow> byte list \<Rightarrow> nat option" where
  "scalar_width t bs =
     (if t = 0x05 then
        (if length bs < 5 then None
         else
           let n = sint (i32_from_le_bytes (take 4 bs)) in
           if n < 0 then None else Some (nat n + 5))
      else if t = 0x07 then Some 12
      else if t = 0x09 \<or> t = 0x11 then Some 8
      else if t = 0x13 then Some 16
      else if t = 0x06 \<or> t = 0x7F \<or> t = 0xFF then Some 0
      else None)"

definition length_prefixed :: "nat \<Rightarrow> byte list \<Rightarrow> byte list option" where
  "length_prefixed n bs =
     (case i32_try_from n of None \<Rightarrow> None | Some w \<Rightarrow> Some (i32_to_le_bytes w @ bs))"

definition enc_string :: "string \<Rightarrow> byte list option" where
  "enc_string s = length_prefixed (length s + 1) (bytes_of_string s @ [0])"

definition wrap_doc :: "byte list option \<Rightarrow> byte list option" where
  "wrap_doc es =
     (case es of None \<Rightarrow> None | Some bs \<Rightarrow> length_prefixed (length bs + 5) (bs @ [0]))"

lemma size_entries_le: "size_list (\<lambda>e. size (snd e)) es \<le> size_list (size_prod f size) es"
  by (induction es) auto

lemma size_index_entries: "size_list (\<lambda>e. size (snd e)) (index_entries i vs) = size_list size vs"
  by (induction vs arbitrary: i) auto

function (sequential) enc_bson :: "bson \<Rightarrow> byte list option"
  and enc_elems :: "document \<Rightarrow> byte list option" where
  "enc_bson (Double w) = Some (le_bytes 8 w)"
| "enc_bson (String s) = enc_string s"
| "enc_bson (Document es) = wrap_doc (enc_elems es)"
| "enc_bson (Array vs) = wrap_doc (enc_elems (index_entries 0 vs))"
| "enc_bson (Boolean b) = Some [if b then 1 else 0]"
| "enc_bson Null = Some []"
| "enc_bson (Int32 w) = Some (le_bytes 4 w)"
| "enc_bson (Int64 w) = Some (le_bytes 8 w)"
| "enc_bson (JavaScriptCodeWithScope code scope) =
     (case (enc_string code, wrap_doc (enc_elems scope)) of
        (Some c, Some d) \<Rightarrow> length_prefixed (4 + length c + length d) (c @ d)
      | _ \<Rightarrow> None)"
| "enc_bson (Scalar t payload) =
     (if scalar_width t payload = Some (length payload) then Some payload else None)"
| "enc_elems [] = Some []"
| "enc_elems ((k, v) # es) =
     (case (cstring_new k, enc_bson v, enc_elems es) of
        (Some kb, Some vb, Some rest) \<Rightarrow> Some (bson_element_type v # kb @ vb @ rest)
      | _ \<Rightarrow> None)"
  by pat_completeness auto

termination
  by (relation "measure (case_sum size (size_list (\<lambda>e. size (snd e))))")
    (auto simp: size_index_entries less_Suc_eq_le intro: size_entries_le)

section \<open>Decoding\<close>

definition dec_string :: "byte list \<Rightarrow> (string \<times> byte list) option" where
  "dec_string bs =
     (if length bs < 4 then None
      else
        let n = nat (sint (i32_from_le_bytes (take 4 bs))); r = drop 4 bs in
        if n = 0 \<or> length r < n \<or> r ! (n - 1) \<noteq> 0 then None
        else Some (string_of_bytes (take (n - 1) r), drop n r))"

definition dec_doc ::
  "(byte list \<Rightarrow> (document \<times> byte list) option) \<Rightarrow> byte list \<Rightarrow> (document \<times> byte list) option" where
  "dec_doc elems bs =
     (if length bs < 4 then None
      else
        case elems (drop 4 bs) of
          None \<Rightarrow> None
        | Some (es, rest) \<Rightarrow>
            if length rest < length bs \<and>
               sint (i32_from_le_bytes (take 4 bs)) = int (length bs - length rest)
            then Some (es, rest) else None)"

definition dec_fixed :: "nat \<Rightarrow> (byte list \<Rightarrow> bson) \<Rightarrow> byte list \<Rightarrow> (bson \<times> byte list) option" where
  "dec_fixed n f bs = (if length bs < n then None else Some (f (take n bs), drop n bs))"

definition dec_value ::
  "(byte list \<Rightarrow> (document \<times> byte list) option) \<Rightarrow> element_type \<Rightarrow> byte list
   \<Rightarrow> (bson \<times> byte list) option" where
  "dec_value elems t bs =
     (if t = 0x01 then dec_fixed 8 (\<lambda>b. Double (of_le_bytes b)) bs
      else if t = 0x02 then map_option (map_prod String id) (dec_string bs)
      else if t = 0x03 then map_option (map_prod Document id) (dec_doc elems bs)
      else if t = 0x04 then map_option (map_prod (\<lambda>es. Array (map snd es)) id) (dec_doc elems bs)
      else if t = 0x08 then dec_fixed 1 (\<lambda>b. Boolean (b = [1])) bs
      else if t = 0x0A then Some (Null, bs)
      else if t = 0x0F then
        (if length bs < 4 then None
         else case dec_string (drop 4 bs) of
             None \<Rightarrow> None
           | Some (code, r) \<Rightarrow>
               map_option (map_prod (JavaScriptCodeWithScope code) id) (dec_doc elems r))
      else if t = 0x10 then dec_fixed 4 (\<lambda>b. Int32 (of_le_bytes b)) bs
      else if t = 0x12 then dec_fixed 8 (\<lambda>b. Int64 (of_le_bytes b)) bs
      else case scalar_width t bs of None \<Rightarrow> None | Some n \<Rightarrow> dec_fixed n (Scalar t) bs)"

text \<open>Every element takes at least two bytes, so the length of the input is enough fuel.\<close>

fun dec_elems :: "nat \<Rightarrow> byte list \<Rightarrow> (document \<times> byte list) option" where
  "dec_elems 0 bs = None"
| "dec_elems (Suc fuel) [] = None"
| "dec_elems (Suc fuel) (t # bs) =
     (if t = 0 then Some ([], bs)
      else
        case until_nul bs of
          None \<Rightarrow> None
        | Some k \<Rightarrow>
            case dec_value (dec_elems fuel) t (drop (length k + 1) bs) of
              None \<Rightarrow> None
            | Some (v, rest) \<Rightarrow>
                case dec_elems fuel rest of
                  None \<Rightarrow> None
                | Some (es, rest) \<Rightarrow> Some ((string_of_bytes k, v) # es, rest))"

definition reference_bson :: bson_crate where
  "reference_bson =
     \<lparr>from_reader = (\<lambda>bs.
        case dec_doc (dec_elems (length bs)) bs of
          None \<Rightarrow> Inl ''malformed document''
        | Some (d, rest) \<Rightarrow> Inr (d, length bs - length rest - 4)),
      to_writer = (\<lambda>d.
        case wrap_doc (enc_elems d) of
          None \<Rightarrow> Inl ''cannot serialize''
        | Some bs \<Rightarrow> Inr bs),
      doc_insert = (\<lambda>d k v.
        if k \<in> set (doc_keys d) then map (\<lambda>(k', v'). if k' = k then (k, v) else (k', v')) d
        else d @ [(k, v)]),
      doc_remove = (\<lambda>d k. filter (\<lambda>(k', _). k' \<noteq> k) d)\<rparr>"

section \<open>The laws\<close>

lemma length_prefixed_Some:
  assumes "length_prefixed n bs = Some out"
  obtains w where "out = i32_to_le_bytes w @ bs" "sint w = int n"
  using assms by (auto simp: length_prefixed_def split: option.splits dest: i32_try_from_Some)

lemma dec_string_enc:
  assumes "enc_string s = Some bs"
  shows "dec_string (bs @ rest) = Some (s, rest)"
proof -
  from assms obtain w where w: "bs = i32_to_le_bytes w @ bytes_of_string s @ [0]"
    "sint w = int (length s + 1)"
    by (auto simp: enc_string_def elim: length_prefixed_Some)
  then have n: "nat (sint w) = Suc (length s)" by simp
  have "(bytes_of_string s @ 0 # rest) ! length s = 0"
    using nth_append_length [of "bytes_of_string s" 0 rest] by simp
  then show ?thesis by (simp add: w(1) n dec_string_def)
qed

lemma dec_doc_wrap:
  assumes "wrap_doc (Some es) = Some bs"
    and "elems (es @ 0 # rest) = Some (d, rest)"
  shows "dec_doc elems (bs @ rest) = Some (d, rest)"
  using assms by (auto simp: wrap_doc_def dec_doc_def elim!: length_prefixed_Some)

lemma scalar_width_types:
  "scalar_width t bs = Some n \<Longrightarrow>
   t \<notin> {0x01, 0x02, 0x03, 0x04, 0x08, 0x0A, 0x0F, 0x10, 0x12, 0x00}"
  by (auto simp: scalar_width_def split: if_splits)

lemma scalar_width_append:
  "scalar_width t bs = Some (length bs) \<Longrightarrow> scalar_width t (bs @ rest) = Some (length bs)"
  by (auto simp: scalar_width_def Let_def split: if_splits)

lemma map_snd_index_entries [simp]: "map snd (index_entries i vs) = vs"
  by (induction vs arbitrary: i) auto

lemma wrap_doc_Some:
  "wrap_doc x = Some bs \<Longrightarrow> \<exists>es. x = Some es \<and> length bs = length es + 5"
  by (auto simp: wrap_doc_def split: option.splits elim!: length_prefixed_Some)

lemma dec_value_enc:
  assumes elems: "\<And>es bs rest. enc_elems es = Some bs \<Longrightarrow> length bs < fuel \<Longrightarrow>
      elems (bs @ 0 # rest) = Some (es, rest)"
    and enc: "enc_bson v = Some vb" and fuel: "length vb < fuel + 5"
  shows "dec_value elems (bson_element_type v) (vb @ rest) = Some (v, rest)"
proof (cases v)
  case (Document es)
  with enc wrap_doc_Some [of "enc_elems es" vb]
  obtain b where b: "enc_elems es = Some b" "length vb = length b + 5" by auto
  with elems [OF b(1)] fuel have "elems (b @ 0 # rest) = Some (es, rest)" by simp
  with enc b show ?thesis by (simp add: Document dec_value_def dec_doc_wrap)
next
  case (Array vs)
  with enc wrap_doc_Some [of "enc_elems (index_entries 0 vs)" vb]
  obtain b where b: "enc_elems (index_entries 0 vs) = Some b" "length vb = length b + 5" by auto
  with elems [OF b(1)] fuel have "elems (b @ 0 # rest) = Some (index_entries 0 vs, rest)" by simp
  with enc b show ?thesis by (simp add: Array dec_value_def dec_doc_wrap)
next
  case (JavaScriptCodeWithScope code scope)
  with enc obtain c d where c: "enc_string code = Some c"
    and d0: "wrap_doc (enc_elems scope) = Some d"
    and vb: "length_prefixed (4 + length c + length d) (c @ d) = Some vb"
    by (auto split: option.splits)
  from wrap_doc_Some [OF d0] d0 obtain b where b: "enc_elems scope = Some b" "length d = length b + 5"
    and d: "wrap_doc (Some b) = Some d"
    by auto
  from vb have "length d < length vb" by (auto elim!: length_prefixed_Some)
  with elems [OF b(1)] b(2) fuel have "elems (b @ 0 # rest) = Some (scope, rest)" by simp
  with d have "dec_doc elems (d @ rest) = Some (scope, rest)" by (rule dec_doc_wrap)
  with vb dec_string_enc [OF c, of "d @ rest"] show ?thesis
    by (auto simp: JavaScriptCodeWithScope dec_value_def elim!: length_prefixed_Some)
next
  case (Scalar t payload)
  with enc show ?thesis
    using scalar_width_types [of t payload "length payload"]
    by (auto simp: dec_value_def dec_fixed_def scalar_width_append split: if_splits)
next
  case (String s)
  with enc dec_string_enc [of s vb rest] show ?thesis by (simp add: dec_value_def)
qed (use enc in \<open>auto simp: dec_value_def dec_fixed_def split: if_splits\<close>)

lemma element_type_not_0: "enc_bson v = Some vb \<Longrightarrow> bson_element_type v \<noteq> 0"
  using scalar_width_types by (cases v) (auto split: if_splits)

lemma dec_elems_enc:
  "enc_elems es = Some bs \<Longrightarrow> length bs < fuel \<Longrightarrow> dec_elems fuel (bs @ 0 # rest) = Some (es, rest)"
proof (induction fuel arbitrary: es bs rest)
  case (Suc fuel)
  show ?case
  proof (cases es)
    case Nil
    with Suc.prems show ?thesis by simp
  next
    case (Cons e es')
    obtain k v where e: "e = (k, v)" by (cases e)
    with Suc.prems Cons obtain vb bs' where
        k: "0 \<notin> set (bytes_of_string k)" and v: "enc_bson v = Some vb"
        and es': "enc_elems es' = Some bs'"
        and bs: "bs = bson_element_type v # bytes_of_string k @ 0 # vb @ bs'"
      by (auto simp: cstring_new_Some split: option.splits)
    have "dec_value (dec_elems fuel) (bson_element_type v) (vb @ bs' @ 0 # rest) =
        Some (v, bs' @ 0 # rest)"
      using Suc.prems by (intro dec_value_enc [where fuel = fuel] Suc.IH v) (auto simp: bs)
    moreover have "dec_elems fuel (bs' @ 0 # rest) = Some (es', rest)"
      using Suc.prems by (intro Suc.IH es') (auto simp: bs)
    ultimately show ?thesis
      using k element_type_not_0 [OF v] by (simp add: bs Cons e)
  qed
qed simp

lemma dec_doc_shorter:
  assumes "\<And>bs d r. elems bs = Some (d, r) \<Longrightarrow> length r < length bs"
    and "dec_doc elems bs = Some (d, rest)"
  shows "4 + length rest \<le> length bs"
  using assms by (fastforce simp: dec_doc_def split: if_splits option.splits)

lemma dec_value_shorter:
  assumes "\<And>bs d r. elems bs = Some (d, r) \<Longrightarrow> length r < length bs"
    and "dec_value elems t bs = Some (v, rest)"
  shows "length rest \<le> length bs"
  using assms(2) dec_doc_shorter [OF assms(1)]
  by (fastforce simp: dec_value_def dec_fixed_def dec_string_def Let_def
      split: if_splits option.splits)

lemma dec_elems_shorter: "dec_elems fuel bs = Some (d, rest) \<Longrightarrow> length rest < length bs"
proof (induction fuel arbitrary: bs d rest)
  case (Suc fuel)
  then obtain t bs' where bs: "bs = t # bs'" by (cases bs) auto
  show ?case
  proof (cases "t = 0")
    case True
    with Suc.prems show ?thesis by (simp add: bs)
  next
    case False
    with Suc.prems obtain k :: "byte list" and v r es where
        v: "dec_value (dec_elems fuel) t (drop (length k + 1) bs') = Some (v, r)"
        and es: "dec_elems fuel r = Some (es, rest)"
      by (auto simp: bs split: option.splits)
    have "length r \<le> length (drop (length k + 1) bs')"
      by (rule dec_value_shorter [OF _ v]) (rule Suc.IH)
    with Suc.IH [OF es] show ?thesis by (simp add: bs)
  qed
qed simp

lemma doc_get_update:
  "doc_get (map (\<lambda>(k', v'). if k' = k then (k, v) else (k', v')) d) =
   (if k \<in> set (doc_keys d) then (doc_get d)(k \<mapsto> v) else doc_get d)"
  by (induction d) (auto simp: doc_get_def doc_keys_def fun_eq_iff)

lemma doc_get_append_new:
  "k \<notin> set (doc_keys d) \<Longrightarrow> doc_get (d @ [(k, v)]) = (doc_get d)(k \<mapsto> v)"
  by (induction d) (auto simp: doc_get_def doc_keys_def fun_eq_iff)

lemma doc_get_filter:
  "doc_get (filter (\<lambda>(k', _). k' \<noteq> k) d) = (doc_get d)(k := None)"
  by (induction d) (auto simp: doc_get_def fun_eq_iff)

interpretation ref: bson_library reference_bson
proof unfold_locales
  fix d bs rest
  assume w: "to_writer reference_bson d = Inr bs"
  then have "wrap_doc (enc_elems d) = Some bs"
    by (simp add: reference_bson_def split: option.splits)
  with wrap_doc_Some [OF this] obtain es where es: "enc_elems d = Some es"
    "wrap_doc (Some es) = Some bs" "length bs = length es + 5"
    by auto
  then show "5 \<le> length bs" by simp
  have "dec_elems (length (bs @ rest)) (es @ 0 # rest) = Some (d, rest)"
    using es by (intro dec_elems_enc) auto
  from dec_doc_wrap [of es bs "dec_elems (length (bs @ rest))", OF es(2) this]
  show "from_reader reference_bson (bs @ rest) = Inr (d, length bs - 4)"
    by (simp add: reference_bson_def)
next
  fix bs d n
  assume "from_reader reference_bson bs = Inr (d, n)"
  then show "4 + n \<le> length bs"
    using dec_doc_shorter [of "dec_elems (length bs)" bs d, OF dec_elems_shorter]
    by (fastforce simp: reference_bson_def split: option.splits)
next
  fix d k v
  show "doc_get (doc_insert reference_bson d k v) = (doc_get d)(k \<mapsto> v)"
    by (simp add: reference_bson_def doc_get_update doc_get_append_new)
  show "doc_keys (doc_insert reference_bson d k v) =
      (if k \<in> set (doc_keys d) then doc_keys d else doc_keys d @ [k])"
    by (auto simp: reference_bson_def doc_keys_def)
  show "doc_get (doc_remove reference_bson d k) = (doc_get d)(k := None)"
    by (simp add: reference_bson_def doc_get_filter)
  assume "distinct (doc_keys d)"
  then show "distinct (doc_keys (doc_remove reference_bson d k))"
    by (simp add: reference_bson_def doc_keys_def distinct_map_filter)
qed

end
