(* ===== verification/Wire.thy ===== *)
theory Wire
  imports Decoder BsonRef
begin

text \<open>
  Correctness of the wire layer as a whole: what is encoded on one end of a connection is
  what the decoder on the other end yields, however the bytes are cut into chunks; a
  message that was parsed can be forwarded without change; failing operations leave
  buffers in a defined state; and the amount of buffered data is bounded.
\<close>

section \<open>Encoding a sequence of messages\<close>

text \<open>Successive calls of the encoder on one buffer, up to the first that fails.\<close>

fun encode_all ::
  "bson_crate \<Rightarrow> Message list \<Rightarrow> byte list \<Rightarrow> (WireEncoderError + unit) \<times> byte list" where
  "encode_all B [] dst = (Inr (), dst)"
| "encode_all B (m # ms) dst =
     (case WireEncoder_encode B m dst of
        (Inl e, dst) \<Rightarrow> (Inl e, dst)
      | (Inr _, dst) \<Rightarrow> encode_all B ms dst)"

context bson_codec
begin

lemma encode_all_frames:
  assumes "encode_all B ms dst = (Inr (), bs)" "list_all wf_Message ms"
  shows "\<exists>frames. bs = dst @ concat frames \<and> list_all2 (message_frame B) ms frames"
  using assms
proof (induction ms arbitrary: dst)
  case (Cons m ms)
  then obtain u dst' where e: "WireEncoder_encode B m dst = (Inr u, dst')"
    and r: "encode_all B ms dst' = (Inr (), bs)"
    by (auto split: prod.splits sum.splits)
  from encode_frame [OF e] Cons.prems(2) obtain frame where f: "dst' = dst @ frame"
    "message_frame B m frame"
    by (auto simp: wf_Message_def)
  from Cons.IH [OF r] Cons.prems(2) obtain frames where
    "bs = dst' @ concat frames" "list_all2 (message_frame B) ms frames" by auto
  with f show ?case by (intro exI [of _ "frame # frames"]) simp
qed simp

lemma decode_chunks_message_frames:
  assumes fr: "list_all2 (message_frame B) ms frames" and wfm: "list_all wf_Message ms"
    and c: "concat chunks = concat frames"
  shows "dr_output (decode_chunks B chunks) = map norm_Message ms \<and>
         dr_buf (decode_chunks B chunks) = []"
proof -
  let ?s = "decode_chunks B chunks"
  have wf: "list_all (\<lambda>m. wf_Operation (msg_operation m)) ms"
    using wfm by (simp add: wf_Message_def list_all_iff)
  have s: "decoder_reachable B ?s" "dr_input ?s = concat frames" "decoder_idle B ?s"
    using decode_chunks_frames [OF _ fr wf, of chunks "[]"] decode_chunks_reachable c by auto
  note inv = decoder_reachable_inv [OF s(1)]
  have d: "decodes B (dr_input ?s) (map norm_Message ms) []"
    using decodes_frames [OF fr wf, of "[]"] s(2) by simp
  have o: "decodes B (dr_input ?s) (dr_output ?s) (dr_buf ?s)"
    using inv by (simp add: decoder_inv_def)
  have "split_frame [] = None"
    by (simp add: split_frame_def MessageHeader_from_bytes_def MessageHeader_size_def)
  then have "dr_output ?s = map norm_Message ms"
    using decodes_maximal [OF d _ o] decoder_idle_maximal [OF inv s(3) d]
    by (blast intro: prefix_order.antisym)
  with d o show ?thesis by (auto dest: decodes_same_length)
qed

lemma decode_chunks_encoded:
  assumes "encode_all B ms [] = (Inr (), bs)" "list_all wf_Message ms" "concat chunks = bs"
  shows "dr_output (decode_chunks B chunks) = map norm_Message ms \<and>
         dr_buf (decode_chunks B chunks) = []"
  using encode_all_frames [OF assms(1,2)] decode_chunks_message_frames assms by auto

end

section \<open>A sample exchange\<close>

definition ping_frame :: "byte list" where
  "ping_frame =
     [36,0,0,0, 7,0,0,0, 0,0,0,0, 221,7,0,0, 0,0,0,0, 0, 15,0,0,0, 16,112,105,110,103,0, 1,0,0,0, 0]"

lemma ping_encoded: "WireEncoder_encode reference_bson ping_message [] = (Inr (), ping_frame)"
  by code_simp

lemma ping_written: "Message_write_bytes reference_bson ping_message [] = (Inr (), ping_frame)"
  by code_simp

lemma ping_wf: "wf_Message ping_message"
  by code_simp

lemma ping_parsed: "Message_from_bytes reference_bson ping_frame = Inr ping_message"
  by code_simp

lemma ping_norm: "norm_Message ping_message = ping_message"
  by code_simp

lemma reference_codec: "bson_codec reference_bson"
  by unfold_locales

lemma ping_run:
  "decoder_idle reference_bson (decode_chunks reference_bson [ping_frame])"
  "dr_output (decode_chunks reference_bson [ping_frame]) = [ping_message]"
  "dr_buf (decode_chunks reference_bson [ping_frame]) = []"
  by code_simp+

section \<open>Properties\<close>

text \<open>C5. End to end. Whatever well-formed messages the encoder has accepted, and however
  the resulting byte stream is cut into chunks on its way, the decoder on the other side
  yields exactly these messages, in order, and keeps no byte back.\<close>

theorem wire_stream_roundtrip:
  assumes "bson_codec B" "list_all wf_Message ms"
    and "encode_all B ms [] = (Inr (), bs)" "concat chunks = bs"
  shows "dr_output (decode_chunks B chunks) = map norm_Message ms \<and>
         dr_buf (decode_chunks B chunks) = []"
  using bson_codec.decode_chunks_encoded [OF assms(1,3,2,4)] .

theorem wire_stream_roundtrip_witness:
  "dr_output (decode_chunks reference_bson [take 10 ping_frame, drop 10 ping_frame @ ping_frame]) =
     [ping_message, ping_message] \<and>
   dr_buf (decode_chunks reference_bson [take 10 ping_frame, drop 10 ping_frame @ ping_frame]) = []"
proof -
  have "encode_all reference_bson [ping_message, ping_message] [] = (Inr (), ping_frame @ ping_frame)"
    by code_simp
  from wire_stream_roundtrip [OF reference_codec _ this,
      of "[take 10 ping_frame, drop 10 ping_frame @ ping_frame]"]
  show ?thesis by (simp add: ping_wf ping_norm)
qed

text \<open>C6. A message that was written parses back to itself; the only thing the writer
  changes is the checksum bit, which it derives from the presence of the checksum.\<close>

theorem message_roundtrip:
  assumes "bson_codec B" "wf_Message m" "Message_write_bytes B m [] = (Inr (), bs)"
  shows "Message_from_bytes B bs = Inr (norm_Message m)"
proof -
  from bson_codec.Message_write_frame [OF assms(1,3)] assms(2)
  have "message_frame B m bs" by (auto simp: wf_Message_def)
  then show ?thesis using assms(2) message_frame_from_bytes by (simp add: wf_Message_def)
qed

theorem message_roundtrip_witness:
  "Message_from_bytes reference_bson ping_frame = Inr ping_message"
  using message_roundtrip [OF reference_codec ping_wf ping_written] by (simp add: ping_norm)

text \<open>C7. Forwarding is transparent: a message that was parsed from the wire, whatever
  client produced it, and that can be written again is read by the next hop as the very
  same message, checksum flag included.\<close>

theorem forwarding_transparent:
  assumes "bson_codec B" "Message_from_bytes B bs = Inr m"
    and "Message_write_bytes B m [] = (Inr (), bs')"
  shows "Message_from_bytes B bs' = Inr m"
proof -
  have wf: "wf_Message m" "norm_Message m = m" using Message_from_bytes_wf [OF assms(2)] by auto
  from bson_codec.Message_write_frame [OF assms(1,3)] wf(1)
  have "message_frame B m bs'" by (auto simp: wf_Message_def)
  then show ?thesis using wf message_frame_from_bytes [of B m bs'] by (simp add: wf_Message_def)
qed

theorem forwarding_transparent_witness:
  "Message_from_bytes reference_bson ping_frame = Inr ping_message"
  by (rule forwarding_transparent [OF reference_codec ping_parsed ping_written])

text \<open>C8. The encoder is atomic: if it fails the destination buffer is unchanged, and if
  it succeeds it has appended one frame, of 16 bytes to 48 MiB, whose header declares
  exactly the size of the frame and carries the ids of the message.\<close>

theorem encode_atomic:
  assumes "bson_codec B" "wf_response_to (msg_response_to m)"
    and "WireEncoder_encode B m dst = (r, dst')"
  shows "case r of
      Inl e \<Rightarrow> dst' = dst
    | Inr _ \<Rightarrow> \<exists>frame h. dst' = dst @ frame \<and> 16 \<le> length frame \<and> length frame \<le> 48 * 1024 * 1024 \<and>
        MessageHeader_from_bytes frame = Inr h \<and>
        sint (message_length_inner (mh_message_length h)) = int (length frame) \<and>
        mh_request_id h = msg_request_id m \<and> mh_response_to h = msg_response_to m"
proof (cases r)
  case (Inl e)
  with assms bson_codec.encode_error [OF assms(1)] show ?thesis by auto
next
  case (Inr u)
  with assms bson_codec.encode_frame [OF assms(1)] obtain frame where
    d: "dst' = dst @ frame" and f: "message_frame B m frame" by blast
  from f obtain h body where h: "frame = MessageHeader_write_bytes h [] @ body" "frame_of h body"
    "mh_request_id h = msg_request_id m" "mh_response_to h = msg_response_to m"
    unfolding message_frame_def by blast
  then have "MessageHeader_from_bytes frame = Inr h" "MessageLength_valid (message_length_inner (mh_message_length h))"
    by (auto simp: header_roundtrip frame_of_def wf_header_def)
  with h d Inr message_frame_length [OF f] show ?thesis
    by (auto simp: frame_of_def MessageLength_as_usize_valid [symmetric] MessageHeader_size_def)
qed

theorem encode_atomic_witness:
  "\<exists>frame h. ping_frame = [] @ frame \<and> 16 \<le> length frame \<and> length frame \<le> 48 * 1024 * 1024 \<and>
     MessageHeader_from_bytes frame = Inr h \<and>
     sint (message_length_inner (mh_message_length h)) = int (length frame) \<and>
     mh_request_id h = msg_request_id ping_message \<and>
     mh_response_to h = msg_response_to ping_message"
  using encode_atomic [OF reference_codec _ ping_encoded] ping_wf
  by (simp add: wf_Message_def)

text \<open>C9. The decoder does not depend on how the bytes arrive. Two runs over the
  same input, with any interleaving of arrivals and polls, agree: what either has yielded
  is a prefix of what an idle one has yielded, also when the idle one has received more.\<close>

theorem decoder_chunking_irrelevant:
  assumes "decoder_reachable B s" "decoder_reachable B t" "decoder_idle B t"
    and "prefix (dr_input s) (dr_input t)"
  shows "prefix (dr_output s) (dr_output t)"
proof -
  from assms(4) obtain ext where "dr_input t = dr_input s @ ext" by (auto simp: prefix_def)
  then have "decodes B (dr_input t) (dr_output s) (dr_buf s @ ext)"
    using decoder_reachable_inv [OF assms(1)] decodes_append by (auto simp: decoder_inv_def)
  with decoder_idle_maximal [OF decoder_reachable_inv [OF assms(2)] assms(3)] show ?thesis .
qed

theorem decoder_chunking_irrelevant_witness:
  "prefix (dr_output (decode_chunks reference_bson [take 5 ping_frame, drop 5 ping_frame])) [ping_message]"
  using decoder_chunking_irrelevant
      [of reference_bson "decode_chunks reference_bson [take 5 ping_frame, drop 5 ping_frame]"
        "decode_chunks reference_bson [ping_frame]"]
  by (simp add: decode_chunks_reachable ping_run)

text \<open>C10. Bounded buffering: whenever the decoder asks for more bytes it holds less than
  48 MiB, because every frame it waits for has a validated length.\<close>

theorem decoder_bounded_buffer:
  assumes "decoder_reachable B s" "decoder_idle B s"
  shows "length (dr_buf s) < 48 * 1024 * 1024"
proof -
  from decoder_reachable_inv [OF assms(1)] have ok: "decoder_ok (dr_decoder s) (dr_buf s)"
    by (rule decoder_inv_ok)
  obtain d where p: "peek_header (dr_decoder s) (dr_buf s) = Inr d"
    using assms(2) by (auto simp: decoder_idle_def WireDecoder_decode_def split: sum.splits)
  note nh = peek_header_Inr [OF ok p]
  show ?thesis
  proof (cases "MessageHeader_from_bytes (dr_buf s)")
    case (Inl e)
    with ok p have "length (dr_buf s) < 16"
      by (auto simp: peek_header_def decoder_ok_def MessageHeader_from_bytes_def MessageHeader_size_def
          Let_def result_simps split: option.splits sum.splits MessageHeaderParseError.splits if_splits)
    then show ?thesis by simp
  next
    case (Inr h)
    with nh p assms(2) have "length (dr_buf s) < MessageLength_as_usize (mh_message_length h)"
      by (auto simp: decoder_idle_def WireDecoder_decode_def Let_def result_simps split: if_splits)
    also have "\<dots> \<le> 48 * 1024 * 1024"
      using header_from_bytes_wf [OF Inr] MessageLength_as_usize_bounds by (simp add: wf_header_def)
    finally show ?thesis .
  qed
qed

theorem decoder_bounded_buffer_witness:
  "length (dr_buf (decode_chunks reference_bson [ping_frame])) < 48 * 1024 * 1024"
  using decoder_bounded_buffer [OF conjunct1 [OF decode_chunks_reachable] ping_run(1)] .

text \<open>C11. A decoding error is one of two things. A header that announces no acceptable
  frame leaves the decoder and the buffer as they were; a frame whose body does not parse
  is consumed as a whole, so that the buffer starts at the next frame.\<close>

theorem decode_error_state:
  assumes "decoder_reachable B s"
    and "WireDecoder_decode B (dr_decoder s) (dr_buf s) = (Inl e, d, buf)"
  shows "case MessageHeader_from_bytes (dr_buf s) of
      Inl he \<Rightarrow> d = dr_decoder s \<and> buf = dr_buf s \<and>
        (case he of HeaderTooFewBytes _ \<Rightarrow> False
         | InvalidOPCode x \<Rightarrow> e = DecoderInvalidOpcode x
         | InvalidMessageLength x \<Rightarrow> e = DecoderInvalidMessageLength x)
    | Inr h \<Rightarrow> next_header d = None \<and>
        (\<exists>frame pe. split_frame (dr_buf s) = Some (h, frame, buf) \<and> e = DecoderMessageParse pe \<and>
           Message_from_headers_and_bytes B h frame = Inl pe)"
proof -
  have ok: "decoder_ok (dr_decoder s) (dr_buf s)"
    using decoder_inv_ok [OF decoder_reachable_inv [OF assms(1)]] .
  show ?thesis
  proof (cases "peek_header (dr_decoder s) (dr_buf s)")
    case (Inl e')
    then show ?thesis using assms(2)
      by (auto simp: WireDecoder_decode_def peek_header_def
          split: option.splits sum.splits MessageHeaderParseError.splits)
  next
    case (Inr d')
    from peek_header_Inr [OF ok Inr] Inr assms(2) show ?thesis
      by (auto simp: WireDecoder_decode_def split_frame_def Let_def result_simps
          split: option.splits sum.splits if_splits)
  qed
qed

theorem decode_error_state_witness:
  "snd (WireDecoder_decode reference_bson WireDecoder_default (replicate 16 0)) =
     (WireDecoder_default, replicate 16 0)"
proof -
  let ?s = "receive (replicate 16 0) decoder_start"
  have s: "dr_decoder ?s = WireDecoder_default" "dr_buf ?s = replicate 16 0"
    by (simp_all add: receive_def decoder_start_def)
  have h: "MessageHeader_from_bytes (replicate 16 0) = Inl (InvalidMessageLength MessageLengthPredicateViolated)"
    and "isl (fst (WireDecoder_decode reference_bson WireDecoder_default (replicate 16 0)))"
    by code_simp+
  then obtain e d buf where
    dec: "WireDecoder_decode reference_bson WireDecoder_default (replicate 16 0) = (Inl e, d, buf)"
    by (auto simp: isl_def) (metis prod.collapse)
  show ?thesis
    using decode_error_state [OF receive_reachable [OF decoder_reachable.start], of reference_bson "replicate 16 0" e d buf]
    by (simp add: s dec h)
qed

text \<open>C12. The 16-byte header is an exact encoding: a byte string starts with a header
  \<open>h\<close> exactly when \<open>h\<close> is one the types admit (validated length, non-zero
  \<open>response_to\<close>) and the string starts with the 16 bytes that \<open>h\<close> is written as.\<close>

theorem header_exact:
  "MessageHeader_from_bytes bs = Inr h \<longleftrightarrow>
   wf_header h \<and> take MessageHeader_size bs = MessageHeader_write_bytes h []"
proof
  assume "MessageHeader_from_bytes bs = Inr h"
  then show "wf_header h \<and> take MessageHeader_size bs = MessageHeader_write_bytes h []"
    by (simp add: header_from_bytes_wf header_bytes_roundtrip)
next
  assume a: "wf_header h \<and> take MessageHeader_size bs = MessageHeader_write_bytes h []"
  then have "bs = MessageHeader_write_bytes h [] @ drop MessageHeader_size bs"
    by (metis append_take_drop_id)
  with a header_roundtrip show "MessageHeader_from_bytes bs = Inr h" by metis
qed

text \<open>Flag bits of OP_MSG as the protocol asks: a body with an unknown bit among the
  low sixteen is refused with exactly these bits; in an accepted one every unknown
  optional bit is dropped, every known bit is kept, and the checksum is present exactly
  when its bit is set.\<close>

lemma op_msg_flag_bits:
  assumes "OperationMessage_min_len \<le> length bs"
    and "raw = u32_from_le_bytes (take 4 bs)"
    and "unknown = (raw AND REQUIRED_BITS_MASK) AND NOT OperationMessageFlags_all"
  shows "if unknown \<noteq> 0 then OperationMessage_from_bytes B bs = Inl (UnknownRequiredBits unknown)
    else case OperationMessage_from_bytes B bs of
        Inl e \<Rightarrow> \<forall>bits. e \<noteq> UnknownRequiredBits bits
      | Inr m \<Rightarrow> om_flags m = raw AND OperationMessageFlags_all \<and>
          (om_checksum m \<noteq> None \<longleftrightarrow> flags_contains raw CHECKSUM_PRESENT)"
proof (cases "unknown = 0")
  case False
  with assms show ?thesis by (simp add: OperationMessage_from_bytes_def Let_def)
next
  case True
  have chk: "flags_contains (raw AND OperationMessageFlags_all) CHECKSUM_PRESENT \<longleftrightarrow>
      flags_contains raw CHECKSUM_PRESENT"
    by (simp add: flags_contains_def OperationMessageFlags_all_value CHECKSUM_PRESENT_def
        and.assoc)
  show ?thesis
  proof (cases "OperationMessage_from_bytes B bs")
    case (Inr m)
    with True assms chk OperationMessage_from_bytes_flags [OF Inr] show ?thesis by simp
  next
    case (Inl e)
    with True assms show ?thesis
      by (auto simp: OperationMessage_from_bytes_def Let_def result_simps
          parse_sections_no_flag_error split: if_splits)
  qed
qed

lemma op_msg_flag_bits_witness:
  "OperationMessage_from_bytes reference_bson [4, 0, 0, 0, 0] = Inl (UnknownRequiredBits 4)"
proof -
  have "OperationMessage_min_len \<le> length [4, 0, 0, 0, 0 :: byte]"
    "4 = u32_from_le_bytes (take 4 [4, 0, 0, 0, 0])"
    "4 = ((4::u32) AND REQUIRED_BITS_MASK) AND NOT OperationMessageFlags_all"
    by code_simp+
  from op_msg_flag_bits [OF this, of reference_bson] show ?thesis by simp
qed

text \<open>The document count of an OP_REPLY comes from the peer and is not trusted: an
  accepted reply has exactly as many documents as the (non-negative part of the) count
  says, and the body has at least four bytes for every one of them.\<close>

lemma op_reply_count_bounded:
  assumes "bson_codec B" "OperationReply_from_bytes B bs = Inr r"
  shows "int (length (or_documents r)) = max 0 (sint (i32_from_le_bytes (take 4 (drop 16 bs)))) \<and>
         20 + 4 * length (or_documents r) \<le> length bs"
proof -
  from assms(2) have rc: "read_counted B (nat (max (sint (i32_from_le_bytes (take 4 (drop 16 bs)))) 0))
      0 (drop OperationReply_min_len bs) = Inr (or_documents r)"
    and len: "OperationReply_min_len \<le> length bs"
    by (auto simp: OperationReply_from_bytes_def Let_def result_simps split: if_splits)
  from read_counted_length [OF rc] bson_codec.read_counted_bound [OF assms(1) rc] len
  show ?thesis by (auto simp: OperationReply_min_len_def max_def)
qed

lemma op_reply_count_bounded_witness:
  "\<exists>r. OperationReply_from_bytes reference_bson (replicate 16 0 @ [1,0,0,0, 5,0,0,0,0]) = Inr r \<and>
     length (or_documents r) = 1"
proof -
  have "\<not> isl (OperationReply_from_bytes reference_bson (replicate 16 0 @ [1,0,0,0, 5,0,0,0,0]))"
    and c: "sint (i32_from_le_bytes (take 4 (drop 16 (replicate 16 0 @ [1,0,0,0, 5,0,0,0,0])))) = 1"
    by code_simp+
  then obtain r where
    r: "OperationReply_from_bytes reference_bson (replicate 16 0 @ [1,0,0,0, 5,0,0,0,0]) = Inr r"
    using sum.collapse(2) by metis
  from conjunct1 [OF op_reply_count_bounded [OF reference_codec r]] r show ?thesis
    unfolding c by auto
qed

text \<open>\<open>Message::from_bytes\<close> reads past the declared end of an OP_MSG: bytes that
  follow the frame are parsed as further sections of it. (The stream decoder cuts the
  frame out first, so it is not affected.)\<close>

lemma trailing_bytes_are_parsed:
  "Message_from_bytes reference_bson (ping_frame @ [0, 5, 0, 0, 0, 0]) =
     Inr (ping_message\<lparr>msg_operation := Operation_Message \<lparr>om_flags = 0,
       om_sections = [Body [(''ping'', Int32 1)], Body []], om_checksum = None\<rparr>\<rparr>)"
  by code_simp

text \<open>An OP_MSG may have no section at all: a body of flags and checksum alone is
  accepted, and the result has no body and no command name.\<close>

lemma op_msg_without_sections:
  "OperationMessage_from_bytes B (u32_to_le_bytes CHECKSUM_PRESENT @ u32_to_le_bytes crc) =
     Inr \<lparr>om_flags = CHECKSUM_PRESENT, om_sections = [], om_checksum = Some crc\<rparr> \<and>
   OperationMessage_command_name
     \<lparr>om_flags = CHECKSUM_PRESENT, om_sections = [], om_checksum = Some crc\<rparr> = None"
  by (simp add: OperationMessage_from_bytes_def OperationMessage_min_len_def
      OperationMessageFlags_all_value CHECKSUM_PRESENT_def flags_contains_def
      REQUIRED_BITS_MASK_def OperationMessage_command_name_def)

end
