(* ===== verification/ReplyStream.thy ===== *)
theory ReplyStream
  imports Message
begin

text \<open>
  The interface between the layers of the proxy: a \<open>tower\<close> service takes a request and
  resolves to a stream of replies, which is polled. Handles to shared objects (the
  upstream socket behind its mutex, the log) refer to a world \<open>'w\<close> that every
  operation threads. A call that has to wait for a lock is \<open>Pending\<close>. The locale states what
  a layer promises that wraps a reply stream item by item; its lemmas say what the
  client of such a layer sees.
\<close>

section \<open>Polling\<close>

datatype 'a poll = Pending | Ready 'a

type_synonym ('s, 'w, 'e) reply_poll = "'s \<Rightarrow> 'w \<Rightarrow> ('e + Message) option poll \<times> 's \<times> 'w"
type_synonym ('s, 'w, 'st, 'e) service_call = "'s \<Rightarrow> Message \<Rightarrow> 'w \<Rightarrow> ('e + 'st) poll \<times> 's \<times> 'w"

text \<open>\<open>map_ready f\<close> is what follows an \<open>await\<close>: nothing until the value is there.\<close>

fun map_ready :: "('a \<Rightarrow> 'b) \<Rightarrow> 'a poll \<Rightarrow> 'b poll" where
  "map_ready f Pending = Pending"
| "map_ready f (Ready x) = Ready (f x)"

text \<open>The results of \<open>n\<close> polls.\<close>

fun polled :: "('s, 'w, 'e) reply_poll \<Rightarrow> nat \<Rightarrow> 's \<Rightarrow> 'w \<Rightarrow> ('e + Message) option poll list" where
  "polled poll_next 0 s w = []"
| "polled poll_next (Suc n) s w =
     (case poll_next s w of (r, s, w) \<Rightarrow> r # polled poll_next n s w)"

fun map_item ::
  "(Message \<Rightarrow> Message) \<Rightarrow> ('e + Message) option poll \<Rightarrow> ('e + Message) option poll" where
  "map_item f (Ready (Some (Inr m))) = Ready (Some (Inr (f m)))"
| "map_item f r = r"

lemma map_item_id [simp]: "map_item (\<lambda>m. m) = (\<lambda>r. r)"
proof
  fix r :: "('e + Message) option poll"
  show "map_item (\<lambda>m. m) r = r"
    by (cases "(\<lambda>m :: Message. m, r)" rule: map_item.cases) auto
qed

lemma map_item_reply:
  "map_item f r = Ready (Some (Inr m)) \<longleftrightarrow> (\<exists>m0. r = Ready (Some (Inr m0)) \<and> m = f m0)"
  by (cases "(f, r)" rule: map_item.cases) auto

text \<open>A source of poll results: it plays back a list, then reports the end. The
  list is the world.\<close>

fun playback :: "(unit, ('e + Message) option poll list, 'e) reply_poll" where
  "playback u [] = (Ready None, (), [])"
| "playback u (r # rs) = (r, (), rs)"

text \<open>\<open>stream.next().await\<close>: polls until the stream is ready. A stream that is pending for
  ever makes the value \<open>None\<close>.\<close>

partial_function (option) stream_next ::
  "('s, 'w, 'e) reply_poll \<Rightarrow> 's \<Rightarrow> 'w \<Rightarrow> (('e + Message) option \<times> 's \<times> 'w) option" where
  "stream_next poll_next s w =
     (case poll_next s w of
        (Pending, s, w) \<Rightarrow> stream_next poll_next s w
      | (Ready r, s, w) \<Rightarrow> Some (r, s, w))"

text \<open>An invariant of the pending polls holds where the stream is ready.\<close>

lemma stream_next_invariant:
  assumes "stream_next poll_next s w = Some (r, s', w')" "I s w"
    and "\<And>s w s1 w1. I s w \<Longrightarrow> poll_next s w = (Pending, s1, w1) \<Longrightarrow> I s1 w1"
  shows "\<exists>s0 w0. I s0 w0 \<and> poll_next s0 w0 = (Ready r, s', w')"
proof -
  have "(\<forall>s w s1 w1. I s w \<longrightarrow> poll_next s w = (Pending, s1, w1) \<longrightarrow> I s1 w1) \<longrightarrow> I s w \<longrightarrow>
      (\<exists>s0 w0. I s0 w0 \<and> poll_next s0 w0 = (Ready (fst (r, s', w')), snd (r, s', w')))"
  proof (rule stream_next.raw_induct [OF _ assms(1),
      of "\<lambda>poll_next s w y. (\<forall>s w s1 w1. I s w \<longrightarrow> poll_next s w = (Pending, s1, w1) \<longrightarrow> I s1 w1) \<longrightarrow>
        I s w \<longrightarrow> (\<exists>s0 w0. I s0 w0 \<and> poll_next s0 w0 = (Ready (fst y), snd y))"], goal_cases)
    case (1 f poll_next s w y)
    obtain q s1 w1 where p: "poll_next s w = (q, s1, w1)" by (cases "poll_next s w")
    show ?case
    proof (cases q)
      case Pending
      with 1(2) p have "f poll_next s1 w1 = Some y" by simp
      from 1(1) [OF this] Pending p show ?thesis by blast
    next
      case (Ready r)
      with 1(2) p have "poll_next s w = (Ready (fst y), snd y)" by auto
      then show ?thesis by blast
    qed
  qed
  with assms(2,3) show ?thesis by auto
qed

section \<open>Whole exchanges\<close>

text \<open>Polled to its end, the stream delivers the messages \<open>ms\<close> without an error and
  leaves the world \<open>w'\<close>.\<close>

inductive stream_yields ::
  "('s, 'w, 'e) reply_poll \<Rightarrow> 's \<Rightarrow> 'w \<Rightarrow> Message list \<Rightarrow> 'w \<Rightarrow> bool" for poll_next where
  finished: "poll_next s w = (Ready None, s', w') \<Longrightarrow> stream_yields poll_next s w [] w'"
| waiting: "poll_next s w = (Pending, s1, w1) \<Longrightarrow> stream_yields poll_next s1 w1 ms w' \<Longrightarrow>
     stream_yields poll_next s w ms w'"
| item: "poll_next s w = (Ready (Some (Inr m)), s1, w1) \<Longrightarrow> stream_yields poll_next s1 w1 ms w' \<Longrightarrow>
     stream_yields poll_next s w (m # ms) w'"

text \<open>A call of the service that resolves at once to a stream with these replies.\<close>

definition answers ::
  "('s, 'w, 'st, 'e) service_call \<Rightarrow> ('st, 'w, 'e) reply_poll \<Rightarrow> 's \<Rightarrow> 'w \<Rightarrow> Message \<Rightarrow> Message list
   \<Rightarrow> 's \<Rightarrow> 'w \<Rightarrow> bool" where
  "answers call poll_next svc w req ms svc' w' \<longleftrightarrow>
     (\<exists>st w1. call svc req w = (Ready (Inr st), svc', w1) \<and> stream_yields poll_next st w1 ms w')"

text \<open>A sequence of calls, each of which is answered.\<close>

inductive answers_all ::
  "('s, 'w, 'st, 'e) service_call \<Rightarrow> ('st, 'w, 'e) reply_poll \<Rightarrow> 's \<Rightarrow> 'w \<Rightarrow> Message list
   \<Rightarrow> Message list list \<Rightarrow> 's \<Rightarrow> 'w \<Rightarrow> bool" for call poll_next where
  no_request: "answers_all call poll_next svc w [] [] svc w"
| request: "answers call poll_next svc w req ms svc1 w1 \<Longrightarrow>
     answers_all call poll_next svc1 w1 reqs mss svc' w' \<Longrightarrow>
     answers_all call poll_next svc w (req # reqs) (ms # mss) svc' w'"

inductive_simps answers_all_Nil: "answers_all call poll_next svc w [] mss svc' w'"
inductive_simps answers_all_Cons: "answers_all call poll_next svc w (req # reqs) mss svc' w'"

lemma answers_all_append:
  "answers_all call poll_next svc w (reqs1 @ reqs2) (mss1 @ mss2) svc' w' \<Longrightarrow> length reqs1 = length mss1 \<Longrightarrow>
   \<exists>svc1 w1. answers_all call poll_next svc w reqs1 mss1 svc1 w1 \<and>
     answers_all call poll_next svc1 w1 reqs2 mss2 svc' w'"
proof (induction reqs1 arbitrary: mss1 svc w)
  case Nil
  then show ?case by (auto simp: answers_all_Nil)
next
  case (Cons req reqs1)
  then obtain ms mss where m: "mss1 = ms # mss" by (cases mss1) auto
  with Cons.prems Cons.IH show ?case by (auto simp: answers_all_Cons) blast
qed

section \<open>The contract of a layer's stream\<close>

locale reply_stream_layer =
  fixes inner :: "('s, 'w, 'e) reply_poll"
    and outer :: "('t, 'v, 'e) reply_poll"
    and inner_of :: "'t \<Rightarrow> 's"
    and world_of :: "'v \<Rightarrow> 'w"
    and on_reply :: "'t \<Rightarrow> Message \<Rightarrow> Message"
  assumes poll_layer:
    "inner (inner_of t) (world_of v) = (r, s', w') \<Longrightarrow>
     \<exists>t' v'. outer t v = (map_item (on_reply t) r, t', v') \<and> inner_of t' = s' \<and> world_of v' = w' \<and>
       on_reply t' = on_reply t"
begin

text \<open>The layer delivers the items of the inner stream one for one, in order and at
  the same polls; errors, pending results and the end of the stream are passed on.\<close>

lemma polled_layer:
  "polled outer n t v = map (map_item (on_reply t)) (polled inner n (inner_of t) (world_of v))"
proof (induction n arbitrary: t v)
  case (Suc n)
  obtain r s' w' where i: "inner (inner_of t) (world_of v) = (r, s', w')"
    by (cases "inner (inner_of t) (world_of v)")
  from poll_layer [OF i] obtain t' v' where
    o: "outer t v = (map_item (on_reply t) r, t', v')" "inner_of t' = s'" "world_of v' = w'"
      "on_reply t' = on_reply t"
    by blast
  from Suc.IH [of t' v'] o i show ?case by simp
qed simp

lemma polled_reply:
  "Ready (Some (Inr m)) \<in> set (polled outer n t v) \<longleftrightarrow>
   (\<exists>m0. Ready (Some (Inr m0)) \<in> set (polled inner n (inner_of t) (world_of v)) \<and> m = on_reply t m0)"
proof -
  have "Ready (Some (Inr m)) \<in> map_item f ` S \<longleftrightarrow> (\<exists>m0. Ready (Some (Inr m0)) \<in> S \<and> m = f m0)"
    for f and S :: "('e + Message) option poll set"
    by (metis (no_types, lifting) image_iff map_item_reply)
  then show ?thesis by (simp add: polled_layer)
qed

lemma polled_unchanged:
  "on_reply t = (\<lambda>m. m) \<Longrightarrow> polled outer n t v = polled inner n (inner_of t) (world_of v)"
  by (simp add: polled_layer)

lemma stream_yields_layer:
  assumes "stream_yields inner s w ms w'" "inner_of t = s" "world_of v = w"
  shows "\<exists>v'. stream_yields outer t v (map (on_reply t) ms) v' \<and> world_of v' = w'"
  using assms
proof (induction arbitrary: t v rule: stream_yields.induct)
  case (finished s w s' w')
  with poll_layer [of t v] obtain t' v' where "outer t v = (Ready None, t', v')" "world_of v' = w'"
    by fastforce
  then show ?case by (auto intro: stream_yields.finished)
next
  case (waiting s w s1 w1 ms w')
  with poll_layer [of t v] obtain t' v' where
    "outer t v = (Pending, t', v')" "inner_of t' = s1" "world_of v' = w1" "on_reply t' = on_reply t"
    by fastforce
  with waiting.IH [of t' v'] show ?case by (auto intro: stream_yields.waiting)
next
  case (item s w m s1 w1 ms w')
  with poll_layer [of t v] obtain t' v' where
    o: "outer t v = (Ready (Some (Inr (on_reply t m))), t', v')" "inner_of t' = s1" "world_of v' = w1"
    "on_reply t' = on_reply t"
    by fastforce
  with item.IH [of t' v'] obtain v'' where
    "stream_yields outer t' v' (map (on_reply t) ms) v''" "world_of v'' = w'"
    by auto
  with stream_yields.item [where poll_next = outer, OF o(1)] show ?case by auto
qed

end

end
