(* ===== verification/Strings.thy ===== *)
theory Strings
  imports Prelude
begin

text \<open>
  The operations on \<open>str\<close> that the code uses. Strings are sequences of UTF-8 bytes;
  all separators are ASCII, so splitting at bytes and splitting at characters agree.
\<close>

section \<open>Case folding\<close>

definition to_ascii_lowercase_char :: "char \<Rightarrow> char" where
  "to_ascii_lowercase_char c =
     (let n = of_char c :: nat in if 65 \<le> n \<and> n \<le> 90 then char_of (n + 32) else c)"

definition to_ascii_lowercase :: "string \<Rightarrow> string" where
  "to_ascii_lowercase s = map to_ascii_lowercase_char s"

definition eq_ignore_ascii_case :: "string \<Rightarrow> string \<Rightarrow> bool" where
  "eq_ignore_ascii_case a b \<longleftrightarrow> to_ascii_lowercase a = to_ascii_lowercase b"

section \<open>Splitting and joining\<close>

text \<open>\<open>s.split_once(pat)\<close>, \<open>s.rsplit_once(c)\<close>, \<open>s.split(c)\<close> and \<open>parts.join(sep)\<close>.\<close>

fun split_once :: "string \<Rightarrow> string \<Rightarrow> (string \<times> string) option" where
  "split_once pat [] = (if pat = [] then Some ([], []) else None)"
| "split_once pat (c # cs) =
     (if take (length pat) (c # cs) = pat then Some ([], drop (length pat) (c # cs))
      else map_option (\<lambda>(a, b). (c # a, b)) (split_once pat cs))"

fun rsplit_once :: "char \<Rightarrow> string \<Rightarrow> (string \<times> string) option" where
  "rsplit_once c [] = None"
| "rsplit_once c (x # xs) =
     (case rsplit_once c xs of
        Some (a, b) \<Rightarrow> Some (x # a, b)
      | None \<Rightarrow> if x = c then Some ([], xs) else None)"

fun str_split :: "char \<Rightarrow> string \<Rightarrow> string list" where
  "str_split c [] = [[]]"
| "str_split c (x # xs) =
     (if x = c then [] # str_split c xs
      else case str_split c xs of [] \<Rightarrow> [[x]] | y # ys \<Rightarrow> (x # y) # ys)"

fun str_join :: "string \<Rightarrow> string list \<Rightarrow> string" where
  "str_join sep [] = []"
| "str_join sep [s] = s"
| "str_join sep (s # ss) = s @ sep @ str_join sep ss"

lemma split_once_char: "c \<notin> set a \<Longrightarrow> split_once [c] (a @ c # b) = Some (a, b)"
  by (induction a) auto

lemma split_once_char_None: "c \<notin> set s \<Longrightarrow> split_once [c] s = None"
  by (induction s) auto

lemma split_once_first:
  "pat \<noteq> [] \<Longrightarrow> hd pat \<notin> set a \<Longrightarrow> split_once pat (a @ pat @ b) = Some (a, b)"
proof (induction a)
  case Nil
  then show ?case by (cases pat) auto
next
  case (Cons c cs)
  then have "take (length pat) (c # cs @ pat @ b) \<noteq> pat" by (cases pat) auto
  with Cons show ?case by simp
qed

lemma split_once_char_append:
  "c \<notin> set a \<Longrightarrow> split_once [c] (a @ b) = map_option (\<lambda>(x, y). (a @ x, y)) (split_once [c] b)"
  by (induction a; cases "split_once [c] b") auto

lemma rsplit_once_None: "rsplit_once c s = None \<longleftrightarrow> c \<notin> set s"
  by (induction s) (auto split: option.splits)

lemma rsplit_once_char: "c \<notin> set b \<Longrightarrow> rsplit_once c (a @ c # b) = Some (a, b)"
  by (induction a) (auto simp: rsplit_once_None [THEN iffD2])

lemma rsplit_once_Some: "rsplit_once c s = Some (a, b) \<Longrightarrow> s = a @ c # b \<and> c \<notin> set b"
proof (induction s arbitrary: a)
  case (Cons x xs)
  then show ?case
    by (cases "rsplit_once c xs") (auto simp: rsplit_once_None split: if_splits)
qed simp

lemma rsplit_once_after:
  "\<exists>u'. rsplit_once c (u @ c # b) =
     Some (u', case rsplit_once c b of Some (_, rest) \<Rightarrow> rest | None \<Rightarrow> b)"
  by (induction u) (auto split: option.splits)

lemma str_split_not_Nil [simp]: "str_split c s \<noteq> []"
  by (induction s) (auto split: list.splits)

lemma str_split_none: "c \<notin> set s \<Longrightarrow> str_split c s = [s]"
  by (induction s) auto

lemma str_split_append: "c \<notin> set a \<Longrightarrow> str_split c (a @ c # b) = a # str_split c b"
  by (induction a) auto

lemma str_split_join:
  "ss \<noteq> [] \<Longrightarrow> \<forall>s \<in> set ss. c \<notin> set s \<Longrightarrow> str_split c (str_join [c] ss) = ss"
  by (induction "[c]" ss rule: str_join.induct) (auto simp: str_split_none str_split_append)

lemma str_join_Cons: "ss \<noteq> [] \<Longrightarrow> str_join sep (s # ss) = s @ sep @ str_join sep ss"
  by (cases ss) auto

lemma str_join_append:
  "xs \<noteq> [] \<Longrightarrow> ys \<noteq> [] \<Longrightarrow> str_join sep (xs @ ys) = str_join sep xs @ sep @ str_join sep ys"
  by (induction sep xs rule: str_join.induct) (auto simp: str_join_Cons)

lemma str_join_split: "str_join [c] (str_split c s) = s"
proof (induction s)
  case (Cons x s)
  then show ?case
    by (cases "str_split c s" rule: list.exhaust; cases "tl (str_split c s)")
      (auto simp: str_join_Cons)
qed simp

lemma set_str_join: "set (str_join sep ss) \<subseteq> set sep \<union> (\<Union> (set ` set ss))"
  by (induction sep ss rule: str_join.induct) auto

lemma str_split_no_sep: "p \<in> set (str_split c s) \<Longrightarrow> c \<notin> set p"
proof (induction s arbitrary: p)
  case (Cons x s)
  then show ?case by (cases "str_split c s") (auto split: if_splits)
qed simp

lemma str_split_append_sep: "str_split c (a @ c # b) = str_split c a @ str_split c b"
proof (induction a)
  case (Cons x a)
  then show ?case by (cases "str_split c a") auto
qed simp

section \<open>Numbers\<close>

text \<open>\<open>str::parse::<u16>\<close>: an optional plus sign, at least one digit, no overflow.\<close>

definition digit_value :: "char \<Rightarrow> int option" where
  "digit_value c = (let n = of_char c :: int in if 48 \<le> n \<and> n \<le> 57 then Some (n - 48) else None)"

fun parse_digits :: "int \<Rightarrow> string \<Rightarrow> int option" where
  "parse_digits acc [] = Some acc"
| "parse_digits acc (c # cs) =
     (case digit_value c of
        None \<Rightarrow> None
      | Some d \<Rightarrow> let acc = acc * 10 + d in if 65535 < acc then None else parse_digits acc cs)"

definition parse_u16 :: "string \<Rightarrow> u16 option" where
  "parse_u16 s =
     (case s of
        [] \<Rightarrow> None
      | c # cs \<Rightarrow>
          let digits = (if c = CHR ''+'' then cs else s) in
          if digits = [] then None else map_option word_of_int (parse_digits 0 digits))"

text \<open>The decimal \<open>Display\<close> of an unsigned integer.\<close>

definition digit_char :: "nat \<Rightarrow> char" where
  "digit_char n = char_of (48 + n)"

fun show_nat :: "nat \<Rightarrow> string" where
  "show_nat n = (if n < 10 then [digit_char n] else show_nat (n div 10) @ [digit_char (n mod 10)])"

declare show_nat.simps [simp del]

definition show_u16 :: "u16 \<Rightarrow> string" where
  "show_u16 p = show_nat (unat p)"

lemma digit_value_char: "n < 10 \<Longrightarrow> digit_value (digit_char n) = Some (int n)"
proof -
  assume n: "n < 10"
  have "(of_char (char_of (48 + n)) :: int) = int (of_char (char_of (48 + n) :: char))"
    by (rule of_nat_of_char [symmetric])
  with n show ?thesis by (simp add: digit_value_def digit_char_def)
qed

lemma parse_digits_append:
  "parse_digits acc (a @ b) = Option.bind (parse_digits acc a) (\<lambda>acc. parse_digits acc b)"
  by (induction acc a rule: parse_digits.induct) (auto simp: Let_def split: option.splits)

lemma parse_digits_show: "n \<le> 65535 \<Longrightarrow> parse_digits 0 (show_nat n) = Some (int n)"
proof (induction n rule: show_nat.induct)
  case (1 n)
  show ?case
  proof (cases "n < 10")
    case True
    then show ?thesis by (subst show_nat.simps) (simp add: digit_value_char)
  next
    case False
    have "int (n div 10) * 10 + int (n mod 10) = int n"
      by (metis div_mult_mod_eq of_nat_add of_nat_mult of_nat_numeral)
    moreover from False have "show_nat n = show_nat (n div 10) @ [digit_char (n mod 10)]"
      by (subst show_nat.simps) simp
    ultimately show ?thesis using 1 False by (simp add: parse_digits_append digit_value_char)
  qed
qed

lemma show_nat_digits: "c \<in> set (show_nat n) \<Longrightarrow> \<exists>d < 10. c = digit_char d"
proof (induction n rule: show_nat.induct)
  case (1 n)
  show ?case
  proof (cases "n < 10")
    case True
    with 1(2) show ?thesis by (subst (asm) show_nat.simps) auto
  next
    case False
    with 1(2) have "c \<in> set (show_nat (n div 10)) \<or> c = digit_char (n mod 10)"
      by (subst (asm) show_nat.simps) auto
    with 1(1) [OF False] show ?thesis by (metis mod_less_divisor zero_less_numeral)
  qed
qed

lemma show_nat_not_Nil [simp]: "show_nat n \<noteq> []"
  by (subst show_nat.simps) simp

lemma digit_char_ascii: "d < 10 \<Longrightarrow> of_char (digit_char d) = 48 + d"
  by (simp add: digit_char_def of_char_of)

lemma show_u16_char: "c \<in> set (show_u16 p) \<Longrightarrow> 48 \<le> (of_char c :: nat) \<and> (of_char c :: nat) \<le> 57"
  by (auto simp: show_u16_def digit_char_ascii dest!: show_nat_digits)

lemma parse_show_u16: "parse_u16 (show_u16 p) = Some p"
proof -
  obtain c cs where s: "show_u16 p = c # cs" by (cases "show_u16 p") (auto simp: show_u16_def)
  then have "48 \<le> (of_char c :: nat)" using show_u16_char [of c p] by simp
  then have "c \<noteq> CHR ''+''" by auto
  have "unat p < 65536" using unsigned_less [of p] by simp
  then have "parse_digits 0 (c # cs) = Some (int (unat p))"
    using parse_digits_show [of "unat p"] by (simp add: show_u16_def flip: s)
  with s \<open>c \<noteq> CHR ''+''\<close> show ?thesis
    by (simp add: parse_u16_def del: parse_digits.simps)
qed

section \<open>Trimming\<close>

text \<open>\<open>str::trim\<close> removes the characters with the Unicode property \<open>White_Space\<close>, here as their
  UTF-8 encodings. In valid UTF-8 an encoding is found at a character boundary only, so it
  may be looked for from either end.\<close>

definition WHITE_SPACE :: "string list" where
  "WHITE_SPACE =
     [[CHR 0x09], [CHR 0x0A], [CHR 0x0B], [CHR 0x0C], [CHR 0x0D], [CHR 0x20],
      [CHR 0xC2, CHR 0x85], [CHR 0xC2, CHR 0xA0], [CHR 0xE1, CHR 0x9A, CHR 0x80],
      [CHR 0xE2, CHR 0x80, CHR 0x80], [CHR 0xE2, CHR 0x80, CHR 0x81],
      [CHR 0xE2, CHR 0x80, CHR 0x82], [CHR 0xE2, CHR 0x80, CHR 0x83],
      [CHR 0xE2, CHR 0x80, CHR 0x84], [CHR 0xE2, CHR 0x80, CHR 0x85],
      [CHR 0xE2, CHR 0x80, CHR 0x86], [CHR 0xE2, CHR 0x80, CHR 0x87],
      [CHR 0xE2, CHR 0x80, CHR 0x88], [CHR 0xE2, CHR 0x80, CHR 0x89],
      [CHR 0xE2, CHR 0x80, CHR 0x8A], [CHR 0xE2, CHR 0x80, CHR 0xA8],
      [CHR 0xE2, CHR 0x80, CHR 0xA9], [CHR 0xE2, CHR 0x80, CHR 0xAF],
      [CHR 0xE2, CHR 0x81, CHR 0x9F], [CHR 0xE3, CHR 0x80, CHR 0x80]]"

lemma find_Some_mem: "find P xs = Some x \<Longrightarrow> x \<in> set xs \<and> P x"
  by (auto simp: find_Some_iff)

function strip_leading :: "string list \<Rightarrow> string \<Rightarrow> string" where
  "strip_leading ws s =
     (case find (\<lambda>w. w \<noteq> [] \<and> take (length w) s = w) ws of
        Some w \<Rightarrow> strip_leading ws (drop (length w) s)
      | None \<Rightarrow> s)"
  by pat_completeness auto
termination
proof (relation "measure (\<lambda>(_, s). length s)", goal_cases)
  case (2 ws s w)
  from find_Some_mem [OF 2] have "w \<noteq> []" "s \<noteq> []" by auto
  then show ?case by simp
qed simp

declare strip_leading.simps [simp del]

definition str_trim :: "string \<Rightarrow> string" where
  "str_trim s =
     rev (strip_leading (map rev WHITE_SPACE) (rev (strip_leading WHITE_SPACE s)))"

text \<open>Nothing to strip at either end.\<close>

definition trimmed :: "string \<Rightarrow> bool" where
  "trimmed s \<longleftrightarrow> (\<forall>w \<in> set WHITE_SPACE. take (length w) s \<noteq> w \<and> take (length w) (rev s) \<noteq> rev w)"

lemma white_space_not_Nil: "w \<in> set WHITE_SPACE \<Longrightarrow> w \<noteq> []"
  by (auto simp: WHITE_SPACE_def)

lemma strip_leading_id:
  "(\<And>w. w \<in> set ws \<Longrightarrow> take (length w) s \<noteq> w) \<Longrightarrow> strip_leading ws s = s"
  by (subst strip_leading.simps) (auto split: option.splits dest!: find_Some_mem)

lemma str_trim_id: "trimmed s \<Longrightarrow> str_trim s = s"
proof -
  assume t: "trimmed s"
  then have "strip_leading WHITE_SPACE s = s"
    by (intro strip_leading_id) (auto simp: trimmed_def)
  moreover have "strip_leading (map rev WHITE_SPACE) (rev s) = rev s"
    using t by (intro strip_leading_id) (auto simp: trimmed_def)
  ultimately show ?thesis by (simp add: str_trim_def)
qed

lemma strip_leading_stripped:
  "w \<in> set ws \<Longrightarrow> w \<noteq> [] \<Longrightarrow> take (length w) (strip_leading ws s) \<noteq> w"
proof (induction ws s rule: strip_leading.induct)
  case (1 ws s)
  show ?case
  proof (cases "find (\<lambda>w. w \<noteq> [] \<and> take (length w) s = w) ws")
    case None
    then have "strip_leading ws s = s" by (subst strip_leading.simps) simp
    with None 1(2,3) show ?thesis by (auto simp: find_None_iff)
  next
    case (Some v)
    then have "strip_leading ws s = strip_leading ws (drop (length v) s)"
      by (subst strip_leading.simps) simp
    with 1 Some show ?thesis by simp
  qed
qed

lemma strip_leading_suffix: "\<exists>pre. s = pre @ strip_leading ws s"
proof (induction ws s rule: strip_leading.induct)
  case (1 ws s)
  show ?case
  proof (cases "find (\<lambda>w. w \<noteq> [] \<and> take (length w) s = w) ws")
    case None
    then show ?thesis by (subst strip_leading.simps) simp
  next
    case (Some v)
    then have e: "strip_leading ws s = strip_leading ws (drop (length v) s)"
      by (subst strip_leading.simps) simp
    from 1 [OF Some] obtain pre where "drop (length v) s = pre @ strip_leading ws s"
      unfolding e by blast
    then have "s = (take (length v) s @ pre) @ strip_leading ws s"
      by (metis append.assoc append_take_drop_id)
    then show ?thesis by blast
  qed
qed

text \<open>Trimming takes a prefix and a suffix away and leaves a trimmed string.\<close>

lemma str_trim_infix: "\<exists>pre post. s = pre @ str_trim s @ post"
proof -
  let ?t = "strip_leading WHITE_SPACE s"
  obtain pre where "s = pre @ ?t" using strip_leading_suffix by blast
  moreover obtain post where "rev ?t = post @ strip_leading (map rev WHITE_SPACE) (rev ?t)"
    using strip_leading_suffix by blast
  then have "?t = str_trim s @ rev post"
    by (metis rev_append rev_rev_ident str_trim_def)
  ultimately show ?thesis by metis
qed

lemma str_trim_trimmed: "trimmed (str_trim s)"
proof -
  let ?t = "strip_leading WHITE_SPACE s"
  obtain post where "rev ?t = post @ strip_leading (map rev WHITE_SPACE) (rev ?t)"
    using strip_leading_suffix by blast
  then have t: "?t = str_trim s @ rev post"
    by (metis rev_append rev_rev_ident str_trim_def)
  have "take (length w) (str_trim s) \<noteq> w" if w: "w \<in> set WHITE_SPACE" for w
  proof
    assume "take (length w) (str_trim s) = w"
    then have "take (length w) ?t = w"
      unfolding t using arg_cong [of _ _ length] by (fastforce simp: min_def split: if_splits)
    with strip_leading_stripped [OF w white_space_not_Nil [OF w]] show False by blast
  qed
  moreover have "take (length w) (rev (str_trim s)) \<noteq> rev w" if w: "w \<in> set WHITE_SPACE" for w
    using strip_leading_stripped [of "rev w" "map rev WHITE_SPACE" "rev ?t"] w white_space_not_Nil [OF w]
    by (simp add: str_trim_def)
  ultimately show ?thesis by (auto simp: trimmed_def)
qed

lemma str_trim_idem [simp]: "str_trim (str_trim s) = str_trim s"
  by (simp add: str_trim_id str_trim_trimmed)

end
