(* ===== verification/Client.thy ===== *)
theory Client
  imports ReplyStream Decoder Strings
begin

text \<open>
  The per-connection upstream client, \<open>ProxyClient\<close> of
  \<open>src/src/serve/service.rs\<close>: one socket behind a mutex, whose guard moves into
  the reply stream. The framed halves of the socket (\<open>FramedRead\<close> and \<open>FramedWrite\<close>
  of \<open>tokio_util\<close>) and the network are parameters: \<open>read_frame\<close> polls the
  reader, \<open>send_frame\<close> is one completed \<open>send\<close> of the writer.
\<close>

section \<open>Connecting\<close>

type_synonym io_error = string

datatype ProxyClientForwardError =
    FailedToConnectToProxiedServer io_error
  | InvalidServerName string
  | TlsHandshake io_error

datatype ProxyClientRequestError =
    RequestIo io_error
  | EndOfStream
  | WireEncode WireEncoderError
  | WireDecode WireDecoderError

text \<open>Their \<open>Display\<close>. An I/O error is its text; the texts of the codec errors are an argument.\<close>

record codec_text =
  encoder_text :: "WireEncoderError \<Rightarrow> string"
  decoder_text :: "WireDecoderError \<Rightarrow> string"

fun ProxyClientForwardError_display :: "ProxyClientForwardError \<Rightarrow> string" where
  "ProxyClientForwardError_display (FailedToConnectToProxiedServer e) =
     ''failed to connect to proxied server: '' @ e"
| "ProxyClientForwardError_display (InvalidServerName e) = ''invalid server name: '' @ e"
| "ProxyClientForwardError_display (TlsHandshake e) = ''tls handshake failed: '' @ e"

fun ProxyClientRequestError_display :: "codec_text \<Rightarrow> ProxyClientRequestError \<Rightarrow> string" where
  "ProxyClientRequestError_display T (RequestIo e) = ''io error: '' @ e"
| "ProxyClientRequestError_display T EndOfStream = ''end of stream''"
| "ProxyClientRequestError_display T (WireEncode e) = ''wire encode error: '' @ encoder_text T e"
| "ProxyClientRequestError_display T (WireDecode e) = ''wire decode error: '' @ decoder_text T e"

record ('r, 'w) ProxyClientInner =
  server_reader :: 'r
  server_writer :: 'w

datatype 'a mutex = Unlocked 'a | Locked

text \<open>\<open>TcpStream::connect\<close>, \<open>ServerName::try_from\<close>, \<open>TlsConnector::connect\<close>, and the split of
  a stream into its framed halves.\<close>

record ('sock, 'tls, 'r, 'w) network =
  tcp_connect :: "string \<Rightarrow> io_error + 'sock"
  server_name :: "string \<Rightarrow> string + string"
  tls_connect :: "'tls \<Rightarrow> string \<Rightarrow> 'sock \<Rightarrow> io_error + 'sock"
  framed_split :: "'sock \<Rightarrow> 'r \<times> 'w"

definition forward_to ::
  "('sock, 'tls, 'r, 'w) network \<Rightarrow> string \<Rightarrow> u16 \<Rightarrow> 'tls option
   \<Rightarrow> ProxyClientForwardError + ('r, 'w) ProxyClientInner mutex" where
  "forward_to N destination_name destination_port tls_connector =
     (let addr = destination_name @ '':'' @ show_u16 destination_port in
      res_bind (map_err FailedToConnectToProxiedServer (tcp_connect N addr)) (\<lambda>server_stream.
      res_bind
        (case tls_connector of
           Some connector \<Rightarrow>
             res_bind (map_err InvalidServerName (server_name N destination_name)) (\<lambda>domain.
             map_err TlsHandshake (tls_connect N connector domain server_stream))
         | None \<Rightarrow> Inr server_stream) (\<lambda>stream.
      case framed_split N stream of
        (reader, writer) \<Rightarrow> Inr (Unlocked \<lparr>server_reader = reader, server_writer = writer\<rparr>))))"

section \<open>Requests and replies\<close>

definition more_to_come :: "Operation \<Rightarrow> bool" where
  "more_to_come op =
     (case op of Operation_Message m \<Rightarrow> flags_contains (om_flags m) MORE_TO_COME | _ \<Rightarrow> False)"

type_synonym 'r frame_poll = "'r \<Rightarrow> (WireDecoderError + Message) option poll \<times> 'r"
type_synonym 'w frame_send = "'w \<Rightarrow> Message \<Rightarrow> (WireEncoderError + unit) \<times> 'w"

text \<open>\<open>Streaming\<close> holds the guard of the mutex. Replacing it by \<open>Done\<close> drops the guard,
  which unlocks the mutex.\<close>

datatype ('r, 'w) ProxyResponseStream =
    Done
  | Streaming "('r, 'w) ProxyClientInner"

definition ProxyResponseStream_poll_next ::
  "'r frame_poll
   \<Rightarrow> (('r, 'w) ProxyResponseStream, ('r, 'w) ProxyClientInner mutex, ProxyClientRequestError) reply_poll"
  where
  "ProxyResponseStream_poll_next read_frame state w =
     (case state of
        Done \<Rightarrow> (Ready None, Done, w)
      | Streaming guard \<Rightarrow>
          (case read_frame (server_reader guard) of
             (r, reader) \<Rightarrow>
               let guard = guard\<lparr>server_reader := reader\<rparr> in
               case r of
                 Pending \<Rightarrow> (Pending, Streaming guard, w)
               | Ready None \<Rightarrow> (Ready (Some (Inl EndOfStream)), Done, Unlocked guard)
               | Ready (Some (Inl e)) \<Rightarrow> (Ready (Some (Inl (WireDecode e))), Done, Unlocked guard)
               | Ready (Some (Inr msg)) \<Rightarrow>
                   if \<not> more_to_come (msg_operation msg) then
                     (Ready (Some (Inr msg)), Done, Unlocked guard)
                   else (Ready (Some (Inr msg)), Streaming guard, w)))"

definition ProxyClient_call ::
  "'w frame_send
   \<Rightarrow> (unit, ('r, 'w) ProxyClientInner mutex, ('r, 'w) ProxyResponseStream, ProxyClientRequestError) service_call"
  where
  "ProxyClient_call send_frame client req w =
     (let fire_and_forget = more_to_come (msg_operation req) in
      case w of
        Locked \<Rightarrow> (Pending, client, w)
      | Unlocked guard \<Rightarrow>
          (case send_frame (server_writer guard) req of
             (r, writer) \<Rightarrow>
               let guard = guard\<lparr>server_writer := writer\<rparr> in
               case r of
                 Inl e \<Rightarrow> (Ready (Inl (WireEncode e)), client, Unlocked guard)
               | Inr _ \<Rightarrow>
                   if fire_and_forget then (Ready (Inr Done), client, Unlocked guard)
                   else (Ready (Inr (Streaming guard)), client, Locked)))"

lemma poll_done: "ProxyResponseStream_poll_next read_frame Done w = (Ready None, Done, w)"
  by (simp add: ProxyResponseStream_poll_next_def)

lemma poll_pending:
  "read_frame r = (Pending, r1) \<Longrightarrow>
   ProxyResponseStream_poll_next read_frame (Streaming \<lparr>server_reader = r, server_writer = wr\<rparr>) w =
   (Pending, Streaming \<lparr>server_reader = r1, server_writer = wr\<rparr>, w)"
  by (simp add: ProxyResponseStream_poll_next_def)

lemma poll_closed:
  "read_frame r = (Ready None, r1) \<Longrightarrow>
   ProxyResponseStream_poll_next read_frame (Streaming \<lparr>server_reader = r, server_writer = wr\<rparr>) w =
   (Ready (Some (Inl EndOfStream)), Done, Unlocked \<lparr>server_reader = r1, server_writer = wr\<rparr>)"
  by (simp add: ProxyResponseStream_poll_next_def)

lemma poll_frame:
  "read_frame r = (Ready (Some (Inr m)), r1) \<Longrightarrow>
   ProxyResponseStream_poll_next read_frame (Streaming \<lparr>server_reader = r, server_writer = wr\<rparr>) w =
   (Ready (Some (Inr m)),
    if more_to_come (msg_operation m) then (Streaming \<lparr>server_reader = r1, server_writer = wr\<rparr>, w)
    else (Done, Unlocked \<lparr>server_reader = r1, server_writer = wr\<rparr>))"
  by (simp add: ProxyResponseStream_poll_next_def)

lemmas response_polls = poll_done poll_pending poll_closed poll_frame

section \<open>What upstream sends\<close>

text \<open>Polling the reader gives these messages (after any number of pending polls) and
  leaves it in state \<open>r'\<close>.\<close>

inductive reader_yields :: "'r frame_poll \<Rightarrow> 'r \<Rightarrow> Message list \<Rightarrow> 'r \<Rightarrow> bool" for read_frame where
  nothing: "reader_yields read_frame r [] r"
| wait: "read_frame r = (Pending, r1) \<Longrightarrow> reader_yields read_frame r1 ms r' \<Longrightarrow>
     reader_yields read_frame r ms r'"
| frame: "read_frame r = (Ready (Some (Inr m)), r1) \<Longrightarrow> reader_yields read_frame r1 ms r' \<Longrightarrow>
     reader_yields read_frame r (m # ms) r'"

text \<open>The replies to one request: all but the last announce that more come.\<close>

fun reply_group :: "Message list \<Rightarrow> bool" where
  "reply_group [] = False"
| "reply_group [m] = (\<not> more_to_come (msg_operation m))"
| "reply_group (m # ms) = (more_to_come (msg_operation m) \<and> reply_group ms)"

text \<open>What upstream owes for a request: nothing if the request is fire-and-forget.\<close>

definition replies_to :: "Message \<Rightarrow> Message list \<Rightarrow> bool" where
  "replies_to req ms \<longleftrightarrow> (if more_to_come (msg_operation req) then ms = [] else reply_group ms)"

fun send_all :: "'w frame_send \<Rightarrow> 'w \<Rightarrow> Message list \<Rightarrow> 'w option" where
  "send_all send_frame w [] = Some w"
| "send_all send_frame w (m # ms) =
     (case send_frame w m of (Inr _, w) \<Rightarrow> send_all send_frame w ms | _ \<Rightarrow> None)"

lemma send_all_append:
  "send_all send_frame w (a @ b) = Option.bind (send_all send_frame w a) (\<lambda>w. send_all send_frame w b)"
  by (induction a arbitrary: w) (auto split: prod.splits sum.splits)

lemma reply_group_Cons:
  "reply_group (m # ms) \<longleftrightarrow> (if more_to_come (msg_operation m) then reply_group ms else ms = [])"
  by (cases ms) auto

text \<open>A stream that holds the guard delivers one group of replies, takes no frame beyond
  it, and unlocks the mutex.\<close>

lemma response_stream_group:
  "reader_yields read_frame r ms r' \<Longrightarrow> ms = g @ later \<Longrightarrow> reply_group g \<Longrightarrow>
   \<exists>r1. stream_yields (ProxyResponseStream_poll_next read_frame)
           (Streaming \<lparr>server_reader = r, server_writer = writer\<rparr>) w g
           (Unlocked \<lparr>server_reader = r1, server_writer = writer\<rparr>) \<and>
         reader_yields read_frame r1 later r'"
proof (induction arbitrary: g rule: reader_yields.induct)
  case (nothing r)
  then show ?case by simp
next
  case (wait r r1 ms r')
  have "ProxyResponseStream_poll_next read_frame (Streaming \<lparr>server_reader = r, server_writer = writer\<rparr>) w =
      (Pending, Streaming \<lparr>server_reader = r1, server_writer = writer\<rparr>, w)"
    using wait.hyps(1) by (simp add: response_polls)
  with wait.IH [OF wait.prems] show ?case by (auto intro: stream_yields.waiting)
next
  case (frame r m r1 ms r')
  then obtain g' where g: "g = m # g'" and ms: "ms = g' @ later"
    by (cases g) auto
  let ?g = "\<lparr>server_reader = r1, server_writer = writer\<rparr>"
  show ?case
  proof (cases "more_to_come (msg_operation m)")
    case True
    then have "ProxyResponseStream_poll_next read_frame (Streaming \<lparr>server_reader = r, server_writer = writer\<rparr>) w =
        (Ready (Some (Inr m)), Streaming ?g, w)"
      using frame.hyps(1) by (simp add: response_polls)
    with frame.IH [OF ms] frame.prems(2) True show ?thesis
      by (auto simp: g reply_group_Cons intro: stream_yields.item)
  next
    case False
    then have "g' = []" using frame.prems(2) by (simp add: g reply_group_Cons)
    from False have "ProxyResponseStream_poll_next read_frame (Streaming \<lparr>server_reader = r, server_writer = writer\<rparr>) w =
        (Ready (Some (Inr m)), Done, Unlocked ?g)"
      using frame.hyps(1) by (simp add: response_polls)
    moreover have "stream_yields (ProxyResponseStream_poll_next read_frame) Done (Unlocked ?g) [] (Unlocked ?g)"
      by (rule stream_yields.finished) (simp add: response_polls)
    ultimately show ?thesis using frame.hyps(2) ms \<open>g' = []\<close> g by (auto intro: stream_yields.item)
  qed
qed

lemma ProxyClient_answers:
  assumes "reader_yields read_frame reader (ms @ later) r'" "replies_to req ms"
    and "send_frame writer req = (Inr u, writer')"
  shows "\<exists>reader1. answers (ProxyClient_call send_frame) (ProxyResponseStream_poll_next read_frame) ()
             (Unlocked \<lparr>server_reader = reader, server_writer = writer\<rparr>) req ms ()
             (Unlocked \<lparr>server_reader = reader1, server_writer = writer'\<rparr>) \<and>
           reader_yields read_frame reader1 later r'"
proof (cases "more_to_come (msg_operation req)")
  case True
  have "stream_yields (ProxyResponseStream_poll_next read_frame) Done w [] w"
    for w :: "('a, 'b) ProxyClientInner mutex"
    by (rule stream_yields.finished) (simp add: response_polls)
  with True assms show ?thesis
    by (intro exI [of _ reader]) (auto simp: answers_def ProxyClient_call_def replies_to_def)
next
  case False
  let ?guard = "\<lparr>server_reader = reader, server_writer = writer'\<rparr>"
  from response_stream_group [OF assms(1) refl, of writer' Locked] False assms(2)
  obtain r1 where "stream_yields (ProxyResponseStream_poll_next read_frame) (Streaming ?guard) Locked ms
      (Unlocked \<lparr>server_reader = r1, server_writer = writer'\<rparr>)" "reader_yields read_frame r1 later r'"
    by (auto simp: replies_to_def)
  with False assms(3) show ?thesis
    by (auto simp: answers_def ProxyClient_call_def)
qed

lemma ProxyClient_answers_all:
  assumes "list_all2 replies_to reqs mss" "reader_yields read_frame reader (concat mss) r'"
    and "send_all send_frame writer reqs = Some writer'"
  shows "\<exists>reader1. answers_all (ProxyClient_call send_frame) (ProxyResponseStream_poll_next read_frame) ()
             (Unlocked \<lparr>server_reader = reader, server_writer = writer\<rparr>) reqs mss ()
             (Unlocked \<lparr>server_reader = reader1, server_writer = writer'\<rparr>) \<and>
           reader_yields read_frame reader1 [] r'"
  using assms
proof (induction arbitrary: reader writer rule: list_all2_induct)
  case Nil
  then show ?case by (auto intro: answers_all.no_request)
next
  case (Cons req reqs ms mss)
  from Cons.prems(2) obtain u writer1 where s: "send_frame writer req = (Inr u, writer1)"
    and ss: "send_all send_frame writer1 reqs = Some writer'"
    by (auto split: prod.splits sum.splits)
  from Cons.prems(1) have "reader_yields read_frame reader (ms @ concat mss) r'" by simp
  from ProxyClient_answers [OF this Cons.hyps(1), of send_frame] s
  obtain reader1 where a: "answers (ProxyClient_call send_frame) (ProxyResponseStream_poll_next read_frame) ()
      (Unlocked \<lparr>server_reader = reader, server_writer = writer\<rparr>) req ms ()
      (Unlocked \<lparr>server_reader = reader1, server_writer = writer1\<rparr>)"
    and r: "reader_yields read_frame reader1 (concat mss) r'"
    by auto
  from Cons.IH [OF r ss] a show ?case by (auto intro: answers_all.request)
qed

end
