(* ===== verification/RewriteHello.thy ===== *)
theory RewriteHello
  imports ReplyStream BsonRef
begin

text \<open>
  The layer that removes topology-discovery fields from \<open>hello\<close> replies
  (\<open>src/src/serve/rewrite_hello.rs\<close>).
\<close>

section \<open>Stripping a reply\<close>

definition TOPOLOGY_DISCOVERY_FIELDS :: "string list" where
  "TOPOLOGY_DISCOVERY_FIELDS =
     [''setName'', ''setVersion'', ''electionId'', ''hosts'', ''passives'', ''arbiters'',
      ''primary'', ''me'', ''secondary'', ''arbiterOnly'', ''passive'', ''hidden'', ''tags'',
      ''lastWrite'', ''topologyVersion'', ''isreplicaset'']"

definition strip_topology_fields :: "bson_crate \<Rightarrow> document \<Rightarrow> document" where
  "strip_topology_fields B doc = fold (\<lambda>field doc. doc_remove B doc field) TOPOLOGY_DISCOVERY_FIELDS doc"

fun strip_section :: "bson_crate \<Rightarrow> OpMsgSection \<Rightarrow> OpMsgSection" where
  "strip_section B (Body doc) = Body (strip_topology_fields B doc)"
| "strip_section B (DocumentSequence identifier documents) = DocumentSequence identifier documents"

definition strip_topology_from_message :: "bson_crate \<Rightarrow> Message \<Rightarrow> Message" where
  "strip_topology_from_message B msg =
     (case msg_operation msg of
        Operation_Message op_msg \<Rightarrow>
          msg\<lparr>msg_operation :=
            Operation_Message (op_msg\<lparr>om_sections := map (strip_section B) (om_sections op_msg)\<rparr>)\<rparr>
      | Operation_Reply op_reply \<Rightarrow>
          msg\<lparr>msg_operation :=
            Operation_Reply (op_reply\<lparr>or_documents := map (strip_topology_fields B) (or_documents op_reply)\<rparr>)\<rparr>
      | Operation_Query _ \<Rightarrow> msg)"

definition is_hello_request :: "Message \<Rightarrow> bool" where
  "is_hello_request msg \<longleftrightarrow>
     Operation_command_name (msg_operation msg) \<in>
       {Some ''hello'', Some ''isMaster'', Some ''ismaster''}"

section \<open>The layer\<close>

record RewriteHelloLayer =
  rhl_enabled :: bool

definition RewriteHelloLayer_enabled :: RewriteHelloLayer where
  "RewriteHelloLayer_enabled = \<lparr>rhl_enabled = True\<rparr>"

definition RewriteHelloLayer_disabled :: RewriteHelloLayer where
  "RewriteHelloLayer_disabled = \<lparr>rhl_enabled = False\<rparr>"

definition RewriteHelloLayer_default :: RewriteHelloLayer where
  "RewriteHelloLayer_default = RewriteHelloLayer_enabled"

record 's RewriteHelloService =
  rhs_inner :: 's
  rhs_enabled :: bool

definition RewriteHelloLayer_layer :: "RewriteHelloLayer \<Rightarrow> 's \<Rightarrow> 's RewriteHelloService" where
  "RewriteHelloLayer_layer l inner = \<lparr>rhs_inner = inner, rhs_enabled = rhl_enabled l\<rparr>"

record 'st RewriteHelloStream =
  rht_inner :: 'st
  rht_rewrite :: bool

definition RewriteHelloService_call ::
  "('s, 'w, 'st, 'e) service_call
   \<Rightarrow> ('s RewriteHelloService, 'w, 'st RewriteHelloStream, 'e) service_call" where
  "RewriteHelloService_call call svc req w =
     (let rewrite = (rhs_enabled svc \<and> is_hello_request req) in
      case call (rhs_inner svc) req w of
        (r, inner, w) \<Rightarrow>
          (map_ready (\<lambda>r. res_bind r (\<lambda>inner. Inr \<lparr>rht_inner = inner, rht_rewrite = rewrite\<rparr>)) r,
           svc\<lparr>rhs_inner := inner\<rparr>, w))"

definition RewriteHelloStream_poll_next ::
  "bson_crate \<Rightarrow> ('st, 'w, 'e) reply_poll \<Rightarrow> ('st RewriteHelloStream, 'w, 'e) reply_poll" where
  "RewriteHelloStream_poll_next B poll_next s w =
     (case poll_next (rht_inner s) w of
        (r, inner, w) \<Rightarrow>
          let s = s\<lparr>rht_inner := inner\<rparr> in
          (case r of
             Pending \<Rightarrow> Pending
           | Ready None \<Rightarrow> Ready None
           | Ready (Some (Inl e)) \<Rightarrow> Ready (Some (Inl e))
           | Ready (Some (Inr msg)) \<Rightarrow>
               Ready (Some (Inr (if rht_rewrite s then strip_topology_from_message B msg else msg))),
           s, w))"

definition rewrite_reply :: "bson_crate \<Rightarrow> 'st RewriteHelloStream \<Rightarrow> Message \<Rightarrow> Message" where
  "rewrite_reply B s = (if rht_rewrite s then strip_topology_from_message B else (\<lambda>m. m))"

interpretation rewrite_stream:
  reply_stream_layer poll_next "RewriteHelloStream_poll_next B poll_next" rht_inner "\<lambda>w. w"
    "rewrite_reply B"
  for B and poll_next :: "('st, 'w, 'e) reply_poll"
  by unfold_locales
    (auto simp: RewriteHelloStream_poll_next_def rewrite_reply_def Let_def
      split: poll.splits option.splits sum.splits)

text \<open>What the client gets for an upstream reply to \<open>req\<close>.\<close>

definition deliver :: "bson_crate \<Rightarrow> bool \<Rightarrow> Message \<Rightarrow> Message \<Rightarrow> Message" where
  "deliver B enabled req m =
     (if enabled \<and> is_hello_request req then strip_topology_from_message B m else m)"

lemma rewrite_answers:
  assumes "answers call poll_next (rhs_inner svc) w req ms i' w'"
  shows "answers (RewriteHelloService_call call) (RewriteHelloStream_poll_next B poll_next) svc w req
           (map (deliver B (rhs_enabled svc) req) ms) (svc\<lparr>rhs_inner := i'\<rparr>) w'"
proof -
  from assms obtain st w1 where c: "call (rhs_inner svc) req w = (Ready (Inr st), i', w1)"
    and y: "stream_yields poll_next st w1 ms w'"
    by (auto simp: answers_def)
  let ?t = "\<lparr>rht_inner = st, rht_rewrite = rhs_enabled svc \<and> is_hello_request req\<rparr>"
  have "RewriteHelloService_call call svc req w = (Ready (Inr ?t), svc\<lparr>rhs_inner := i'\<rparr>, w1)"
    using c by (simp add: RewriteHelloService_call_def Let_def)
  moreover have "rewrite_reply B ?t = deliver B (rhs_enabled svc) req"
    by (auto simp: rewrite_reply_def deliver_def)
  then have "stream_yields (RewriteHelloStream_poll_next B poll_next) ?t w1
      (map (deliver B (rhs_enabled svc) req) ms) w'"
    using rewrite_stream.stream_yields_layer [OF y, of ?t w1 B] by simp
  ultimately show ?thesis by (auto simp: answers_def)
qed

lemma rewrite_answers_all:
  "answers_all call poll_next i w reqs mss i' w' \<Longrightarrow> i = rhs_inner svc \<Longrightarrow>
   answers_all (RewriteHelloService_call call) (RewriteHelloStream_poll_next B poll_next) svc w reqs
     (map2 (\<lambda>req. map (deliver B (rhs_enabled svc) req)) reqs mss) (svc\<lparr>rhs_inner := i'\<rparr>) w'"
proof (induction arbitrary: svc rule: answers_all.induct)
  case (no_request i w)
  then show ?case by (simp add: answers_all.no_request)
next
  case (request i w req ms i1 w1 reqs mss i' w')
  from request.IH [of "svc\<lparr>rhs_inner := i1\<rparr>"] rewrite_answers [of call poll_next svc w req ms i1 w1 B]
    request.hyps(1) request.prems
  show ?case by (auto intro: answers_all.request)
qed

section \<open>What stripping does to a document\<close>

text \<open>The documents of a message that the layer edits.\<close>

definition reply_documents :: "Message \<Rightarrow> document list" where
  "reply_documents m =
     (case msg_operation m of
        Operation_Message x \<Rightarrow> List.map_filter as_body (om_sections x)
      | Operation_Reply x \<Rightarrow> or_documents x
      | Operation_Query _ \<Rightarrow> [])"

text \<open>The fields by which drivers discover a topology, as the replica-set part of a \<open>hello\<close> reply has them.\<close>

definition topology_field :: "string \<Rightarrow> bool" where
  "topology_field k \<longleftrightarrow> k \<in>
     {''setName'', ''setVersion'', ''electionId'', ''topologyVersion'', ''isreplicaset'', ''hosts'', ''passives'',
      ''arbiters'', ''primary'', ''me'', ''secondary'', ''arbiterOnly'', ''passive'', ''hidden'', ''tags'', ''lastWrite''}"

text \<open>A message without the contents of these documents: its ids, flags, checksum, cursor, the kinds and the
  order of its sections, and its document sequences.\<close>

fun blank_section :: "OpMsgSection \<Rightarrow> OpMsgSection" where
  "blank_section (Body _) = Body []"
| "blank_section (DocumentSequence identifier documents) = DocumentSequence identifier documents"

definition blank_documents :: "Message \<Rightarrow> Message" where
  "blank_documents m =
     m\<lparr>msg_operation :=
       (case msg_operation m of
          Operation_Message x \<Rightarrow> Operation_Message (x\<lparr>om_sections := map blank_section (om_sections x)\<rparr>)
        | Operation_Reply x \<Rightarrow> Operation_Reply (x\<lparr>or_documents := map (\<lambda>_. []) (or_documents x)\<rparr>)
        | Operation_Query x \<Rightarrow> Operation_Query x)\<rparr>"

text \<open>A reply that differs from the one of upstream exactly by the topology fields at the top level of
  these documents (the crate keeps the keys of a document distinct).\<close>

definition topology_removed :: "Message \<Rightarrow> Message \<Rightarrow> bool" where
  "topology_removed m0 m \<longleftrightarrow>
     blank_documents m = blank_documents m0 \<and>
     list_all2 (\<lambda>d0 d. distinct (doc_keys d0) \<longrightarrow>
         (\<forall>k. doc_get d k = (if topology_field k then None else doc_get d0 k)))
       (reply_documents m0) (reply_documents m)"

lemma topology_fields: "k \<in> set TOPOLOGY_DISCOVERY_FIELDS \<longleftrightarrow> topology_field k"
  by (auto simp: TOPOLOGY_DISCOVERY_FIELDS_def topology_field_def)

lemma blank_documents_strip: "blank_documents (strip_topology_from_message B m) = blank_documents m"
proof -
  have "blank_section (strip_section B s) = blank_section s" for s by (cases s) simp_all
  then show ?thesis
    by (auto simp: blank_documents_def strip_topology_from_message_def split: Operation.splits)
qed

lemma rel_poll_map_item:
  "(\<And>m. R m (f m)) \<Longrightarrow> rel_poll (rel_option (rel_sum (=) R)) r (map_item f r)"
  by (cases "(f, r)" rule: map_item.cases) (auto simp: option.rel_refl sum.rel_refl)

context bson_document
begin

lemma strip_topology_fields_get:
  assumes "distinct (doc_keys d)"
  shows "doc_get (strip_topology_fields B d) =
           (\<lambda>k. if k \<in> set TOPOLOGY_DISCOVERY_FIELDS then None else doc_get d k)"
    and "distinct (doc_keys (strip_topology_fields B d))"
  using fold_remove [OF assms] by (simp_all add: strip_topology_fields_def)

lemma reply_documents_strip:
  "reply_documents (strip_topology_from_message B m) =
     map (strip_topology_fields B) (reply_documents m)"
proof -
  have "List.map_filter as_body (map (strip_section B) ss) =
      map (strip_topology_fields B) (List.map_filter as_body ss)" for ss
  proof (induction ss)
    case (Cons s ss)
    then show ?case by (cases s) (auto simp: List.map_filter_def)
  qed (simp add: List.map_filter_def)
  then show ?thesis
    by (auto simp: reply_documents_def strip_topology_from_message_def split: Operation.splits)
qed

lemma topology_removed_strip: "topology_removed m (strip_topology_from_message B m)"
  by (simp add: topology_removed_def blank_documents_strip reply_documents_strip list.rel_map list_all2_same
      strip_topology_fields_get(1) topology_fields)

end

section \<open>Properties\<close>

definition sample_hello_reply :: Message where
  "sample_hello_reply = \<lparr>msg_request_id = RequestId 9, msg_response_to = Some (ResponseTo 7),
     msg_operation = Operation_Message \<lparr>om_flags = CHECKSUM_PRESENT,
       om_sections = [Body [(''setName'', String ''rs0''), (''ok'', Int32 1)]],
       om_checksum = Some 0xDEADBEEF\<rparr>\<rparr>"

definition sample_hello_request :: Message where
  "sample_hello_request = \<lparr>msg_request_id = RequestId 7, msg_response_to = None,
     msg_operation = Operation_Message \<lparr>om_flags = 0,
       om_sections = [Body [(''hello'', Int32 1)]], om_checksum = None\<rparr>\<rparr>"

text \<open>C25. With the rewrite enabled, a \<open>hello\<close> request goes to the inner service as it is, and what the client
  polls is, one for one and in order, what the inner stream yields: pending results, errors and the
  end as they are, and every reply without the topology-discovery fields at the top level of its
  documents and otherwise as upstream sent it, with all other fields of these documents, ids, flags,
  checksum, cursor and document sequences.\<close>

theorem hello_replies_stripped:
  assumes "bson_document B" "rhs_enabled svc" "is_hello_request req"
    and "RewriteHelloService_call call svc req w = (Ready (Inr s), svc', w')"
  shows "\<exists>st. call (rhs_inner svc) req w = (Ready (Inr st), rhs_inner svc', w') \<and>
    list_all2 (rel_poll (rel_option (rel_sum (=) topology_removed)))
      (polled poll_next n st w') (polled (RewriteHelloStream_poll_next B poll_next) n s w')"
proof -
  obtain r i w1 where c: "call (rhs_inner svc) req w = (r, i, w1)"
    by (cases "call (rhs_inner svc) req w")
  from assms(2-4) c obtain st where st: "call (rhs_inner svc) req w = (Ready (Inr st), rhs_inner svc', w')"
    and s: "s = \<lparr>rht_inner = st, rht_rewrite = True\<rparr>"
    by (cases r) (auto simp: RewriteHelloService_call_def result_simps)
  have "polled (RewriteHelloStream_poll_next B poll_next) n s w' =
      map (map_item (strip_topology_from_message B)) (polled poll_next n st w')"
    by (simp add: rewrite_stream.polled_layer s rewrite_reply_def)
  with st show ?thesis
    using bson_document.topology_removed_strip [OF assms(1)]
    by (auto simp: list.rel_map list_all2_same intro: rel_poll_map_item)
qed

theorem hello_replies_stripped_witness:
  "topology_removed sample_hello_reply (strip_topology_from_message reference_bson sample_hello_reply)"
proof -
  let ?svc = "RewriteHelloLayer_layer RewriteHelloLayer_default ()"
  let ?w = "[Ready (Some (Inr sample_hello_reply))] :: (unit + Message) option poll list"
  let ?call = "\<lambda>s req w. (Ready (Inr ()), s, w)"
  let ?s = "\<lparr>rht_inner = (), rht_rewrite = True\<rparr>"
  have b: "bson_document reference_bson" by unfold_locales
  have e: "rhs_enabled ?svc" "is_hello_request sample_hello_request" by code_simp+
  have "RewriteHelloService_call ?call ?svc sample_hello_request ?w = (Ready (Inr ?s), ?svc, ?w)"
    using e by (simp add: RewriteHelloService_call_def RewriteHelloLayer_layer_def)
  from hello_replies_stripped [OF b e this, of playback "Suc 0"] show ?thesis
    by (simp add: RewriteHelloStream_poll_next_def)
qed

text \<open>C26. Everything else passes through the layer untouched: if the rewrite is disabled
  or the request is not a \<open>hello\<close>, the inner service is called with the very
  request and the client polls exactly what the inner stream yields.\<close>

theorem other_replies_untouched:
  assumes "\<not> (rhs_enabled svc \<and> is_hello_request req)"
    and "RewriteHelloService_call call svc req w = (Ready (Inr s), svc', w')"
  shows "\<exists>st. call (rhs_inner svc) req w = (Ready (Inr st), rhs_inner svc', w') \<and>
           polled (RewriteHelloStream_poll_next B poll_next) n s w' = polled poll_next n st w'"
proof -
  obtain r i w1 where c: "call (rhs_inner svc) req w = (r, i, w1)"
    by (cases "call (rhs_inner svc) req w")
  from assms c obtain st where st: "call (rhs_inner svc) req w = (Ready (Inr st), rhs_inner svc', w')"
    and s: "s = \<lparr>rht_inner = st, rht_rewrite = False\<rparr>"
    by (cases r) (auto simp: RewriteHelloService_call_def result_simps)
  have "rewrite_reply B s = (\<lambda>m. m)" by (simp add: s rewrite_reply_def)
  from rewrite_stream.polled_unchanged [OF this, of poll_next n w'] st s show ?thesis by simp
qed

theorem other_replies_untouched_witness:
  "polled (RewriteHelloStream_poll_next reference_bson playback) 2 \<lparr>rht_inner = (), rht_rewrite = False\<rparr>
     [Ready (Some (Inr sample_hello_reply)) :: (unit + Message) option poll] =
   [Ready (Some (Inr sample_hello_reply)), Ready None]"
proof -
  let ?svc = "RewriteHelloLayer_layer RewriteHelloLayer_disabled ()"
  let ?w = "[Ready (Some (Inr sample_hello_reply))] :: (unit + Message) option poll list"
  let ?call = "\<lambda>s req w. (Ready (Inr ()), s, w)"
  have off: "\<not> rhs_enabled ?svc" by code_simp
  then have "RewriteHelloService_call ?call ?svc sample_hello_request ?w =
      (Ready (Inr \<lparr>rht_inner = (), rht_rewrite = False\<rparr>), ?svc, ?w)"
    by (simp add: RewriteHelloService_call_def RewriteHelloLayer_layer_def)
  from other_replies_untouched [OF _ this, of reference_bson playback 2] off
  show ?thesis by (simp add: numeral_2_eq_2)
qed

text \<open>The rewrite edits the body of a reply but leaves its checksum: a reply with a
  checksum goes to the client with the flag set, an edited body and the checksum of the
  original body.\<close>

lemma stripped_reply_keeps_checksum:
  "case msg_operation (strip_topology_from_message reference_bson sample_hello_reply) of
     Operation_Message x \<Rightarrow> om_checksum x = Some 0xDEADBEEF \<and> om_flags x = CHECKSUM_PRESENT \<and>
       om_sections x = [Body [(''ok'', Int32 1)]]
   | _ \<Rightarrow> False"
  by code_simp

end
