(* ===== verification/Serve.thy ===== *)
theory Serve
  imports Client RewriteHello
begin

text \<open>
  The runtime (\<open>src/src/serve/mod.rs\<close>): the forwarding loop of one connection and the
  accept loop with its shutdown. What the client's framed reader yields until end of
  file is a list of items; the client's framed writer is a parameter like the
  upstream one.
\<close>

section \<open>One connection\<close>

datatype 'e AcceptClientError =
    DecodeFromClient WireDecoderError
  | UpstreamRequest 'e
  | UpstreamResponse 'e
  | EncodeToClient WireEncoderError

text \<open>The inner loop, \<open>while let Some(resp) = response_stream.next().await\<close>. A stream may go on
  for ever, then the loop does not return and its value is \<open>None\<close>.\<close>

partial_function (option) forward_replies ::
  "('st, 'w, 'e) reply_poll \<Rightarrow> 'c frame_send \<Rightarrow> 'st \<Rightarrow> 'w \<Rightarrow> 'c
   \<Rightarrow> (('e AcceptClientError + unit) \<times> 'w \<times> 'c) option" where
  "forward_replies poll_next client_send st w c =
     (case poll_next st w of
        (Pending, st, w) \<Rightarrow> forward_replies poll_next client_send st w c
      | (Ready None, st, w) \<Rightarrow> Some (Inr (), w, c)
      | (Ready (Some (Inl e)), st, w) \<Rightarrow> Some (Inl (UpstreamResponse e), w, c)
      | (Ready (Some (Inr resp)), st, w) \<Rightarrow>
          (case client_send c resp of
             (Inl e, c) \<Rightarrow> Some (Inl (EncodeToClient e), w, c)
           | (Inr _, c) \<Rightarrow> forward_replies poll_next client_send st w c))"

text \<open>The outer loop. A call that waits for ever does not return either.\<close>

fun accept_client_inner ::
  "('s, 'w, 'st, 'e) service_call \<Rightarrow> ('st, 'w, 'e) reply_poll \<Rightarrow> 'c frame_send
   \<Rightarrow> (WireDecoderError + Message) list \<Rightarrow> 's \<Rightarrow> 'w \<Rightarrow> 'c
   \<Rightarrow> (('e AcceptClientError + unit) \<times> 's \<times> 'w \<times> 'c) option" where
  "accept_client_inner call poll_next client_send [] service w c = Some (Inr (), service, w, c)"
| "accept_client_inner call poll_next client_send (Inl e # _) service w c =
     Some (Inl (DecodeFromClient e), service, w, c)"
| "accept_client_inner call poll_next client_send (Inr client_req # reqs) service w c =
     (case call service client_req w of
        (Pending, _, _) \<Rightarrow> None
      | (Ready (Inl e), service, w) \<Rightarrow> Some (Inl (UpstreamRequest e), service, w, c)
      | (Ready (Inr response_stream), service, w) \<Rightarrow>
          (case forward_replies poll_next client_send response_stream w c of
             None \<Rightarrow> None
           | Some (Inl e, w, c) \<Rightarrow> Some (Inl e, service, w, c)
           | Some (Inr _, w, c) \<Rightarrow> accept_client_inner call poll_next client_send reqs service w c))"

text \<open>The task of a connection and what it logs. \<open>service_fut\<close> is the outcome of the make-service: an
  error is logged and nothing is forwarded.\<close>

datatype ('me, 'e) conn_event =
    ConnectionAccepted
  | ConnectionClosed
  | ConnectionTerminated "'e AcceptClientError"
  | UpstreamServiceFailed 'me

definition accept_client ::
  "('s, 'w, 'st, 'e) service_call \<Rightarrow> ('st, 'w, 'e) reply_poll \<Rightarrow> 'c frame_send
   \<Rightarrow> (WireDecoderError + Message) list \<Rightarrow> 's \<Rightarrow> 'w \<Rightarrow> 'c
   \<Rightarrow> (('me, 'e) conn_event list \<times> 'w \<times> 'c) option" where
  "accept_client call poll_next client_send items service w c =
     (case accept_client_inner call poll_next client_send items service w c of
        None \<Rightarrow> None
      | Some (Inr _, _, w, c) \<Rightarrow> Some ([ConnectionClosed], w, c)
      | Some (Inl e, _, w, c) \<Rightarrow> Some ([ConnectionTerminated e], w, c))"

definition connection_task ::
  "('s, 'w, 'st, 'e) service_call \<Rightarrow> ('st, 'w, 'e) reply_poll \<Rightarrow> 'c frame_send
   \<Rightarrow> (WireDecoderError + Message) list \<Rightarrow> 'me + 's \<times> 'w \<Rightarrow> 'c
   \<Rightarrow> (('me, 'e) conn_event list \<times> 'w option \<times> 'c) option" where
  "connection_task call poll_next client_send items service_fut c =
     (case service_fut of
        Inl e \<Rightarrow> Some ([ConnectionAccepted, UpstreamServiceFailed e], None, c)
      | Inr (service, w) \<Rightarrow>
          map_option (\<lambda>(events, w, c). (ConnectionAccepted # events, Some w, c))
            (accept_client call poll_next client_send items service w c))"

lemma forward_replies_yields:
  "stream_yields poll_next st w ms w' \<Longrightarrow> send_all client_send c ms = Some c' \<Longrightarrow>
   forward_replies poll_next client_send st w c = Some (Inr (), w', c')"
proof (induction arbitrary: c rule: stream_yields.induct)
  case (finished s w s' w')
  then show ?case by (subst forward_replies.simps) simp
next
  case (waiting s w s1 w1 ms w')
  then show ?case by (subst forward_replies.simps) simp
next
  case (item s w m s1 w1 ms w')
  from item.prems obtain u c1 where "client_send c m = (Inr u, c1)" "send_all client_send c1 ms = Some c'"
    by (auto split: prod.splits sum.splits)
  with item show ?case by (subst forward_replies.simps) simp
qed

lemma accept_client_inner_answers:
  "answers_all call poll_next svc w reqs mss svc' w' \<Longrightarrow>
   send_all client_send c (concat mss) = Some c' \<Longrightarrow>
   accept_client_inner call poll_next client_send (map Inr reqs @ items) svc w c =
   accept_client_inner call poll_next client_send items svc' w' c'"
proof (induction arbitrary: c rule: answers_all.induct)
  case (no_request svc w)
  then show ?case by simp
next
  case (request svc w req ms svc1 w1 reqs mss svc' w')
  from request.hyps(1) obtain st w0 where "call svc req w = (Ready (Inr st), svc1, w0)"
    and y: "stream_yields poll_next st w0 ms w1"
    by (auto simp: answers_def)
  moreover from request.prems obtain c1 where c1: "send_all client_send c ms = Some c1"
    and "send_all client_send c1 (concat mss) = Some c'"
    by (auto simp: send_all_append bind_eq_Some_conv)
  ultimately show ?case using request.IH forward_replies_yields [OF y c1] by simp
qed

section \<open>The default stack\<close>

text \<open>What \<open>Proxy::call\<close> puts around the upstream client when no further layer is added.\<close>

abbreviation stack_call ::
  "'w frame_send \<Rightarrow> (unit RewriteHelloService, ('r, 'w) ProxyClientInner mutex,
     ('r, 'w) ProxyResponseStream RewriteHelloStream, ProxyClientRequestError) service_call" where
  "stack_call send_frame \<equiv> RewriteHelloService_call (ProxyClient_call send_frame)"

abbreviation stack_poll ::
  "bson_crate \<Rightarrow> 'r frame_poll \<Rightarrow> (('r, 'w) ProxyResponseStream RewriteHelloStream,
     ('r, 'w) ProxyClientInner mutex, ProxyClientRequestError) reply_poll" where
  "stack_poll B read_frame \<equiv> RewriteHelloStream_poll_next B (ProxyResponseStream_poll_next read_frame)"

text \<open>Simple halves of a socket for evaluation: a reader that plays back what arrives,
  and a writer that records what is sent.\<close>

fun read_script :: "(WireDecoderError + Message) option poll list frame_poll" where
  "read_script [] = (Ready None, [])"
| "read_script (r # rs) = (r, rs)"

definition record_send :: "Message list frame_send" where
  "record_send w m = (Inr (), w @ [m])"

lemma send_all_record: "send_all record_send w ms = Some (w @ ms)"
  by (induction ms arbitrary: w) (simp_all add: record_send_def)

lemma reader_yields_script:
  "reader_yields read_script (map (\<lambda>m. Ready (Some (Inr m))) ms) ms []"
  by (induction ms) (auto intro: reader_yields.intros)

section \<open>The accept loop\<close>

record ('l, 'm) Serve =
  sv_listener :: 'l
  sv_make_service :: 'm

definition serve :: "'l \<Rightarrow> 'm \<Rightarrow> ('l, 'm) Serve" where
  "serve listener make_service = \<lparr>sv_listener = listener, sv_make_service = make_service\<rparr>"

datatype ServeError = Accept io_error

text \<open>Where \<open>run_until\<close> is: in its loop, waiting for the connections it has spawned, or
  returned.\<close>

datatype serve_phase = Accepting | Draining | Returned "ServeError + unit"

record serve_state =
  sv_phase :: serve_phase
  sv_next_conn_id :: u64 \<comment> \<open>\<open>NEXT_CONN_ID\<close>\<close>
  sv_running :: "u64 list" \<comment> \<open>tasks of the join set that still run\<close>
  sv_finished :: "u64 list" \<comment> \<open>tasks of the join set that have finished\<close>
  sv_spawned :: "u64 list" \<comment> \<open>every connection ever accepted\<close>
  sv_completed :: "u64 set" \<comment> \<open>the connections whose task ran to its end\<close>

definition serve_start :: "u64 \<Rightarrow> serve_state" where
  "serve_start n = \<lparr>sv_phase = Accepting, sv_next_conn_id = n, sv_running = [], sv_finished = [],
     sv_spawned = [], sv_completed = {}\<rparr>"

text \<open>\<open>fetch_add(1)\<close> on the process-wide counter.\<close>

definition next_conn_id :: "serve_state \<Rightarrow> u64 \<times> serve_state" where
  "next_conn_id s = (sv_next_conn_id s, s\<lparr>sv_next_conn_id := sv_next_conn_id s + 1\<rparr>)"

text \<open>The arms of the \<open>select!\<close>, the drain loop, and the progress of the spawned tasks.
  Returning drops the join set, which aborts what still runs.\<close>

inductive serve_step :: "serve_state \<Rightarrow> serve_state \<Rightarrow> bool" where
  shutdown: "sv_phase s = Accepting \<Longrightarrow> serve_step s (s\<lparr>sv_phase := Draining\<rparr>)"
| accept_failed: "sv_phase s = Accepting \<Longrightarrow>
     serve_step s (s\<lparr>sv_phase := Returned (Inl (Accept e)), sv_running := [], sv_finished := []\<rparr>)"
| accepted: "sv_phase s = Accepting \<Longrightarrow> next_conn_id s = (c, t) \<Longrightarrow>
     serve_step s (t\<lparr>sv_running := sv_running t @ [c], sv_spawned := sv_spawned t @ [c]\<rparr>)"
| reaped: "sv_phase s = Accepting \<Longrightarrow> c \<in> set (sv_finished s) \<Longrightarrow>
     serve_step s (s\<lparr>sv_finished := remove1 c (sv_finished s)\<rparr>)"
| joined: "sv_phase s = Draining \<Longrightarrow> c \<in> set (sv_finished s) \<Longrightarrow>
     serve_step s (s\<lparr>sv_finished := remove1 c (sv_finished s)\<rparr>)"
| drained: "sv_phase s = Draining \<Longrightarrow> sv_running s = [] \<Longrightarrow> sv_finished s = [] \<Longrightarrow>
     serve_step s (s\<lparr>sv_phase := Returned (Inr ())\<rparr>)"
| task_finished: "c \<in> set (sv_running s) \<Longrightarrow>
     serve_step s (s\<lparr>sv_running := remove1 c (sv_running s), sv_finished := c # sv_finished s,
       sv_completed := insert c (sv_completed s)\<rparr>)"

inductive serve_reachable :: "u64 \<Rightarrow> serve_state \<Rightarrow> bool" for n where
  start: "serve_reachable n (serve_start n)"
| step: "serve_reachable n s \<Longrightarrow> serve_step s t \<Longrightarrow> serve_reachable n t"

text \<open>\<open>run\<close>, and with it the future of \<open>Serve\<close>, is \<open>run_until\<close> with a shutdown that never resolves:
  its runs are those without the shutdown step.\<close>

inductive run_reachable :: "u64 \<Rightarrow> serve_state \<Rightarrow> bool" for n where
  start: "run_reachable n (serve_start n)"
| step: "run_reachable n s \<Longrightarrow> serve_step s t \<Longrightarrow> sv_phase t \<noteq> Draining \<Longrightarrow> run_reachable n t"

inductive_cases serve_stepE: "serve_step s t"

text \<open>The invariant: connection ids are handed out in sequence, and a connection that is
  neither running nor completed exists only after an accept error.\<close>

definition serve_ids :: "u64 \<Rightarrow> serve_state \<Rightarrow> bool" where
  "serve_ids n s \<longleftrightarrow>
     sv_spawned s = map (\<lambda>i. n + word_of_nat i) [0..<length (sv_spawned s)] \<and>
     sv_next_conn_id s = n + word_of_nat (length (sv_spawned s))"

definition serve_accounted :: "serve_state \<Rightarrow> bool" where
  "serve_accounted s \<longleftrightarrow>
     (\<forall>e. sv_phase s \<noteq> Returned (Inl e)) \<longrightarrow>
     set (sv_spawned s) \<subseteq> set (sv_running s) \<union> sv_completed s"

lemma serve_ids_step: "serve_step s t \<Longrightarrow> serve_ids n s \<Longrightarrow> serve_ids n t"
  by (induction rule: serve_step.induct) (auto simp: serve_ids_def next_conn_id_def ac_simps)

lemma set_subset_remove1: "set xs \<subseteq> insert c (set (remove1 c xs))"
  by (induction xs) auto

lemma serve_accounted_step: "serve_step s t \<Longrightarrow> serve_accounted s \<Longrightarrow> serve_accounted t"
proof (induction rule: serve_step.induct)
  case (task_finished c s)
  then show ?case using set_subset_remove1 [of "sv_running s" c]
    by (fastforce simp: serve_accounted_def)
qed (auto simp: serve_accounted_def next_conn_id_def)

lemma serve_reachable_inv: "serve_reachable n s \<Longrightarrow> serve_ids n s \<and> serve_accounted s"
proof (induction rule: serve_reachable.induct)
  case start
  then show ?case by (simp add: serve_ids_def serve_accounted_def serve_start_def)
next
  case (step s t)
  then show ?case using serve_ids_step serve_accounted_step by blast
qed

lemma returned_idle: "serve_reachable n s \<Longrightarrow> sv_phase s = Returned r \<Longrightarrow> sv_running s = []"
  by (induction rule: serve_reachable.induct)
    (auto simp: serve_start_def next_conn_id_def elim!: serve_stepE)

text \<open>Without a shutdown the loop ends with an accept error or not at all.\<close>

lemma run_never_ok: "run_reachable n s \<Longrightarrow> sv_phase s = Accepting \<or> (\<exists>e. sv_phase s = Returned (Inl (Accept e)))"
  by (induction rule: run_reachable.induct)
    (auto simp: serve_start_def next_conn_id_def elim!: serve_stepE)

lemma run_reachable_serve: "run_reachable n s \<Longrightarrow> serve_reachable n s"
  by (induction rule: run_reachable.induct) (auto intro: serve_reachable.intros)

section \<open>Properties\<close>

text \<open>C2. The proxy forwards a whole session faithfully. If upstream answers each request
  as the protocol says (nothing for a fire-and-forget request, otherwise a chain of
  replies of which all but the last announce more), then for any number of
  requests and any delays the forwarding loop ends without error, upstream has been sent
  exactly the client's requests in order, the client has been sent exactly the replies,
  each with the request it belongs to and rewritten exactly if that was a \<open>hello\<close>, and
  the upstream connection is unlocked again.\<close>

theorem session_forwarded:
  assumes "list_all2 replies_to reqs replies"
    and "reader_yields read_frame reader (concat replies) reader'"
    and "send_all send_frame writer reqs = Some writer'"
    and "send_all client_send c (concat (map2 (\<lambda>req. map (deliver B enabled req)) reqs replies)) = Some c'"
  shows "\<exists>reader1.
    accept_client_inner (stack_call send_frame) (stack_poll B read_frame) client_send
      (map Inr reqs) \<lparr>rhs_inner = (), rhs_enabled = enabled\<rparr>
      (Unlocked \<lparr>server_reader = reader, server_writer = writer\<rparr>) c =
    Some (Inr (), \<lparr>rhs_inner = (), rhs_enabled = enabled\<rparr>,
      Unlocked \<lparr>server_reader = reader1, server_writer = writer'\<rparr>, c') \<and>
    reader_yields read_frame reader1 [] reader'"
proof -
  from ProxyClient_answers_all [OF assms(1-3)] obtain reader1 where
    a: "answers_all (ProxyClient_call send_frame) (ProxyResponseStream_poll_next read_frame) ()
      (Unlocked \<lparr>server_reader = reader, server_writer = writer\<rparr>) reqs replies ()
      (Unlocked \<lparr>server_reader = reader1, server_writer = writer'\<rparr>)"
    and r: "reader_yields read_frame reader1 [] reader'"
    by blast
  from accept_client_inner_answers [OF rewrite_answers_all
      [OF a, of "\<lparr>rhs_inner = (), rhs_enabled = enabled\<rparr>" B], of client_send c c' "[]"] assms(4) r
  show ?thesis by auto
qed

theorem session_forwarded_witness:
  "\<exists>reader1.
    accept_client_inner (stack_call record_send) (stack_poll reference_bson read_script) record_send
      (map Inr [sample_hello_request, ping_message]) \<lparr>rhs_inner = (), rhs_enabled = True\<rparr>
      (Unlocked \<lparr>server_reader = map (\<lambda>m. Ready (Some (Inr m))) (concat [[sample_hello_reply], [ping_message]]),
         server_writer = []\<rparr>) [] =
    Some (Inr (), \<lparr>rhs_inner = (), rhs_enabled = True\<rparr>,
      Unlocked \<lparr>server_reader = reader1, server_writer = [] @ [sample_hello_request, ping_message]\<rparr>,
      [] @ concat (map2 (\<lambda>req. map (deliver reference_bson True req))
        [sample_hello_request, ping_message] [[sample_hello_reply], [ping_message]])) \<and>
    reader_yields read_script reader1 [] []"
proof (rule session_forwarded)
  have "replies_to sample_hello_request [sample_hello_reply]" "replies_to ping_message [ping_message]"
    by code_simp+
  then show "list_all2 replies_to [sample_hello_request, ping_message] [[sample_hello_reply], [ping_message]]"
    by simp
qed (rule reader_yields_script send_all_record)+

text \<open>C30. If upstream closes the connection in the middle of a reply chain, the client has
  still been sent every reply that arrived before, and the connection ends with
  \<open>EndOfStream\<close>, not silently.\<close>

theorem upstream_close_reported:
  assumes "\<not> more_to_come (msg_operation req)" "send_frame writer req = (Inr u, writer')"
    and "reader_yields read_frame reader ms reader1" "read_frame reader1 = (Ready None, reader2)"
    and "list_all (\<lambda>m. more_to_come (msg_operation m)) ms" "send_all client_send c ms = Some c'"
  shows "accept_client_inner (ProxyClient_call send_frame) (ProxyResponseStream_poll_next read_frame)
      client_send (Inr req # items) () (Unlocked \<lparr>server_reader = reader, server_writer = writer\<rparr>) c =
    Some (Inl (UpstreamResponse EndOfStream), (),
      Unlocked \<lparr>server_reader = reader2, server_writer = writer'\<rparr>, c')"
proof -
  have "forward_replies (ProxyResponseStream_poll_next read_frame) client_send
      (Streaming \<lparr>server_reader = reader, server_writer = writer'\<rparr>) Locked c =
    Some (Inl (UpstreamResponse EndOfStream), Unlocked \<lparr>server_reader = reader2, server_writer = writer'\<rparr>, c')"
    using assms(3-6)
  proof (induction arbitrary: c rule: reader_yields.induct)
    case (nothing r)
    then show ?case by (subst forward_replies.simps) (simp add: response_polls)
  next
    case (wait r r1 ms r')
    then show ?case by (subst forward_replies.simps) (simp add: response_polls)
  next
    case (frame r m r1 ms r')
    then show ?case
      by (subst forward_replies.simps) (auto simp: response_polls split: prod.splits sum.splits)
  qed
  with assms(1,2) show ?thesis by (simp add: ProxyClient_call_def)
qed

theorem upstream_close_reported_witness:
  "accept_client_inner (ProxyClient_call record_send) (ProxyResponseStream_poll_next read_script)
     record_send [Inr ping_message] () (Unlocked \<lparr>server_reader = [Pending], server_writer = []\<rparr>) [] =
   Some (Inl (UpstreamResponse EndOfStream), (),
     Unlocked \<lparr>server_reader = [], server_writer = [ping_message]\<rparr>, [])"
proof (rule upstream_close_reported)
  show "\<not> more_to_come (msg_operation ping_message)" by code_simp
  show "record_send [] ping_message = (Inr (), [ping_message])" by (simp add: record_send_def)
  show "reader_yields read_script [Pending] [] []" by (auto intro: reader_yields.intros)
qed simp_all

text \<open>C29. Replies are never mixed up between requests: while the reply stream of a request
  is open the connection is locked, a second call has to wait, and the stream
  gives the lock back exactly when it ends.\<close>

theorem stream_holds_lock:
  assumes "ProxyClient_call send_frame () req (Unlocked inner) = (Ready (Inr st), (), w)"
    and "ProxyResponseStream_poll_next read_frame st w = (r, st', w')"
  shows "(case st of Done \<Rightarrow> \<exists>i. w = Unlocked i
          | Streaming _ \<Rightarrow> w = Locked \<and> ProxyClient_call send_frame () req2 w = (Pending, (), w)) \<and>
         (case st' of Done \<Rightarrow> \<exists>i. w' = Unlocked i | Streaming _ \<Rightarrow> w' = Locked)"
  using assms
  by (auto simp: ProxyClient_call_def ProxyResponseStream_poll_next_def Let_def
      split: prod.splits sum.splits if_splits poll.splits option.splits ProxyResponseStream.splits)

theorem stream_holds_lock_witness:
  "ProxyClient_call record_send () ping_message
     (Locked :: ((WireDecoderError + Message) option poll list, Message list) ProxyClientInner mutex) =
   (Pending, (), Locked)"
proof -
  let ?inner = "\<lparr>server_reader = [Pending], server_writer = []\<rparr>
    :: ((WireDecoderError + Message) option poll list, Message list) ProxyClientInner"
  let ?guard = "\<lparr>server_reader = [Pending], server_writer = [ping_message]\<rparr>"
  have "\<not> more_to_come (msg_operation ping_message)" by code_simp
  then have a: "ProxyClient_call record_send () ping_message (Unlocked ?inner) = (Ready (Inr (Streaming ?guard)), (), Locked)"
    by (simp add: ProxyClient_call_def record_send_def)
  have b: "ProxyResponseStream_poll_next read_script (Streaming ?guard) Locked =
      (Pending, Streaming \<lparr>server_reader = [], server_writer = [ping_message]\<rparr>, Locked)"
    by (simp add: ProxyResponseStream_poll_next_def)
  show ?thesis using stream_holds_lock [OF a b, of ping_message] by simp
qed

text \<open>C28. Graceful shutdown drains: when \<open>run_until\<close> returns without an error, the task of
  every connection that was ever accepted has run to its end; none was aborted.\<close>

theorem shutdown_drains:
  assumes "serve_reachable n s" "sv_phase s = Returned (Inr ())"
  shows "set (sv_spawned s) \<subseteq> sv_completed s \<and> sv_running s = []"
  using serve_reachable_inv [OF assms(1)] returned_idle [OF assms] assms(2)
  by (auto simp: serve_accounted_def)

theorem shutdown_drains_witness:
  "\<exists>s. serve_reachable 0 s \<and> sv_spawned s = [0] \<and> set (sv_spawned s) \<subseteq> sv_completed s"
proof -
  let ?s1 = "(serve_start 0)\<lparr>sv_next_conn_id := 1, sv_running := [0], sv_spawned := [0]\<rparr>"
  let ?s2 = "?s1\<lparr>sv_phase := Draining\<rparr>"
  let ?s3 = "?s2\<lparr>sv_running := [], sv_finished := [0], sv_completed := {0}\<rparr>"
  let ?s4 = "?s3\<lparr>sv_finished := []\<rparr>"
  let ?s5 = "?s4\<lparr>sv_phase := Returned (Inr ())\<rparr>"
  have "serve_step (serve_start 0) ?s1"
    using serve_step.accepted [of "serve_start 0" 0 "(serve_start 0)\<lparr>sv_next_conn_id := 1\<rparr>"]
    by (simp add: serve_start_def next_conn_id_def)
  then have "serve_reachable 0 ?s1" by (rule serve_reachable.step [OF serve_reachable.start])
  moreover have "serve_step ?s1 ?s2"
    using serve_step.shutdown [of ?s1] by (simp add: serve_start_def)
  ultimately have "serve_reachable 0 ?s2" by (rule serve_reachable.step)
  moreover have "serve_step ?s2 ?s3"
    using serve_step.task_finished [of 0 ?s2] by (simp add: serve_start_def)
  ultimately have "serve_reachable 0 ?s3" by (rule serve_reachable.step)
  moreover have "serve_step ?s3 ?s4"
    using serve_step.joined [of ?s3 0] by (simp add: serve_start_def)
  ultimately have "serve_reachable 0 ?s4" by (rule serve_reachable.step)
  moreover have "serve_step ?s4 ?s5"
    using serve_step.drained [of ?s4] by (simp add: serve_start_def)
  ultimately have r: "serve_reachable 0 ?s5" by (rule serve_reachable.step)
  from shutdown_drains [OF r] r show ?thesis by (intro exI [of _ ?s5]) simp
qed

text \<open>How much there is to wait for: a running task has to finish and then be joined.\<close>

definition drain_work :: "serve_state \<Rightarrow> nat" where
  "drain_work s = 2 * length (sv_running s) + length (sv_finished s)"

lemma drain_step:
  assumes "serve_step s t" "sv_phase s = Draining"
  shows "sv_phase t = Draining \<and> drain_work t < drain_work s \<or>
    sv_phase t = Returned (Inr ()) \<and> sv_running t = [] \<and> drain_work s = 0"
  using assms(1)
proof cases
  case (joined c)
  then have "sv_finished s \<noteq> []" by auto
  with joined show ?thesis by (auto simp: drain_work_def length_remove1)
next
  case (task_finished c)
  then obtain k where "length (sv_running s) = Suc k" by (cases "sv_running s") auto
  with task_finished assms(2) show ?thesis by (auto simp: drain_work_def length_remove1)
qed (use assms(2) in \<open>auto simp: drain_work_def\<close>)

lemma drain_can_step: "sv_phase s = Draining \<Longrightarrow> \<exists>t. serve_step s t"
proof (cases "sv_finished s")
  case (Cons c cs)
  assume "sv_phase s = Draining"
  with Cons serve_step.joined [of s c] show ?thesis by auto
next
  case Nil
  assume "sv_phase s = Draining"
  with Nil serve_step.drained [of s] serve_step.task_finished [of "hd (sv_running s)" s] show ?thesis
    by (cases "sv_running s") auto
qed

lemma returned_stuck: "sv_phase s = Returned r \<Longrightarrow> sv_running s = [] \<Longrightarrow> \<not> serve_step s t"
  by (auto elim!: serve_stepE)

text \<open>C18. Shutdown terminates: once \<open>run_until\<close> drains, every sequence of steps is bounded by the
  work that is left, and it can only stop with the result \<open>Ok(())\<close>; no new connection
  is accepted. (That a running task finishes is a step of the environment.)\<close>

theorem drain_terminates:
  assumes "sv_phase s = Draining" "(serve_step ^^ n) s t"
  shows "n \<le> drain_work s + 1 \<and> (sv_phase t = Returned (Inr ()) \<or> sv_phase t = Draining \<and> (\<exists>u. serve_step t u))"
  using assms
proof (induction n arbitrary: s)
  case 0
  then show ?case using drain_can_step by auto
next
  case (Suc n)
  from Suc.prems(2) obtain u where u: "serve_step s u" "(serve_step ^^ n) u t"
    by (meson relpowp_Suc_D2)
  from drain_step [OF u(1) Suc.prems(1)] show ?case
  proof (elim disjE conjE)
    assume "sv_phase u = Draining" "drain_work u < drain_work s"
    with Suc.IH [OF _ u(2)] show ?thesis by auto
  next
    assume r: "sv_phase u = Returned (Inr ())" "sv_running u = []"
    then have "n = 0" using u(2) returned_stuck [OF r] relpowp_Suc_D2 [of _ serve_step u t] by (cases n) blast+
    with u r show ?thesis by simp
  qed
qed

theorem drain_terminates_witness:
  "\<exists>u. serve_step ((serve_start 0)\<lparr>sv_phase := Draining, sv_running := [0]\<rparr>) u"
  using drain_terminates [of "(serve_start 0)\<lparr>sv_phase := Draining, sv_running := [0]\<rparr>" 0] by simp

text \<open>Connection ids are unique for the first \<open>2 ^ 64\<close> connections of a process.\<close>

lemma conn_ids_distinct:
  assumes "serve_reachable n s" "length (sv_spawned s) \<le> 2 ^ 64"
  shows "distinct (sv_spawned s)"
proof -
  have "inj_on (\<lambda>i. n + word_of_nat i) {0..<length (sv_spawned s)}"
  proof (rule inj_onI)
    fix i j
    assume ij: "i \<in> {0..<length (sv_spawned s)}" "j \<in> {0..<length (sv_spawned s)}"
      and eq: "n + word_of_nat i = n + word_of_nat j"
    then have "(word_of_nat i :: u64) = word_of_nat j" by simp
    then have "i mod 2 ^ 64 = j mod 2 ^ 64" by (simp add: word_of_nat_eq_iff take_bit_eq_mod)
    then show "i = j" using ij assms(2) by simp
  qed
  then have "distinct (map (\<lambda>i. n + word_of_nat i) [0..<length (sv_spawned s)])"
    by (simp add: distinct_map)
  then show ?thesis using serve_reachable_inv [OF assms(1)] by (simp add: serve_ids_def)
qed

end
