(* ===== verification/ByteSession.thy ===== *)
theory ByteSession
  imports Wire Serve
begin

text \<open>
  The codec under the forwarding loop: a session seen as the bytes on the two connections. A
  framed sink is the encoder over its buffer, a framed source the decoder over the chunks that
  arrive (\<open>FramedWrite\<close> and \<open>FramedRead\<close> in \<open>serve/mod.rs\<close> and \<open>serve/service.rs\<close>).
\<close>

unbundle bit_operations_syntax

section \<open>Decoded messages and their originals\<close>

lemma checksum_flags_more_to_come: "checksum_flags m AND MORE_TO_COME = om_flags m AND MORE_TO_COME"
proof -
  have "(NOT CHECKSUM_PRESENT) AND MORE_TO_COME = MORE_TO_COME" "CHECKSUM_PRESENT AND MORE_TO_COME = 0"
    by code_simp+
  then show ?thesis
    by (simp add: checksum_flags_def flags_set_def and.assoc bit.conj_disj_distrib2)
qed

lemma norm_OperationMessage_fields [simp]:
  "om_sections (norm_OperationMessage m) = om_sections m"
  "om_checksum (norm_OperationMessage m) = om_checksum m"
  "checksum_flags (norm_OperationMessage m) = checksum_flags m"
  "flags_contains (om_flags (norm_OperationMessage m)) MORE_TO_COME = flags_contains (om_flags m) MORE_TO_COME"
  by (simp_all add: norm_OperationMessage_def flags_contains_def checksum_flags_more_to_come)
    (simp add: checksum_flags_def flags_set_def and.assoc or.assoc)

lemma OperationMessage_write_norm:
  "OperationMessage_write_bytes B (norm_OperationMessage m) = OperationMessage_write_bytes B m"
  unfolding fun_eq_iff OperationMessage_write_bytes_def norm_OperationMessage_fields by (rule refl | intro allI)+

lemma encode_norm: "WireEncoder_encode B (norm_Message m) dst = WireEncoder_encode B m dst"
  by (cases "msg_operation m")
    (simp_all add: WireEncoder_encode_def Message_write_bytes_def norm_Message_def OperationMessage_write_norm)

lemma more_to_come_norm: "more_to_come (msg_operation (norm_Message m)) = more_to_come (msg_operation m)"
  by (cases "msg_operation m") (simp_all add: more_to_come_def norm_Message_def)

lemma is_hello_norm: "is_hello_request (norm_Message m) = is_hello_request m"
  by (cases "msg_operation m")
    (simp_all add: is_hello_request_def norm_Message_def OperationMessage_command_name_def)

lemma reply_group_norm: "reply_group (map norm_Message ms) = reply_group ms"
  by (induction ms rule: reply_group.induct) (simp_all add: more_to_come_norm)

lemma replies_to_norm:
  "replies_to (norm_Message req) (map norm_Message ms) = replies_to req ms"
  by (simp add: replies_to_def more_to_come_norm reply_group_norm)

section \<open>A framed sink\<close>

definition encoder_send :: "bson_crate \<Rightarrow> byte list frame_send" where
  "encoder_send B w m = WireEncoder_encode B m w"

lemma encode_all_norm: "encode_all B (map norm_Message ms) dst = encode_all B ms dst"
  by (induction ms arbitrary: dst) (simp_all add: encode_norm split: prod.splits sum.splits)

lemma send_all_encoder:
  "encode_all B ms w = (Inr (), w') \<Longrightarrow> send_all (encoder_send B) w ms = Some w'"
  by (induction ms arbitrary: w) (auto simp: encoder_send_def split: prod.splits sum.splits)

lemma strip_norm: "strip_topology_from_message B (norm_Message m) = norm_Message (strip_topology_from_message B m)"
  by (cases "msg_operation m")
    (simp_all add: strip_topology_from_message_def norm_Message_def norm_OperationMessage_def checksum_flags_def)

lemma deliver_norm:
  "map2 (\<lambda>req. map (deliver B enabled req)) (map norm_Message reqs) (map (map norm_Message) replies) =
   map (map norm_Message) (map2 (\<lambda>req. map (deliver B enabled req)) reqs replies)"
  by (induction reqs replies rule: list_induct2') (simp_all add: deliver_def is_hello_norm strip_norm)

lemma deliver_all_untouched:
  "list_all (\<lambda>req. \<not> (enabled \<and> is_hello_request req)) reqs \<Longrightarrow> length reqs = length replies \<Longrightarrow>
   map2 (\<lambda>req. map (deliver B enabled req)) reqs replies = replies"
  by (induction reqs replies rule: list_induct2') (auto simp: deliver_def map_idI)

section \<open>Properties\<close>

text \<open>C3. The session theorem down to the bytes. However the network cuts the two incoming byte
  streams into chunks, when they are the encodings (by this encoder) of well-formed requests and of the replies
  upstream owes for them, the loop ends without error, the bytes sent upstream are
  exactly the bytes received from the client, and the bytes sent to the client are the encoding of the
  replies as the rewrite delivers them: exactly the bytes received from upstream if
  the rewrite is disabled or no request is a \<open>hello\<close>.\<close>

theorem bytes_forwarded:
  assumes "bson_codec B" "list_all2 replies_to reqs replies"
    and "list_all wf_Message reqs" "list_all wf_Message (concat replies)"
    and "encode_all B reqs [] = (Inr (), concat client_chunks)"
    and "encode_all B (concat replies) [] = (Inr (), concat upstream_chunks)"
    and "encode_all B (concat (map2 (\<lambda>req. map (deliver B enabled req)) reqs replies)) [] = (Inr (), delivered_bytes)"
    and "reader_yields read_frame reader (dr_output (decode_chunks B upstream_chunks)) reader'"
  shows "(\<exists>reader1.
    accept_client_inner (stack_call (encoder_send B)) (stack_poll B read_frame) (encoder_send B)
      (map Inr (dr_output (decode_chunks B client_chunks))) \<lparr>rhs_inner = (), rhs_enabled = enabled\<rparr>
      (Unlocked \<lparr>server_reader = reader, server_writer = []\<rparr>) [] =
    Some (Inr (), \<lparr>rhs_inner = (), rhs_enabled = enabled\<rparr>,
      Unlocked \<lparr>server_reader = reader1, server_writer = concat client_chunks\<rparr>, delivered_bytes)) \<and>
    (list_all (\<lambda>req. \<not> (enabled \<and> is_hello_request req)) reqs \<longrightarrow> delivered_bytes = concat upstream_chunks)"
proof -
  let ?reqs = "map norm_Message reqs" and ?replies = "map (map norm_Message) replies"
  have d: "dr_output (decode_chunks B client_chunks) = ?reqs"
      "dr_output (decode_chunks B upstream_chunks) = concat ?replies"
    using bson_codec.decode_chunks_encoded [OF assms(1,5,3) refl]
      bson_codec.decode_chunks_encoded [OF assms(1,6,4) refl] by (simp_all add: map_concat)
  have r: "list_all2 replies_to ?reqs ?replies"
    using assms(2) by (simp add: list_all2_map1 list_all2_map2 replies_to_norm)
  have u: "send_all (encoder_send B) [] ?reqs = Some (concat client_chunks)"
    using assms(5) by (simp add: send_all_encoder encode_all_norm)
  have c: "send_all (encoder_send B) [] (concat (map2 (\<lambda>req. map (deliver B enabled req)) ?reqs ?replies)) =
      Some delivered_bytes"
    unfolding deliver_norm map_concat [symmetric]
    by (rule send_all_encoder) (simp only: encode_all_norm assms(7))
  from ProxyClient_answers_all [OF r assms(8) [unfolded d(2)] u] obtain reader1 where
    a: "answers_all (ProxyClient_call (encoder_send B)) (ProxyResponseStream_poll_next read_frame) ()
      (Unlocked \<lparr>server_reader = reader, server_writer = []\<rparr>) ?reqs ?replies ()
      (Unlocked \<lparr>server_reader = reader1, server_writer = concat client_chunks\<rparr>)"
    by blast
  have "delivered_bytes = concat upstream_chunks" if "list_all (\<lambda>req. \<not> (enabled \<and> is_hello_request req)) reqs"
    using deliver_all_untouched [OF that list_all2_lengthD [OF assms(2)], of B] assms(6,7) by simp
  moreover from accept_client_inner_answers [OF rewrite_answers_all
      [OF a, of "\<lparr>rhs_inner = (), rhs_enabled = enabled\<rparr>" B], of "encoder_send B" "[]" _ "[]"] c
  have "\<exists>reader1.
    accept_client_inner (stack_call (encoder_send B)) (stack_poll B read_frame) (encoder_send B)
      (map Inr (dr_output (decode_chunks B client_chunks))) \<lparr>rhs_inner = (), rhs_enabled = enabled\<rparr>
      (Unlocked \<lparr>server_reader = reader, server_writer = []\<rparr>) [] =
    Some (Inr (), \<lparr>rhs_inner = (), rhs_enabled = enabled\<rparr>,
      Unlocked \<lparr>server_reader = reader1, server_writer = concat client_chunks\<rparr>, delivered_bytes)"
    unfolding d by auto
  ultimately show ?thesis by blast
qed

text \<open>Witness: a \<open>hello\<close> whose reply is stripped, with the rewrite enabled.\<close>

definition hello_exchange_frames :: "byte list \<times> byte list \<times> byte list" where
  "hello_exchange_frames =
     (snd (encode_all reference_bson [sample_hello_request] []), snd (encode_all reference_bson [sample_hello_reply] []),
      snd (encode_all reference_bson [strip_topology_from_message reference_bson sample_hello_reply] []))"

theorem bytes_forwarded_witness:
  "case hello_exchange_frames of (request, reply, stripped) \<Rightarrow> \<exists>reader1.
    accept_client_inner (stack_call (encoder_send reference_bson)) (stack_poll reference_bson read_script)
      (encoder_send reference_bson)
      (map Inr (dr_output (decode_chunks reference_bson [take 7 request, drop 7 request])))
      \<lparr>rhs_inner = (), rhs_enabled = True\<rparr>
      (Unlocked \<lparr>server_reader = map (\<lambda>m. Ready (Some (Inr m))) (dr_output (decode_chunks reference_bson [reply])),
        server_writer = []\<rparr>) [] =
    Some (Inr (), \<lparr>rhs_inner = (), rhs_enabled = True\<rparr>,
      Unlocked \<lparr>server_reader = reader1, server_writer = request\<rparr>, stripped)"
proof -
  obtain request reply stripped where f: "hello_exchange_frames = (request, reply, stripped)"
    by (cases hello_exchange_frames)
  have i: "isl (fst (encode_all reference_bson [sample_hello_request] [])) = False"
    "isl (fst (encode_all reference_bson [sample_hello_reply] [])) = False"
    "isl (fst (encode_all reference_bson [strip_topology_from_message reference_bson sample_hello_reply] [])) = False"
    by code_simp+
  have ok: "x = (Inr (), snd x)" if "isl (fst x) = False" for x :: "(WireEncoderError + unit) \<times> byte list"
    using that by (cases x; cases "fst x") auto
  from f have "snd (encode_all reference_bson [sample_hello_request] []) = request"
    "snd (encode_all reference_bson [sample_hello_reply] []) = reply"
    "snd (encode_all reference_bson [strip_topology_from_message reference_bson sample_hello_reply] []) = stripped"
    unfolding hello_exchange_frames_def by (simp_all only: prod.inject)
  with ok [OF i(1)] ok [OF i(2)] ok [OF i(3)]
  have e: "encode_all reference_bson [sample_hello_request] [] = (Inr (), request)"
    "encode_all reference_bson [sample_hello_reply] [] = (Inr (), reply)"
    "encode_all reference_bson [strip_topology_from_message reference_bson sample_hello_reply] [] = (Inr (), stripped)"
    by (simp_all only:)
  have r: "replies_to sample_hello_request [sample_hello_reply]" "is_hello_request sample_hello_request"
    "wf_Message sample_hello_request" "wf_Message sample_hello_reply"
    by code_simp+
  let ?reader = "map (\<lambda>m. Ready (Some (Inr m))) (dr_output (decode_chunks reference_bson [reply]))
    :: (WireDecoderError + Message) option poll list"
  have "list_all2 replies_to [sample_hello_request] [[sample_hello_reply]]" using r(1) by simp
  from bytes_forwarded [OF reference_codec this, of "[take 7 request, drop 7 request]" "[reply]" True stripped
      read_script ?reader "[]"] e r reader_yields_script
  show ?thesis by (simp add: f deliver_def)
qed

end
