(* ===== verification/Fixtures.thy ===== *)
theory Fixtures
  imports Wire
begin

text \<open>
  The recorded traffic the repository tests against (\<open>src/src/fixtures\<close>): two headers and
  four messages, each as the value the tests build and as the bytes captured on the wire
  (the \<open>.bin\<close> files, written out byte for byte). Encoding the value with the model of the
  encoder, over the reference BSON codec, gives the captured bytes, and decoding them gives
  the value back: the model and the program are measured against the same data.
\<close>

section \<open>Values\<close>

text \<open>\<open>DateTime::from_millis\<close> and the BSON form of a \<open>Uuid\<close> (binary, subtype \<open>4\<close>).\<close>

definition from_millis :: "i64 \<Rightarrow> bson" where
  "from_millis ms = Scalar 0x09 (le_bytes 8 ms)"

definition from_uuid :: "byte list \<Rightarrow> bson" where
  "from_uuid bs = Scalar 0x05 (i32_to_le_bytes (of_nat (length bs)) @ 4 # bs)"

section \<open>Headers\<close>

definition op_msg_01_header :: MessageHeader where
  "op_msg_01_header =
     \<lparr>mh_message_length = MessageLength 163, mh_request_id = RequestId 25,
      mh_response_to = None, mh_op_code = OpcodeMsg\<rparr>"

definition op_msg_01_header_bytes :: "byte list" where
  "op_msg_01_header_bytes =
     [163,0,0,0,25,0,0,0,0,0,0,0,221,7,0,0]"

definition op_query_01_header :: MessageHeader where
  "op_query_01_header =
     \<lparr>mh_message_length = MessageLength 240, mh_request_id = RequestId 26,
      mh_response_to = ResponseTo_from_i32 25, mh_op_code = OpcodeQuery\<rparr>"

definition op_query_01_header_bytes :: "byte list" where
  "op_query_01_header_bytes =
     [240,0,0,0,26,0,0,0,25,0,0,0,212,7,0,0]"

section \<open>Messages\<close>

definition msg_00_query_request :: Message where
  "msg_00_query_request =
     \<lparr>msg_request_id = RequestId 17, msg_response_to = None,
      msg_operation = Operation_Message \<lparr>om_flags = 0, om_sections = [Body
        [(''find'', String ''softwares''), (''filter'', Document []),
         (''sort'', Document [(''netScore'', Int32 (- 1))]), (''skip'', Int32 0),
         (''limit'', Int32 10),
         (''lsid'', Document [(''id'', from_uuid
           [91,106,64,108,211,154,77,196,174,190,152,194,44,80,165,37])]),
         (''$db'', String ''msoftware'')]],
        om_checksum = None\<rparr>\<rparr>"

definition msg_00_query_request_bytes :: "byte list" where
  "msg_00_query_request_bytes =
     [160,0,0,0,17,0,0,0,0,0,0,0,221,7,0,0,0,0,0,0,0,139,0,0,0,2,102,105,110,100,0,10,0,0,0,115,
      111,102,116,119,97,114,101,115,0,3,102,105,108,116,101,114,0,5,0,0,0,0,3,115,111,114,116,0,
      19,0,0,0,16,110,101,116,83,99,111,114,101,0,255,255,255,255,0,16,115,107,105,112,0,0,0,0,0,
      16,108,105,109,105,116,0,10,0,0,0,3,108,115,105,100,0,30,0,0,0,5,105,100,0,16,0,0,0,4,91,
      106,64,108,211,154,77,196,174,190,152,194,44,80,165,37,0,2,36,100,98,0,10,0,0,0,109,115,111,
      102,116,119,97,114,101,0,0]"

definition software_0 :: bson where
  "software_0 = Document
     [(''_id'', Scalar 0x07 [0x68,0x0b,0xbf,0x06,0x98,0x3e,0x83,0x04,0xb2,0x0d,0x14,0x2e]),
      (''name'', String ''React''),
      (''description'', String ''A JavaScript library for building user interfaces.''),
      (''website'', String ''https://reactjs.org/''), (''category'', String ''Development''),
      (''tags'', Array [String ''javascript'', String ''frontend'', String ''ui'', String ''library'']),
      (''upvotes'', Int32 151), (''downvotes'', Int32 5), (''netScore'', Int32 146),
      (''__v'', Int32 0), (''createdAt'', from_millis 1745600262292),
      (''updatedAt'', from_millis 1745778049680)]"

definition software_0_bytes :: "byte list" where
  "software_0_bytes =
     [69,1,0,0,7,95,105,100,0,104,11,191,6,152,62,131,4,178,13,20,46,2,110,97,109,101,0,6,0,0,0,
      82,101,97,99,116,0,2,100,101,115,99,114,105,112,116,105,111,110,0,51,0,0,0,65,32,74,97,118,
      97,83,99,114,105,112,116,32,108,105,98,114,97,114,121,32,102,111,114,32,98,117,105,108,100,
      105,110,103,32,117,115,101,114,32,105,110,116,101,114,102,97,99,101,115,46,0,2,119,101,98,
      115,105,116,101,0,21,0,0,0,104,116,116,112,115,58,47,47,114,101,97,99,116,106,115,46,111,
      114,103,47,0,2,99,97,116,101,103,111,114,121,0,12,0,0,0,68,101,118,101,108,111,112,109,101,
      110,116,0,4,116,97,103,115,0,64,0,0,0,2,48,0,11,0,0,0,106,97,118,97,115,99,114,105,112,116,
      0,2,49,0,9,0,0,0,102,114,111,110,116,101,110,100,0,2,50,0,3,0,0,0,117,105,0,2,51,0,8,0,0,0,
      108,105,98,114,97,114,121,0,0,16,117,112,118,111,116,101,115,0,151,0,0,0,16,100,111,119,110,
      118,111,116,101,115,0,5,0,0,0,16,110,101,116,83,99,111,114,101,0,146,0,0,0,16,95,95,118,0,0,
      0,0,0,9,99,114,101,97,116,101,100,65,116,0,148,48,226,109,150,1,0,0,9,117,112,100,97,116,
      101,100,65,116,0,144,2,123,120,150,1,0,0,0]"

definition software_1 :: bson where
  "software_1 = Document
     [(''_id'', Scalar 0x07 [0x68,0x0b,0xbf,0x06,0x98,0x3e,0x83,0x04,0xb2,0x0d,0x14,0x2f]),
      (''name'', String ''Node.js''),
      (''description'', String ''A JavaScript runtime built on Chrome's V8 JavaScript engine.''),
      (''website'', String ''https://nodejs.org/''), (''category'', String ''Development''),
      (''tags'', Array [String ''javascript'', String ''runtime'', String ''server'']),
      (''upvotes'', Int32 130), (''downvotes'', Int32 8), (''netScore'', Int32 122),
      (''__v'', Int32 0), (''createdAt'', from_millis 1745600262292),
      (''updatedAt'', from_millis 1745600262292)]"

definition software_1_bytes :: "byte list" where
  "software_1_bytes =
     [68,1,0,0,7,95,105,100,0,104,11,191,6,152,62,131,4,178,13,20,47,2,110,97,109,101,0,8,0,0,0,
      78,111,100,101,46,106,115,0,2,100,101,115,99,114,105,112,116,105,111,110,0,61,0,0,0,65,32,
      74,97,118,97,83,99,114,105,112,116,32,114,117,110,116,105,109,101,32,98,117,105,108,116,32,
      111,110,32,67,104,114,111,109,101,39,115,32,86,56,32,74,97,118,97,83,99,114,105,112,116,32,
      101,110,103,105,110,101,46,0,2,119,101,98,115,105,116,101,0,20,0,0,0,104,116,116,112,115,58,
      47,47,110,111,100,101,106,115,46,111,114,103,47,0,2,99,97,116,101,103,111,114,121,0,12,0,0,
      0,68,101,118,101,108,111,112,109,101,110,116,0,4,116,97,103,115,0,52,0,0,0,2,48,0,11,0,0,0,
      106,97,118,97,115,99,114,105,112,116,0,2,49,0,8,0,0,0,114,117,110,116,105,109,101,0,2,50,0,
      7,0,0,0,115,101,114,118,101,114,0,0,16,117,112,118,111,116,101,115,0,130,0,0,0,16,100,111,
      119,110,118,111,116,101,115,0,8,0,0,0,16,110,101,116,83,99,111,114,101,0,122,0,0,0,16,95,95,
      118,0,0,0,0,0,9,99,114,101,97,116,101,100,65,116,0,148,48,226,109,150,1,0,0,9,117,112,100,
      97,116,101,100,65,116,0,148,48,226,109,150,1,0,0,0]"

definition software_2 :: bson where
  "software_2 = Document
     [(''_id'', Scalar 0x07 [0x68,0x0b,0xbf,0x06,0x98,0x3e,0x83,0x04,0xb2,0x0d,0x14,0x2c]),
      (''name'', String ''Visual Studio Code''),
      (''description'', String ''A lightweight but powerful source code editor that runs on your desktop.''),
      (''website'', String ''https://code.visualstudio.com/''),
      (''category'', String ''Development''),
      (''tags'', Array [String ''editor'', String ''ide'', String ''microsoft'', String ''javascript'']),
      (''upvotes'', Int32 120), (''downvotes'', Int32 10), (''netScore'', Int32 110),
      (''__v'', Int32 0), (''createdAt'', from_millis 1745600262291),
      (''updatedAt'', from_millis 1745600262291)]"

definition software_2_bytes :: "byte list" where
  "software_2_bytes =
     [115,1,0,0,7,95,105,100,0,104,11,191,6,152,62,131,4,178,13,20,44,2,110,97,109,101,0,19,0,0,0,
      86,105,115,117,97,108,32,83,116,117,100,105,111,32,67,111,100,101,0,2,100,101,115,99,114,
      105,112,116,105,111,110,0,73,0,0,0,65,32,108,105,103,104,116,119,101,105,103,104,116,32,98,
      117,116,32,112,111,119,101,114,102,117,108,32,115,111,117,114,99,101,32,99,111,100,101,32,
      101,100,105,116,111,114,32,116,104,97,116,32,114,117,110,115,32,111,110,32,121,111,117,114,
      32,100,101,115,107,116,111,112,46,0,2,119,101,98,115,105,116,101,0,31,0,0,0,104,116,116,112,
      115,58,47,47,99,111,100,101,46,118,105,115,117,97,108,115,116,117,100,105,111,46,99,111,109,
      47,0,2,99,97,116,101,103,111,114,121,0,12,0,0,0,68,101,118,101,108,111,112,109,101,110,116,
      0,4,116,97,103,115,0,65,0,0,0,2,48,0,7,0,0,0,101,100,105,116,111,114,0,2,49,0,4,0,0,0,105,
      100,101,0,2,50,0,10,0,0,0,109,105,99,114,111,115,111,102,116,0,2,51,0,11,0,0,0,106,97,118,
      97,115,99,114,105,112,116,0,0,16,117,112,118,111,116,101,115,0,120,0,0,0,16,100,111,119,110,
      118,111,116,101,115,0,10,0,0,0,16,110,101,116,83,99,111,114,101,0,110,0,0,0,16,95,95,118,0,
      0,0,0,0,9,99,114,101,97,116,101,100,65,116,0,147,48,226,109,150,1,0,0,9,117,112,100,97,116,
      101,100,65,116,0,147,48,226,109,150,1,0,0,0]"

definition software_3 :: bson where
  "software_3 = Document
     [(''_id'', Scalar 0x07 [0x68,0x0b,0xbf,0x06,0x98,0x3e,0x83,0x04,0xb2,0x0d,0x14,0x30]),
      (''name'', String ''TypeScript''),
      (''description'', String ''A typed superset of JavaScript that compiles to plain JavaScript.''),
      (''website'', String ''https://www.typescriptlang.org/''),
      (''category'', String ''Development''),
      (''tags'', Array [String ''javascript'', String ''typed'', String ''microsoft'']),
      (''upvotes'', Int32 110), (''downvotes'', Int32 12), (''netScore'', Int32 98),
      (''__v'', Int32 0), (''createdAt'', from_millis 1745600262293),
      (''updatedAt'', from_millis 1745600262293)]"

definition software_3_bytes :: "byte list" where
  "software_3_bytes =
     [89,1,0,0,7,95,105,100,0,104,11,191,6,152,62,131,4,178,13,20,48,2,110,97,109,101,0,11,0,0,0,
      84,121,112,101,83,99,114,105,112,116,0,2,100,101,115,99,114,105,112,116,105,111,110,0,66,0,
      0,0,65,32,116,121,112,101,100,32,115,117,112,101,114,115,101,116,32,111,102,32,74,97,118,97,
      83,99,114,105,112,116,32,116,104,97,116,32,99,111,109,112,105,108,101,115,32,116,111,32,112,
      108,97,105,110,32,74,97,118,97,83,99,114,105,112,116,46,0,2,119,101,98,115,105,116,101,0,32,
      0,0,0,104,116,116,112,115,58,47,47,119,119,119,46,116,121,112,101,115,99,114,105,112,116,
      108,97,110,103,46,111,114,103,47,0,2,99,97,116,101,103,111,114,121,0,12,0,0,0,68,101,118,
      101,108,111,112,109,101,110,116,0,4,116,97,103,115,0,53,0,0,0,2,48,0,11,0,0,0,106,97,118,97,
      115,99,114,105,112,116,0,2,49,0,6,0,0,0,116,121,112,101,100,0,2,50,0,10,0,0,0,109,105,99,
      114,111,115,111,102,116,0,0,16,117,112,118,111,116,101,115,0,110,0,0,0,16,100,111,119,110,
      118,111,116,101,115,0,12,0,0,0,16,110,101,116,83,99,111,114,101,0,98,0,0,0,16,95,95,118,0,0,
      0,0,0,9,99,114,101,97,116,101,100,65,116,0,149,48,226,109,150,1,0,0,9,117,112,100,97,116,
      101,100,65,116,0,149,48,226,109,150,1,0,0,0]"

definition software_4 :: bson where
  "software_4 = Document
     [(''_id'', Scalar 0x07 [0x68,0x0b,0xbf,0x06,0x98,0x3e,0x83,0x04,0xb2,0x0d,0x14,0x2d]),
      (''name'', String ''MongoDB''),
      (''description'', String ''A document database with the scalability and flexibility that you want with the querying and indexing that you need.''),
      (''website'', String ''https://www.mongodb.com/''), (''category'', String ''Database''),
      (''tags'', Array [String ''nosql'', String ''database'', String ''json'']),
      (''upvotes'', Int32 95), (''downvotes'', Int32 15), (''netScore'', Int32 80),
      (''__v'', Int32 0), (''createdAt'', from_millis 1745600262292),
      (''updatedAt'', from_millis 1745600262292)]"

definition software_4_bytes :: "byte list" where
  "software_4_bytes =
     [120,1,0,0,7,95,105,100,0,104,11,191,6,152,62,131,4,178,13,20,45,2,110,97,109,101,0,8,0,0,0,
      77,111,110,103,111,68,66,0,2,100,101,115,99,114,105,112,116,105,111,110,0,117,0,0,0,65,32,
      100,111,99,117,109,101,110,116,32,100,97,116,97,98,97,115,101,32,119,105,116,104,32,116,104,
      101,32,115,99,97,108,97,98,105,108,105,116,121,32,97,110,100,32,102,108,101,120,105,98,105,
      108,105,116,121,32,116,104,97,116,32,121,111,117,32,119,97,110,116,32,119,105,116,104,32,
      116,104,101,32,113,117,101,114,121,105,110,103,32,97,110,100,32,105,110,100,101,120,105,110,
      103,32,116,104,97,116,32,121,111,117,32,110,101,101,100,46,0,2,119,101,98,115,105,116,101,0,
      25,0,0,0,104,116,116,112,115,58,47,47,119,119,119,46,109,111,110,103,111,100,98,46,99,111,
      109,47,0,2,99,97,116,101,103,111,114,121,0,9,0,0,0,68,97,116,97,98,97,115,101,0,4,116,97,
      103,115,0,46,0,0,0,2,48,0,6,0,0,0,110,111,115,113,108,0,2,49,0,9,0,0,0,100,97,116,97,98,97,
      115,101,0,2,50,0,5,0,0,0,106,115,111,110,0,0,16,117,112,118,111,116,101,115,0,95,0,0,0,16,
      100,111,119,110,118,111,116,101,115,0,15,0,0,0,16,110,101,116,83,99,111,114,101,0,80,0,0,0,
      16,95,95,118,0,0,0,0,0,9,99,114,101,97,116,101,100,65,116,0,148,48,226,109,150,1,0,0,9,117,
      112,100,97,116,101,100,65,116,0,148,48,226,109,150,1,0,0,0]"

definition software_5 :: bson where
  "software_5 = Document
     [(''_id'', Scalar 0x07 [0x68,0x0b,0xc9,0x68,0xa3,0x97,0xba,0xec,0x79,0x32,0xb7,0x69]),
      (''name'', String ''Add test''), (''description'', String ''jev''),
      (''website'', String ''http://proxy.jev.sh''), (''category'', String ''Development''),
      (''tags'', Array [String ''free'', String ''open-source'']), (''upvotes'', Int32 0),
      (''downvotes'', Int32 0), (''netScore'', Int32 0),
      (''createdAt'', from_millis 1745602920235), (''updatedAt'', from_millis 1745602920235),
      (''__v'', Int32 0)]"

definition software_5_bytes :: "byte list" where
  "software_5_bytes =
     [252,0,0,0,7,95,105,100,0,104,11,201,104,163,151,186,236,121,50,183,105,2,110,97,109,101,0,9,
      0,0,0,65,100,100,32,116,101,115,116,0,2,100,101,115,99,114,105,112,116,105,111,110,0,4,0,0,
      0,106,101,118,0,2,119,101,98,115,105,116,101,0,20,0,0,0,104,116,116,112,58,47,47,112,114,
      111,120,121,46,106,101,118,46,115,104,0,2,99,97,116,101,103,111,114,121,0,12,0,0,0,68,101,
      118,101,108,111,112,109,101,110,116,0,4,116,97,103,115,0,36,0,0,0,2,48,0,5,0,0,0,102,114,
      101,101,0,2,49,0,12,0,0,0,111,112,101,110,45,115,111,117,114,99,101,0,0,16,117,112,118,111,
      116,101,115,0,0,0,0,0,16,100,111,119,110,118,111,116,101,115,0,0,0,0,0,16,110,101,116,83,99,
      111,114,101,0,0,0,0,0,9,99,114,101,97,116,101,100,65,116,0,43,191,10,110,150,1,0,0,9,117,
      112,100,97,116,101,100,65,116,0,43,191,10,110,150,1,0,0,16,95,95,118,0,0,0,0,0,0]"

definition msg_00_query_response :: Message where
  "msg_00_query_response =
     \<lparr>msg_request_id = RequestId 21, msg_response_to = ResponseTo_from_i32 17,
      msg_operation = Operation_Message \<lparr>om_flags = 0, om_sections = [Body
        [(''cursor'', Document [(''firstBatch'', Array [software_0, software_1, software_2, software_3, software_4, software_5]),
         (''id'', Int64 0), (''ns'', String ''msoftware.softwares'')]),
         (''ok'', Double 0x3FF0000000000000)]],
        om_checksum = None\<rparr>\<rparr>"

definition msg_00_query_response_bytes :: "byte list" where
  "msg_00_query_response_bytes =
     [71,8,0,0,21,0,0,0,17,0,0,0,221,7,0,0,0,0,0,0,0,50,8,0,0,3,99,117,114,115,111,114,0,25,8,0,0,
      4,102,105,114,115,116,66,97,116,99,104,0,224,7,0,0,3,48,0] @ software_0_bytes @
     [3,49,0] @ software_1_bytes @
     [3,50,0] @ software_2_bytes @
     [3,51,0] @ software_3_bytes @
     [3,52,0] @ software_4_bytes @
     [3,53,0] @ software_5_bytes @
     [0,18,105,100,0,0,0,0,0,0,0,0,0,2,110,115,0,20,0,0,0,109,115,111,102,116,119,97,114,101,46,
      115,111,102,116,119,97,114,101,115,0,0,1,111,107,0,0,0,0,0,0,0,240,63,0]"

definition msg_01_legacy_op_query :: Message where
  "msg_01_legacy_op_query =
     \<lparr>msg_request_id = RequestId 1, msg_response_to = None,
      msg_operation = Operation_Query \<lparr>oq_flags = 0, oq_full_collection_name = ''admin.$cmd'',
        oq_number_to_skip = 0, oq_number_to_return = - 1,
        oq_query =
         [(''ismaster'', Int32 1), (''helloOk'', Boolean True),
          (''client'', Document [(''driver'', Document [(''name'', String ''nodejs''),
          (''version'', String ''5.1.0'')]), (''os'', Document [(''type'', String ''Linux''),
          (''name'', String ''linux''), (''architecture'', String ''x64''),
          (''version'', String ''6.14.3-arch1-1'')]),
          (''platform'', String ''Node.js v16.17.1, LE (unified)|Node.js v16.17.1, LE (unified)''),
          (''application'', Document [(''name'', String ''MongoDB Compass'')])]),
          (''compression'', Array [String ''none''])],
        oq_return_fields_selector = None\<rparr>\<rparr>"

definition msg_01_legacy_op_query_bytes :: "byte list" where
  "msg_01_legacy_op_query_bytes =
     [115,1,0,0,1,0,0,0,0,0,0,0,212,7,0,0,0,0,0,0,97,100,109,105,110,46,36,99,109,100,0,0,0,0,0,
      255,255,255,255,76,1,0,0,16,105,115,109,97,115,116,101,114,0,1,0,0,0,8,104,101,108,108,111,
      79,107,0,1,3,99,108,105,101,110,116,0,9,1,0,0,3,100,114,105,118,101,114,0,41,0,0,0,2,110,97,
      109,101,0,7,0,0,0,110,111,100,101,106,115,0,2,118,101,114,115,105,111,110,0,6,0,0,0,53,46,
      49,46,48,0,0,3,111,115,0,87,0,0,0,2,116,121,112,101,0,6,0,0,0,76,105,110,117,120,0,2,110,97,
      109,101,0,6,0,0,0,108,105,110,117,120,0,2,97,114,99,104,105,116,101,99,116,117,114,101,0,4,
      0,0,0,120,54,52,0,2,118,101,114,115,105,111,110,0,15,0,0,0,54,46,49,52,46,51,45,97,114,99,
      104,49,45,49,0,0,2,112,108,97,116,102,111,114,109,0,62,0,0,0,78,111,100,101,46,106,115,32,
      118,49,54,46,49,55,46,49,44,32,76,69,32,40,117,110,105,102,105,101,100,41,124,78,111,100,
      101,46,106,115,32,118,49,54,46,49,55,46,49,44,32,76,69,32,40,117,110,105,102,105,101,100,41,
      0,3,97,112,112,108,105,99,97,116,105,111,110,0,31,0,0,0,2,110,97,109,101,0,16,0,0,0,77,111,
      110,103,111,68,66,32,67,111,109,112,97,115,115,0,0,0,4,99,111,109,112,114,101,115,115,105,
      111,110,0,17,0,0,0,2,48,0,5,0,0,0,110,111,110,101,0,0,0]"

definition msg_01_legacy_op_reply :: Message where
  "msg_01_legacy_op_reply =
     \<lparr>msg_request_id = RequestId 3, msg_response_to = ResponseTo_from_i32 1,
      msg_operation = Operation_Reply \<lparr>or_flags = AWAIT_CAPABLE, or_cursor_id = 0, or_starting_from = 0,
        or_documents = [
         [(''helloOk'', Boolean True), (''ismaster'', Boolean True),
          (''topologyVersion'', Document [(''processId'', Scalar 0x07 [0x68,0x12,0x79,0x74,0xe6,0xc0,0x9b,0xf3,0x3b,0xc5,0x78,0x3f]),
          (''counter'', Int64 0)]), (''maxBsonObjectSize'', Int32 16777216),
          (''maxMessageSizeBytes'', Int32 48000000), (''maxWriteBatchSize'', Int32 100000),
          (''localTime'', from_millis 1746041224056),
          (''logicalSessionTimeoutMinutes'', Int32 30), (''connectionId'', Int32 1),
          (''minWireVersion'', Int32 0), (''maxWireVersion'', Int32 17),
          (''readOnly'', Boolean False), (''ok'', Double 0x3FF0000000000000)]]\<rparr>\<rparr>"

definition msg_01_legacy_op_reply_bytes :: "byte list" where
  "msg_01_legacy_op_reply_bytes =
     [73,1,0,0,3,0,0,0,1,0,0,0,1,0,0,0,8,0,0,0,0,0,0,0,0,0,0,0,0,0,0,0,1,0,0,0,37,1,0,0,8,104,101,
      108,108,111,79,107,0,1,8,105,115,109,97,115,116,101,114,0,1,3,116,111,112,111,108,111,103,
      121,86,101,114,115,105,111,110,0,45,0,0,0,7,112,114,111,99,101,115,115,73,100,0,104,18,121,
      116,230,192,155,243,59,197,120,63,18,99,111,117,110,116,101,114,0,0,0,0,0,0,0,0,0,0,16,109,
      97,120,66,115,111,110,79,98,106,101,99,116,83,105,122,101,0,0,0,0,1,16,109,97,120,77,101,
      115,115,97,103,101,83,105,122,101,66,121,116,101,115,0,0,108,220,2,16,109,97,120,87,114,105,
      116,101,66,97,116,99,104,83,105,122,101,0,160,134,1,0,9,108,111,99,97,108,84,105,109,101,0,
      120,187,42,136,150,1,0,0,16,108,111,103,105,99,97,108,83,101,115,115,105,111,110,84,105,109,
      101,111,117,116,77,105,110,117,116,101,115,0,30,0,0,0,16,99,111,110,110,101,99,116,105,111,
      110,73,100,0,1,0,0,0,16,109,105,110,87,105,114,101,86,101,114,115,105,111,110,0,0,0,0,0,16,
      109,97,120,87,105,114,101,86,101,114,115,105,111,110,0,17,0,0,0,8,114,101,97,100,79,110,108,
      121,0,0,1,111,107,0,0,0,0,0,0,0,240,63,0]"

section \<open>The recordings\<close>

lemma request_encoded:
  "WireEncoder_encode reference_bson msg_00_query_request [] =
   (Inr (), msg_00_query_request_bytes)"
  by code_simp

lemma query_encoded:
  "WireEncoder_encode reference_bson msg_01_legacy_op_query [] =
   (Inr (), msg_01_legacy_op_query_bytes)"
  by code_simp

lemma reply_encoded:
  "WireEncoder_encode reference_bson msg_01_legacy_op_reply [] =
   (Inr (), msg_01_legacy_op_reply_bytes)"
  by code_simp

lemma software_0_encoded [simp]: "enc_bson software_0 = Some software_0_bytes"
  by code_simp

lemma software_1_encoded [simp]: "enc_bson software_1 = Some software_1_bytes"
  by code_simp

lemma software_2_encoded [simp]: "enc_bson software_2 = Some software_2_bytes"
  by code_simp

lemma software_3_encoded [simp]: "enc_bson software_3 = Some software_3_bytes"
  by code_simp

lemma software_4_encoded [simp]: "enc_bson software_4 = Some software_4_bytes"
  by code_simp

lemma software_5_encoded [simp]: "enc_bson software_5 = Some software_5_bytes"
  by code_simp

lemma software_lengths [simp]:
  "length software_0_bytes = 325"
  "length software_1_bytes = 324"
  "length software_2_bytes = 371"
  "length software_3_bytes = 345"
  "length software_4_bytes = 376"
  "length software_5_bytes = 252"
  by (simp_all add: software_0_bytes_def software_1_bytes_def software_2_bytes_def
      software_3_bytes_def software_4_bytes_def software_5_bytes_def)

text \<open>The largest one is assembled from its parts: the documents of the batch are evaluated one
  by one.\<close>

definition batch_bytes :: "byte list" where
  "batch_bytes =
     [224,7,0,0,3,48,0] @ software_0_bytes @
     [3,49,0] @ software_1_bytes @
     [3,50,0] @ software_2_bytes @
     [3,51,0] @ software_3_bytes @
     [3,52,0] @ software_4_bytes @
     [3,53,0] @ software_5_bytes @ [0]"

lemma softwares_typed [simp]:
  "bson_element_type software_0 = 3"
  "bson_element_type software_1 = 3"
  "bson_element_type software_2 = 3"
  "bson_element_type software_3 = 3"
  "bson_element_type software_4 = 3"
  "bson_element_type software_5 = 3"
  by (simp_all add: software_0_def software_1_def software_2_def software_3_def software_4_def
      software_5_def)


lemma batch_indices:
  "index_entries 0 [a, b, c, d, e, f] =
     [(''0'', a), (''1'', b), (''2'', c), (''3'', d), (''4'', e), (''5'', f)]"
proof -
  have "nat_digits 0 = ''0''" "nat_digits 1 = ''1''" "nat_digits 2 = ''2''"
    "nat_digits 3 = ''3''" "nat_digits 4 = ''4''" "nat_digits 5 = ''5''"
    by code_simp+
  then show ?thesis by (simp add: eval_nat_numeral)
qed

lemma batch_keys:
  "cstring_new ''0'' = Some [48,0]" "cstring_new ''1'' = Some [49,0]"
  "cstring_new ''2'' = Some [50,0]" "cstring_new ''3'' = Some [51,0]"
  "cstring_new ''4'' = Some [52,0]" "cstring_new ''5'' = Some [53,0]"
  by code_simp+

lemma length_prefixed_eq:
  "i32_try_from n = Some w \<Longrightarrow> le_bytes 4 w = p \<Longrightarrow> length_prefixed n bs = Some (p @ bs)"
  by (simp add: length_prefixed_def)

lemma batch_encoded:
  "enc_bson (Array [software_0, software_1, software_2, software_3, software_4, software_5]) =
   Some batch_bytes"
proof -
  have "length_prefixed 2016 bs = Some ([224,7,0,0] @ bs)" for bs
    by (rule length_prefixed_eq [where w = 2016]; code_simp)
  then show ?thesis
    by (simp add: batch_indices batch_keys wrap_doc_def batch_bytes_def del: index_entries.simps)
qed

lemma length_batch: "length batch_bytes = 2016"
  by (simp add: batch_bytes_def)

lemma cursor_encoded:
  "enc_bson (Document [(''firstBatch'', Array [software_0, software_1, software_2, software_3,
     software_4, software_5]), (''id'', Int64 0), (''ns'', String ''msoftware.softwares'')]) =
   Some ([25,8,0,0,4,102,105,114,115,116,66,97,116,99,104,0] @ batch_bytes @
     [18,105,100,0,0,0,0,0,0,0,0,0,2,110,115,0,20,0,0,0,109,115,111,102,116,119,97,114,101,46,
      115,111,102,116,119,97,114,101,115,0,0])"
proof -
  have "length_prefixed 2073 bs = Some ([25,8,0,0] @ bs)" for bs
    by (rule length_prefixed_eq [where w = 2073]; code_simp)
  moreover have "cstring_new ''firstBatch'' = Some [102,105,114,115,116,66,97,116,99,104,0]"
    "enc_elems [(''id'', Int64 0), (''ns'', String ''msoftware.softwares'')] =
     Some [18,105,100,0,0,0,0,0,0,0,0,0,2,110,115,0,20,0,0,0,109,115,111,102,116,119,97,114,101,46,
      115,111,102,116,119,97,114,101,115,0]"
    by code_simp+
  ultimately show ?thesis
    by (simp add: batch_encoded wrap_doc_def length_batch enc_elems.simps(2) [of "''firstBatch''"]
        del: enc_elems.simps(2) enc_bson.simps(4))
qed

lemma response_body_encoded:
  "to_writer reference_bson
     [(''cursor'', Document [(''firstBatch'', Array [software_0, software_1, software_2, software_3,
       software_4, software_5]), (''id'', Int64 0), (''ns'', String ''msoftware.softwares'')]),
      (''ok'', Double 0x3FF0000000000000)] =
   Inr (drop 21 msg_00_query_response_bytes)"
proof -
  have "length_prefixed 2098 bs = Some ([50,8,0,0] @ bs)" for bs
    by (rule length_prefixed_eq [where w = 2098]; code_simp)
  moreover have "cstring_new ''cursor'' = Some [99,117,114,115,111,114,0]"
    "enc_elems [(''ok'', Double 0x3FF0000000000000)] = Some [1,111,107,0,0,0,0,0,0,0,240,63]"
    by code_simp+
  ultimately show ?thesis
    by (simp add: cursor_encoded wrap_doc_def reference_bson_def length_batch batch_bytes_def
        msg_00_query_response_bytes_def enc_elems.simps(2) [of "''cursor''"]
        del: enc_elems.simps(2) enc_bson.simps(3))
qed

lemma response_encoded:
  "WireEncoder_encode reference_bson msg_00_query_response [] =
   (Inr (), msg_00_query_response_bytes)"
proof -
  let ?bs = "msg_00_query_response_bytes"
  let ?h = "\<lparr>mh_message_length = MessageLength 2119, mh_request_id = RequestId 21,
    mh_response_to = ResponseTo_from_i32 17, mh_op_code = OpcodeMsg\<rparr>"
  have "MessageHeader_write_bytes ?h [] @ u32_to_le_bytes 0 @ [0] = take 21 ?bs"
    by (simp add: msg_00_query_response_bytes_def) code_simp
  then have "(MessageHeader_write_bytes ?h [] @ u32_to_le_bytes 0 @ [0]) @ drop 21 ?bs = ?bs"
    by (simp only: append_take_drop_id)
  then have "MessageHeader_write_bytes ?h [] @ u32_to_le_bytes 0 @ 0 # drop 21 ?bs = ?bs"
    by (simp only: append.simps append_assoc)
  moreover have "frame_header MsgMessageTooLarge 2119 OpcodeMsg (RequestId 21)
      (ResponseTo_from_i32 17) = Inr ?h"
    by code_simp
  moreover have "length ?bs = 2119" by (simp add: msg_00_query_response_bytes_def)
  ultimately show ?thesis
    by (simp add: msg_00_query_response_def WireEncoder_encode_def Message_write_bytes_def
        OperationMessage_write_bytes_def checksum_flags_def flags_set_def response_body_encoded
        MessageHeader_size_def Let_def)
qed

text \<open>Every recording with the value the tests compare it to.\<close>

definition recordings :: "(Message \<times> byte list) list" where
  "recordings =
     [(msg_00_query_request, msg_00_query_request_bytes),
      (msg_00_query_response, msg_00_query_response_bytes),
      (msg_01_legacy_op_query, msg_01_legacy_op_query_bytes),
      (msg_01_legacy_op_reply, msg_01_legacy_op_reply_bytes)]"

lemmas recordings_encoded = request_encoded response_encoded query_encoded reply_encoded

lemma recordings_wf: "list_all wf_Message (map fst recordings)"
  by (simp add: recordings_def wf_Message_def wf_response_to_def ResponseTo_from_i32_def
      msg_00_query_request_def msg_00_query_response_def msg_01_legacy_op_query_def
      msg_01_legacy_op_reply_def
      wf_OperationMessage_def wf_OperationQuery_def wf_OperationReply_def known_flags_def) code_simp

lemma recordings_norm:
  "norm_Message msg_00_query_request = msg_00_query_request"
  "norm_Message msg_00_query_response = msg_00_query_response"
  "norm_Message msg_01_legacy_op_query = msg_01_legacy_op_query"
  "norm_Message msg_01_legacy_op_reply = msg_01_legacy_op_reply"
  by (simp_all add: norm_Message_def norm_OperationMessage_def checksum_flags_def flags_set_def
      msg_00_query_request_def msg_00_query_response_def msg_01_legacy_op_query_def
      msg_01_legacy_op_reply_def)

lemma recordings_frames:
  "list_all2 (message_frame reference_bson) (map fst recordings) (map snd recordings)"
proof -
  have "message_frame reference_bson m bs"
    if "WireEncoder_encode reference_bson m [] = (Inr (), bs)" "wf_Message m" for m bs
    using bson_codec.encode_frame [OF reference_codec that(1)] that(2) by (auto simp: wf_Message_def)
  with recordings_wf show ?thesis by (auto simp: recordings_def recordings_encoded)
qed

definition header_recordings :: "(MessageHeader \<times> byte list) list" where
  "header_recordings =
     [(op_msg_01_header, op_msg_01_header_bytes), (op_query_01_header, op_query_01_header_bytes)]"

section \<open>Conformance\<close>

text \<open>The model agrees with the recorded traffic. Every captured header and message is, byte
  for byte, what the encoder writes for the value the repository's tests expect, parsing
  the capture gives that value, and the captures sent down one connection, however they are
  cut into chunks, come out of the decoder as these values.\<close>

lemma recordings_conform:
  assumes "concat chunks = concat (map snd recordings)"
  shows "list_all (\<lambda>(h, bs). MessageHeader_write_bytes h [] = bs \<and>
           MessageHeader_from_bytes bs = Inr h) header_recordings \<and>
         list_all (\<lambda>(m, bs). WireEncoder_encode reference_bson m [] = (Inr (), bs) \<and>
           Message_from_bytes reference_bson bs = Inr m) recordings \<and>
         dr_output (decode_chunks reference_bson chunks) = map fst recordings \<and>
         dr_buf (decode_chunks reference_bson chunks) = []"
proof -
  have "list_all (\<lambda>(h, bs). MessageHeader_write_bytes h [] = bs \<and>
      MessageHeader_from_bytes bs = Inr h) header_recordings"
    by code_simp
  moreover have "Message_from_bytes reference_bson bs = Inr m" if "(m, bs) \<in> set recordings" for m bs
    using that recordings_frames recordings_wf recordings_norm
      message_frame_from_bytes [of reference_bson m bs]
    by (auto simp: recordings_def wf_Message_def)
  ultimately show ?thesis
    using bson_codec.decode_chunks_message_frames
      [OF reference_codec recordings_frames recordings_wf assms]
    by (auto simp: recordings_norm list_all_iff recordings_encoded recordings_def)
qed

lemma recordings_conform_witness:
  "dr_output (decode_chunks reference_bson (map snd recordings)) = map fst recordings"
  using recordings_conform [OF refl] by simp

end
