(* ===== verification/FuzzTarget.thy ===== *)
theory FuzzTarget
  imports Wire
begin

text \<open>
  The fuzz target of the decoder (\<open>src/fuzz/fuzz_targets/wire_decoder.rs\<close>): it feeds arbitrary bytes in
  chunks, polls the decoder once after each and drops a backlog above its cap. Shown: it ends
  after one call per chunk for every input, its buffer stays under the cap, and, as long as nothing
  fails and nothing is dropped, it performs a run of the decoder in the sense of \<open>Decoder\<close>, so
  that the theorems about runs describe what it exercises.
\<close>

section \<open>The target\<close>

definition MAX_BUF_BYTES :: nat where "MAX_BUF_BYTES = 64 * 1024"

text \<open>The loop from index \<open>i\<close> on, with the results of the calls; chunks have \<open>c + 1\<close> bytes.\<close>

function fuzz_loop ::
  "bson_crate \<Rightarrow> nat \<Rightarrow> byte list \<Rightarrow> nat \<Rightarrow> WireDecoder \<Rightarrow> byte list
   \<Rightarrow> (WireDecoderError + Message option) list \<times> WireDecoder \<times> byte list" where
  "fuzz_loop B c rest i decoder buf =
     (if i < length rest then
        let chunk_end = min (i + (c + 1)) (length rest);
            buf = buf @ take (chunk_end - i) (drop i rest) in
        case WireDecoder_decode B decoder buf of
          (r, decoder, buf) \<Rightarrow>
            let buf = (if MAX_BUF_BYTES < length buf then [] else buf) in
            (case fuzz_loop B c rest chunk_end decoder buf of
               (rs, decoder, buf) \<Rightarrow> (r # rs, decoder, buf))
      else ([], decoder, buf))"
  by pat_completeness auto
termination
  by (relation "measure (\<lambda>(B, c, rest, i, d, buf). length rest - i)") auto

declare fuzz_loop.simps [simp del]

text \<open>\<open>decode_eof\<close> is the method of the \<open>Decoder\<close> trait of \<open>tokio_util\<close>, an argument; its result is
  dropped like the others. The results are returned here to speak about them.\<close>

definition fuzz_target ::
  "bson_crate \<Rightarrow> (WireDecoder \<Rightarrow> byte list \<Rightarrow> 'r) \<Rightarrow> byte list
   \<Rightarrow> (WireDecoderError + Message option) list \<times> 'r option" where
  "fuzz_target B decode_eof data =
     (case data of
        [] \<Rightarrow> ([], None)
      | first # rest \<Rightarrow>
          (case fuzz_loop B (unat first mod 64) rest 0 WireDecoder_default [] of
             (rs, decoder, buf) \<Rightarrow> (rs, Some (decode_eof decoder buf))))"

section \<open>Lemmas\<close>

lemma fuzz_loop_step:
  assumes "i < length rest"
    and "WireDecoder_decode B d (buf @ take (min (i + (c + 1)) (length rest) - i) (drop i rest)) = (r, d1, buf1)"
  shows "fuzz_loop B c rest i d buf =
    (case fuzz_loop B c rest (min (i + (c + 1)) (length rest)) d1 (if MAX_BUF_BYTES < length buf1 then [] else buf1) of
       (rs, d, buf) \<Rightarrow> (r # rs, d, buf))"
  using assms by (subst fuzz_loop.simps) (simp add: Let_def)

lemma fuzz_loop_end: "\<not> i < length rest \<Longrightarrow> fuzz_loop B c rest i d buf = ([], d, buf)"
  by (subst fuzz_loop.simps) simp

lemma fuzz_loop_calls:
  assumes "i \<le> length rest"
  shows "length (fst (fuzz_loop B c rest i d buf)) = (length rest - i + c) div (c + 1)"
  using assms
proof (induction "length rest - i" arbitrary: i d buf rule: less_induct)
  case less
  show ?case
  proof (cases "i < length rest")
    case True
    let ?j = "min (i + (c + 1)) (length rest)"
    obtain r d1 buf1 where dec:
      "WireDecoder_decode B d (buf @ take (?j - i) (drop i rest)) = (r, d1, buf1)"
      by (cases "WireDecoder_decode B d (buf @ take (?j - i) (drop i rest))")
    have "length rest - i + c = (length rest - ?j + c) + (c + 1) \<or>
        length rest - i \<le> c + 1 \<and> ?j = length rest"
      using True by linarith
    then have "(length rest - i + c) div (c + 1) = Suc ((length rest - ?j + c) div (c + 1))"
    proof
      assume e: "length rest - i + c = (length rest - ?j + c) + (c + 1)"
      show ?thesis unfolding e by (simp only: div_add_self2)
    next
      assume l: "length rest - i \<le> c + 1 \<and> ?j = length rest"
      then have "(length rest - i + c) div (c + 1) = 1"
        using True by (intro div_nat_eqI) auto
      with l show ?thesis by simp
    qed
    moreover have "length (fst (fuzz_loop B c rest ?j d' buf')) = (length rest - ?j + c) div (c + 1)" for d' buf'
      using True by (intro less) auto
    ultimately show ?thesis
      by (simp add: fuzz_loop_step [OF True dec] split_beta)
  next
    case False
    then show ?thesis using less.prems by (simp add: fuzz_loop_end)
  qed
qed

lemma fuzz_loop_bounded:
  assumes "length buf \<le> MAX_BUF_BYTES"
  shows "length (snd (snd (fuzz_loop B c rest i d buf))) \<le> MAX_BUF_BYTES"
  using assms
proof (induction "length rest - i" arbitrary: i d buf rule: less_induct)
  case less
  show ?case
  proof (cases "i < length rest")
    case True
    let ?j = "min (i + (c + 1)) (length rest)"
    obtain r d1 buf1 where dec:
      "WireDecoder_decode B d (buf @ take (?j - i) (drop i rest)) = (r, d1, buf1)"
      by (cases "WireDecoder_decode B d (buf @ take (?j - i) (drop i rest))")
    have "length (snd (snd (fuzz_loop B c rest ?j d1 (if MAX_BUF_BYTES < length buf1 then [] else buf1)))) \<le> MAX_BUF_BYTES"
      using True by (intro less) auto
    then show ?thesis by (simp add: fuzz_loop_step [OF True dec] split_beta)
  next
    case False
    then show ?thesis using less.prems by (simp add: fuzz_loop_end)
  qed
qed

text \<open>The messages among the results.\<close>

fun fuzz_messages :: "(WireDecoderError + Message option) list \<Rightarrow> Message list" where
  "fuzz_messages [] = []"
| "fuzz_messages (Inr (Some m) # rs) = m # fuzz_messages rs"
| "fuzz_messages (_ # rs) = fuzz_messages rs"

text \<open>One iteration, if it does not fail, is an arrival followed by a poll.\<close>

lemma fuzz_step_reachable:
  assumes "decoder_reachable B s" "WireDecoder_decode B (dr_decoder s) (dr_buf s @ bs) = (r, d, buf)" "\<not> isl r"
  shows "decoder_reachable B (s\<lparr>dr_decoder := d, dr_buf := buf, dr_input := dr_input s @ bs,
    dr_output := dr_output s @ fuzz_messages [r]\<rparr>)"
proof -
  let ?s = "s\<lparr>dr_buf := dr_buf s @ bs, dr_input := dr_input s @ bs\<rparr>"
  have s: "decoder_reachable B ?s"
    using assms(1) by (blast intro: decoder_reachable.step decoder_step.received)
  obtain mo where r: "r = Inr mo" using assms(3) by (cases r) auto
  show ?thesis
  proof (cases mo)
    case None
    then show ?thesis
      using decoder_reachable.step [OF s decoder_step.polled_none [of B ?s d buf]] assms(2) by (cases s) (simp add: r)
  next
    case (Some m)
    then show ?thesis
      using decoder_reachable.step [OF s decoder_step.polled_some [of B ?s m d buf]] assms(2) by (cases s) (simp add: r)
  qed
qed

lemma decode_buffer_shrinks:
  "WireDecoder_decode B d buf = (r, d', buf') \<Longrightarrow> length buf' \<le> length buf"
  by (auto simp: WireDecoder_decode_def Let_def split: sum.splits option.splits if_splits)

lemma fuzz_loop_reachable:
  assumes "decoder_reachable B s" "dr_input s = take i rest" "i \<le> length rest"
    and "length (dr_buf s) \<le> i" "length rest \<le> MAX_BUF_BYTES"
    and "fuzz_loop B c rest i (dr_decoder s) (dr_buf s) = (rs, d, buf)" "list_all (\<lambda>r. \<not> isl r) rs"
  shows "decoder_reachable B (s\<lparr>dr_decoder := d, dr_buf := buf, dr_input := rest,
    dr_output := dr_output s @ fuzz_messages rs\<rparr>)"
  using assms
proof (induction "length rest - i" arbitrary: i s rs rule: less_induct)
  case less
  show ?case
  proof (cases "i < length rest")
    case True
    let ?j = "min (i + (c + 1)) (length rest)"
    let ?bs = "take (?j - i) (drop i rest)"
    obtain r d1 buf1 where dec: "WireDecoder_decode B (dr_decoder s) (dr_buf s @ ?bs) = (r, d1, buf1)"
      by (cases "WireDecoder_decode B (dr_decoder s) (dr_buf s @ ?bs)")
    have in_j: "take i rest @ ?bs = take ?j rest"
      using True by (metis add_diff_inverse_nat less_imp_le_nat min.bounded_iff not_less take_add trans_le_add1)
    have "length buf1 \<le> ?j"
      using decode_buffer_shrinks [OF dec] less.prems(4) True by (simp; linarith)
    then have nc: "\<not> MAX_BUF_BYTES < length buf1" using less.prems(5) by simp
    from less.prems(6) obtain rs' where rs: "rs = r # rs'"
      and l: "fuzz_loop B c rest ?j d1 buf1 = (rs', d, buf)"
      using nc by (auto simp: fuzz_loop_step [OF True dec] split: prod.splits)
    let ?t = "s\<lparr>dr_decoder := d1, dr_buf := buf1, dr_input := dr_input s @ ?bs,
      dr_output := dr_output s @ fuzz_messages [r]\<rparr>"
    have "decoder_reachable B ?t"
      using less.prems(1,7) dec rs by (intro fuzz_step_reachable) auto
    from less.hyps [of ?j ?t rs'] this less.prems l True \<open>length buf1 \<le> ?j\<close> in_j rs
    have "decoder_reachable B (?t\<lparr>dr_decoder := d, dr_buf := buf, dr_input := rest,
        dr_output := dr_output ?t @ fuzz_messages rs'\<rparr>)"
      by simp
    moreover have "fuzz_messages [r] @ fuzz_messages rs' = fuzz_messages rs"
      unfolding rs by (cases r rule: obj_sumE; cases "projr r") auto
    ultimately show ?thesis by simp
  next
    case False
    with less.prems show ?thesis by (cases s) (simp add: fuzz_loop_end)
  qed
qed

section \<open>Property\<close>

text \<open>The fuzz target is a faithful and bounded driver. For every input it calls the decoder once
  per chunk, that is at most as often as there are bytes, and then stops; and when the
  input fits the cap and no call fails, the messages it saw are a prefix of what the decoder yields
  for the same bytes however the network delivers them, once it is idle.\<close>

lemma fuzz_target_faithful:
  assumes "fuzz_target B decode_eof (first # rest) = (rs, eof)"
    and "list_all (\<lambda>r. \<not> isl r) rs" "length rest \<le> MAX_BUF_BYTES"
    and "decoder_reachable B t" "decoder_idle B t" "dr_input t = rest"
  shows "length rs = (length rest + unat first mod 64) div (unat first mod 64 + 1) \<and>
         prefix (fuzz_messages rs) (dr_output t)"
proof -
  let ?c = "unat first mod 64"
  obtain d buf where l: "fuzz_loop B ?c rest 0 WireDecoder_default [] = (rs, d, buf)"
    using assms(1) by (auto simp: fuzz_target_def split: prod.splits)
  have "decoder_reachable B (decoder_start\<lparr>dr_decoder := d, dr_buf := buf, dr_input := rest,
      dr_output := dr_output decoder_start @ fuzz_messages rs\<rparr>)"
    using l assms(2,3) by (intro fuzz_loop_reachable) (auto simp: decoder_start_def decoder_reachable.start [unfolded decoder_start_def])
  from decoder_reachable_inv [OF this] have "decodes B (dr_input t) (fuzz_messages rs) buf"
    using assms(6) by (simp add: decoder_inv_def decoder_start_def)
  from decoder_idle_maximal [OF decoder_reachable_inv [OF assms(4)] assms(5) this] l
    fuzz_loop_calls [of 0 rest B ?c WireDecoder_default "[]"]
  show ?thesis by simp
qed

lemma fuzz_target_faithful_witness:
  "prefix (fuzz_messages (fst (fuzz_target reference_bson (\<lambda>_ _. ()) (63 # ping_frame)))) [ping_message]"
proof -
  have f: "fuzz_target reference_bson (\<lambda>_ _. ()) (63 # ping_frame) = ([Inr (Some ping_message)], Some ())"
  proof -
    have d: "WireDecoder_decode reference_bson WireDecoder_default ping_frame =
        (Inr (Some ping_message), WireDecoder_default, [])"
      by code_simp
    have l: "length ping_frame = 36" by (simp add: ping_frame_def)
    have "fuzz_loop reference_bson 63 ping_frame 0 WireDecoder_default [] =
        ([Inr (Some ping_message)], WireDecoder_default, [])"
      using fuzz_loop_step [of 0 ping_frame reference_bson WireDecoder_default "[]" 63] d l
      by (simp add: fuzz_loop_end)
    then show ?thesis by (simp add: fuzz_target_def)
  qed
  have i: "dr_input (decode_chunks reference_bson [ping_frame]) = ping_frame" by code_simp
  have m: "length ping_frame \<le> MAX_BUF_BYTES" by (simp add: ping_frame_def MAX_BUF_BYTES_def)
  from fuzz_target_faithful [OF f _ m conjunct1 [OF decode_chunks_reachable] ping_run(1) i]
  show ?thesis by (simp add: f ping_run)
qed

end
