(* ===== verification/Probe.thy ===== *)
theory Probe
  imports Client "HOL-Library.Multiset"
begin

text \<open>
  Selection of the replica-set primary (\<open>src/src/serve/probe.rs\<close>). The probes of all hosts
  run concurrently; what \<open>FuturesUnordered\<close> yields is a list of completed
  probes in completion order, which is an argument: any order is possible.
\<close>

section \<open>Data\<close>

text \<open>\<open>SrvHost\<close> of \<open>src/src/srv.rs\<close>.\<close>

record SrvHost =
  sh_host :: string
  sh_port :: u16

datatype ProbeError =
    ProbeConnect ProxyClientForwardError
  | ProbeRequest ProxyClientRequestError
  | NoReply
  | ProbeResponse ProxyClientRequestError
  | MalformedReply

datatype ProbeOutcome = NotPrimary | ProbeFailed ProbeError | TimedOut

fun ProbeError_display :: "codec_text \<Rightarrow> ProbeError \<Rightarrow> string" where
  "ProbeError_display T (ProbeConnect e) = ''connect failed: '' @ ProxyClientForwardError_display e"
| "ProbeError_display T (ProbeRequest e) = ''hello request failed: '' @ ProxyClientRequestError_display T e"
| "ProbeError_display T NoReply = ''upstream closed before sending a hello reply''"
| "ProbeError_display T (ProbeResponse e) = ''hello response failed: '' @ ProxyClientRequestError_display T e"
| "ProbeError_display T MalformedReply =
     ''hello reply has no `isWritablePrimary` / `ismaster` boolean''"

fun ProbeOutcome_display :: "codec_text \<Rightarrow> ProbeOutcome \<Rightarrow> string" where
  "ProbeOutcome_display T NotPrimary = ''responded as a non-primary member''"
| "ProbeOutcome_display T (ProbeFailed e) = ''probe failed: '' @ ProbeError_display T e"
| "ProbeOutcome_display T TimedOut = ''timed out''"

datatype Selection =
    SelectedPrimary SrvHost
  | NoPrimarySelected "(SrvHost \<times> ProbeOutcome) list"

fun into_primary :: "Selection \<Rightarrow> SrvHost option" where
  "into_primary (SelectedPrimary host) = Some host"
| "into_primary (NoPrimarySelected _) = None"

section \<open>The probe of one host\<close>

text \<open>The constants of the build: package version, operating system, architecture.\<close>

record build_env =
  be_version :: string
  be_os :: string
  be_arch :: string

definition client_metadata :: "build_env \<Rightarrow> document" where
  "client_metadata E =
     [(''driver'', Document [(''name'', String ''mongod-proxy''), (''version'', String (be_version E))]),
      (''os'', Document [(''type'', String (be_os E)), (''architecture'', String (be_arch E))]),
      (''platform'', String ''Rust'')]"

definition build_hello_request :: "build_env \<Rightarrow> Message" where
  "build_hello_request E =
     \<lparr>msg_request_id = RequestId 1, msg_response_to = None,
      msg_operation = Operation_Message
        \<lparr>om_flags = 0,
         om_sections = [Body [(''hello'', Int32 1), (''$db'', String ''admin''),
           (''client'', Document (client_metadata E))]],
         om_checksum = None\<rparr>\<rparr>"

fun primary_in_sections :: "OpMsgSection list \<Rightarrow> bool option" where
  "primary_in_sections [] = None"
| "primary_in_sections (DocumentSequence _ _ # sections) = primary_in_sections sections"
| "primary_in_sections (Body doc # sections) =
     (case get_bool doc ''isWritablePrimary'' of
        Some v \<Rightarrow> Some v
      | None \<Rightarrow>
          (case get_bool doc ''ismaster'' of
             Some v \<Rightarrow> Some v
           | None \<Rightarrow> primary_in_sections sections))"

definition extract_is_writable_primary :: "Message \<Rightarrow> bool option" where
  "extract_is_writable_primary msg =
     (case msg_operation msg of
        Operation_Message op_msg \<Rightarrow> primary_in_sections (om_sections op_msg)
      | _ \<Rightarrow> None)"

text \<open>\<open>HelloProbe::is_primary\<close>; \<open>None\<close> if the host accepts the connection and then stays
  silent for ever.\<close>

definition is_primary ::
  "('sock, 'tls, 'r, 'w) network \<Rightarrow> 'r frame_poll \<Rightarrow> 'w frame_send \<Rightarrow> build_env \<Rightarrow> 'tls option
   \<Rightarrow> string \<Rightarrow> u16 \<Rightarrow> (ProbeError + bool) option" where
  "is_primary N read_frame send_frame E tls_connector host port =
     (case forward_to N host port tls_connector of
        Inl e \<Rightarrow> Some (Inl (ProbeConnect e))
      | Inr w \<Rightarrow>
          (case ProxyClient_call send_frame () (build_hello_request E) w of
             (Pending, _, _) \<Rightarrow> None
           | (Ready (Inl e), _, _) \<Rightarrow> Some (Inl (ProbeRequest e))
           | (Ready (Inr stream), _, w) \<Rightarrow>
               (case stream_next (ProxyResponseStream_poll_next read_frame) stream w of
                  None \<Rightarrow> None
                | Some (None, _, _) \<Rightarrow> Some (Inl NoReply)
                | Some (Some (Inl e), _, _) \<Rightarrow> Some (Inl (ProbeResponse e))
                | Some (Some (Inr reply), _, _) \<Rightarrow>
                    (case extract_is_writable_primary reply of
                       None \<Rightarrow> Some (Inl MalformedReply)
                     | Some is_primary \<Rightarrow> Some (Inr is_primary)))))"

section \<open>The race\<close>

text \<open>A completed probe: the host, and \<open>None\<close> if its timeout elapsed first.\<close>

type_synonym completion = "SrvHost \<times> (ProbeError + bool) option"

fun probe_reason :: "(ProbeError + bool) option \<Rightarrow> ProbeOutcome option" where
  "probe_reason (Some (Inr True)) = None"
| "probe_reason (Some (Inr False)) = Some NotPrimary"
| "probe_reason (Some (Inl e)) = Some (ProbeFailed e)"
| "probe_reason None = Some TimedOut"

text \<open>The loop of \<open>select_primary\<close> with the rejections so far.\<close>

fun race :: "completion list \<Rightarrow> (SrvHost \<times> ProbeOutcome) list \<Rightarrow> Selection" where
  "race [] rejected = NoPrimarySelected rejected"
| "race ((host, outcome) # probes) rejected =
     (case probe_reason outcome of
        None \<Rightarrow> SelectedPrimary host
      | Some reason \<Rightarrow> race probes (rejected @ [(host, reason)]))"

definition select_primary :: "completion list \<Rightarrow> Selection" where
  "select_primary probes = race probes []"

text \<open>A possible outcome of probing \<open>hosts\<close>: every host settles exactly once.\<close>

definition settles :: "SrvHost list \<Rightarrow> completion list \<Rightarrow> bool" where
  "settles hosts probes \<longleftrightarrow> mset (map fst probes) = mset hosts"

lemma probe_reason_None: "probe_reason outcome = None \<longleftrightarrow> outcome = Some (Inr True)"
  by (cases outcome rule: probe_reason.cases) auto

lemma race_primary:
  "race probes rejected = SelectedPrimary h \<Longrightarrow>
   \<exists>before after. probes = before @ (h, Some (Inr True)) # after \<and>
     (\<forall>(_, outcome) \<in> set before. outcome \<noteq> Some (Inr True))"
proof (induction probes rejected rule: race.induct)
  case (2 host outcome probes rejected)
  show ?case
  proof (cases "probe_reason outcome")
    case None
    with 2 show ?thesis by (intro exI [of _ "[]"] exI [of _ probes]) (auto simp: probe_reason_None)
  next
    case (Some reason)
    with 2 obtain before after where
      "probes = before @ (h, Some (Inr True)) # after \<and>
        (\<forall>(_, outcome) \<in> set before. outcome \<noteq> Some (Inr True))"
      by auto
    with Some show ?thesis
      by (intro exI [of _ "(host, outcome) # before"] exI [of _ after]) (auto simp: probe_reason_None [symmetric])
  qed
qed simp

lemma race_no_primary:
  "race probes rejected = NoPrimarySelected attempts \<Longrightarrow>
   attempts = rejected @ map (\<lambda>(h, outcome). (h, the (probe_reason outcome))) probes \<and>
   (\<forall>(_, outcome) \<in> set probes. outcome \<noteq> Some (Inr True))"
  by (induction probes rejected rule: race.induct)
    (auto simp: probe_reason_None [symmetric] split: option.splits)

section \<open>The clock\<close>

text \<open>A probe with the time at which it would answer, and \<open>None\<close> if it never does. \<open>timeout\<close> polls the
  probe before its timer, so an answer at the very end of the budget still counts. Probes that
  settle at the same time may be collected in any order.\<close>

type_synonym timed_probe = "SrvHost \<times> (nat \<times> (ProbeError + bool)) option"

fun with_timeout :: "nat \<Rightarrow> timed_probe \<Rightarrow> SrvHost \<times> nat \<times> (ProbeError + bool) option" where
  "with_timeout timeout (host, Some (t, r)) =
     (if t \<le> timeout then (host, t, Some r) else (host, timeout, None))"
| "with_timeout timeout (host, None) = (host, timeout, None)"

definition timed_race :: "nat \<Rightarrow> timed_probe list \<Rightarrow> completion list \<Rightarrow> bool" where
  "timed_race timeout probes completions \<longleftrightarrow>
     (\<exists>settled. mset settled = mset (map (with_timeout timeout) probes) \<and> sorted (map (fst \<circ> snd) settled) \<and>
        completions = map (\<lambda>(host, _, outcome). (host, outcome)) settled)"

text \<open>One such order: hosts that settle together in the order of the list.\<close>

definition timed_completions :: "nat \<Rightarrow> timed_probe list \<Rightarrow> completion list" where
  "timed_completions timeout probes =
     map (\<lambda>(host, _, outcome). (host, outcome))
       (sort_key (fst \<circ> snd) (map (with_timeout timeout) probes))"

lemma timed_completions_race: "timed_race timeout probes (timed_completions timeout probes)"
  unfolding timed_race_def timed_completions_def
  by (intro exI [of _ "sort_key (fst \<circ> snd) (map (with_timeout timeout) probes)"]) simp

lemma with_timeout_host [simp]: "fst (with_timeout timeout p) = fst p"
  by (cases "(timeout, p)" rule: with_timeout.cases) auto

lemma with_timeout_primary:
  "with_timeout timeout p = (h, t, Some r) \<longleftrightarrow> p = (h, Some (t, r)) \<and> t \<le> timeout"
  by (cases "(timeout, p)" rule: with_timeout.cases) auto

lemma timed_race_settles:
  assumes "timed_race timeout probes completions"
  shows "settles (map fst probes) completions"
proof -
  from assms obtain settled where m: "mset settled = mset (map (with_timeout timeout) probes)"
    and c: "completions = map (\<lambda>(host, _, outcome). (host, outcome)) settled"
    by (auto simp: timed_race_def)
  have "mset (map fst completions) = image_mset fst (mset settled)"
    by (simp add: c comp_def split_beta)
  also have "\<dots> = mset (map fst (map (with_timeout timeout) probes))" by (simp only: m mset_map)
  also have "map fst (map (with_timeout timeout) probes) = map fst probes" by simp
  finally show ?thesis by (simp add: settles_def)
qed

lemma timed_race_settled:
  assumes "timed_race timeout probes completions"
  obtains settled where
    "\<And>h t. (h, t, Some (Inr True)) \<in> set settled \<longleftrightarrow> (h, Some (t, Inr True)) \<in> set probes \<and> t \<le> timeout"
    "sorted (map (fst \<circ> snd) settled)" "completions = map (\<lambda>(host, _, outcome). (host, outcome)) settled"
proof -
  from assms obtain settled where "mset settled = mset (map (with_timeout timeout) probes)"
    and srt: "sorted (map (fst \<circ> snd) settled)"
    and c: "completions = map (\<lambda>(host, _, outcome). (host, outcome)) settled"
    unfolding timed_race_def by blast
  then have m: "set settled = with_timeout timeout ` set probes"
    using mset_eq_setD by fastforce
  have settled_primary: "(h, t, Some (Inr True)) \<in> set settled \<longleftrightarrow> (h, Some (t, Inr True)) \<in> set probes \<and> t \<le> timeout" for h t
  proof
    assume "(h, t, Some (Inr True)) \<in> set settled"
    then obtain p where "p \<in> set probes" "with_timeout timeout p = (h, t, Some (Inr True))"
      unfolding m by force
    then show "(h, Some (t, Inr True)) \<in> set probes \<and> t \<le> timeout" by (simp add: with_timeout_primary)
  next
    assume "(h, Some (t, Inr True)) \<in> set probes \<and> t \<le> timeout"
    then show "(h, t, Some (Inr True)) \<in> set settled" unfolding m by force
  qed
  with srt c that show ?thesis by blast
qed

section \<open>Properties\<close>

text \<open>C31. The race picks a primary if there is one. In whatever order the probes settle, the
  selected host is one of the candidates that answered as primary, the first to do so;
  and no primary is reported only if no candidate answered as one, with exactly one
  reason for every candidate.\<close>

theorem select_primary_correct:
  assumes "settles hosts probes"
  shows "case select_primary probes of
      SelectedPrimary h \<Rightarrow> h \<in> set hosts \<and> (h, Some (Inr True)) \<in> set probes \<and>
        find (\<lambda>(_, outcome). outcome = Some (Inr True)) probes = Some (h, Some (Inr True))
    | NoPrimarySelected attempts \<Rightarrow> mset (map fst attempts) = mset hosts \<and>
        (\<forall>h. (h, Some (Inr True)) \<notin> set probes) \<and>
        (\<forall>(h, reason) \<in> set attempts. \<exists>outcome. (h, outcome) \<in> set probes \<and> probe_reason outcome = Some reason)"
proof (cases "select_primary probes")
  case (SelectedPrimary h)
  then obtain before after where p: "probes = before @ (h, Some (Inr True)) # after"
    and b: "\<forall>(_, outcome) \<in> set before. outcome \<noteq> Some (Inr True)"
    using race_primary unfolding select_primary_def by blast
  have "find (\<lambda>(_, outcome). outcome = Some (Inr True)) probes = Some (h, Some (Inr True))"
    using b unfolding p by (induction before) auto
  moreover have "set hosts = fst ` set probes"
    using assms mset_eq_setD [of "map fst probes" hosts] by (simp add: settles_def)
  ultimately show ?thesis using SelectedPrimary p by (auto simp: image_iff)
next
  case (NoPrimarySelected attempts)
  from race_no_primary [OF NoPrimarySelected [unfolded select_primary_def]]
  have a: "attempts = map (\<lambda>(h, outcome). (h, the (probe_reason outcome))) probes"
    and n: "\<forall>(_, outcome) \<in> set probes. outcome \<noteq> Some (Inr True)" by auto
  have "map fst attempts = map fst probes" by (auto simp: a)
  moreover have "\<exists>r. probe_reason outcome = Some r" if "(h, outcome) \<in> set probes" for h outcome
    using n that probe_reason_None [of outcome] by auto
  moreover from this have "\<exists>outcome. (h, outcome) \<in> set probes \<and> probe_reason outcome = Some reason"
    if "(h, reason) \<in> set attempts" for h reason
    using that by (fastforce simp: a)
  moreover have "(h, Some (Inr True)) \<notin> set probes" for h using n by auto
  ultimately show ?thesis using NoPrimarySelected assms by (auto simp: settles_def)
qed

definition sample_host :: "string \<Rightarrow> SrvHost" where
  "sample_host h = \<lparr>sh_host = h, sh_port = 27017\<rparr>"

theorem select_primary_correct_witness:
  "case select_primary [(sample_host ''b'', None), (sample_host ''a'', Some (Inr True))] of
     SelectedPrimary h \<Rightarrow> h \<in> set [sample_host ''a'', sample_host ''b'']
   | NoPrimarySelected _ \<Rightarrow> False"
proof -
  have "settles [sample_host ''a'', sample_host ''b'']
      [(sample_host ''b'', None), (sample_host ''a'', Some (Inr True))]"
    by (simp add: settles_def add_mset_commute)
  from select_primary_correct [OF this] show ?thesis by (simp add: select_primary_def)
qed

text \<open>The budget is per host and the fastest primary wins. Whatever the other hosts do, if a host
  answers as primary within the timeout then a primary is selected, one that answered no
  later than any other primary; if no host does, none is selected.\<close>

lemma fastest_primary_selected:
  assumes "timed_race timeout probes completions"
  shows "case into_primary (select_primary completions) of
      Some h \<Rightarrow> \<exists>t. (h, Some (t, Inr True)) \<in> set probes \<and> t \<le> timeout \<and>
        (\<forall>h' t'. (h', Some (t', Inr True)) \<in> set probes \<longrightarrow> t \<le> t')
    | None \<Rightarrow> \<forall>h t. (h, Some (t, Inr True)) \<in> set probes \<longrightarrow> timeout < t"
proof -
  from timed_race_settled [OF assms] obtain settled where
    settled_primary: "\<And>h t. (h, t, Some (Inr True)) \<in> set settled \<longleftrightarrow> (h, Some (t, Inr True)) \<in> set probes \<and> t \<le> timeout"
    and srt: "sorted (map (fst \<circ> snd) settled)"
    and c: "completions = map (\<lambda>(host, _, outcome). (host, outcome)) settled"
    by blast
  show ?thesis
  proof (cases "select_primary completions")
    case (SelectedPrimary h)
    then obtain before after where p: "completions = before @ (h, Some (Inr True)) # after"
      and b: "\<forall>(_, outcome) \<in> set before. outcome \<noteq> Some (Inr True)"
      using race_primary unfolding select_primary_def by blast
    then obtain sb t sa where s: "settled = sb @ (h, t, Some (Inr True)) # sa"
      and sb: "before = map (\<lambda>(host, _, outcome). (host, outcome)) sb"
      unfolding c by (auto simp: map_eq_append_conv map_eq_Cons_conv)
    have "t \<le> t'" if a: "(h', t', Some (Inr True)) \<in> set settled" for h' t'
    proof -
      have "(h', t', Some (Inr True)) \<notin> set sb" using b unfolding sb by force
      with a srt show ?thesis unfolding s by (auto simp: sorted_append)
    qed
    moreover have "(h, t, Some (Inr True)) \<in> set settled" by (simp add: s)
    ultimately have "(h, Some (t, Inr True)) \<in> set probes \<and> t \<le> timeout \<and>
        (\<forall>h' t'. (h', Some (t', Inr True)) \<in> set probes \<longrightarrow> t \<le> t')"
      by (meson settled_primary nat_le_linear order_trans)
    then show ?thesis using SelectedPrimary by auto
  next
    case (NoPrimarySelected attempts)
    with race_no_primary have "\<forall>(_, outcome) \<in> set completions. outcome \<noteq> Some (Inr True)"
      unfolding select_primary_def by blast
    then have "(h, t, Some (Inr True)) \<notin> set settled" for h t unfolding c by force
    with NoPrimarySelected settled_primary show ?thesis by (auto simp: not_le)
  qed
qed

lemma fastest_primary_selected_witness:
  "into_primary (select_primary (timed_completions 5000
     [(sample_host ''hang'', None), (sample_host ''cold'', Some (8000, Inr True)),
      (sample_host ''slow'', Some (2000, Inr True))])) = Some (sample_host ''slow'')"
proof -
  let ?p = "[(sample_host ''hang'', None), (sample_host ''cold'', Some (8000, Inr True)),
      (sample_host ''slow'', Some (2000, Inr True))] :: timed_probe list"
  from fastest_primary_selected [OF timed_completions_race [of 5000 ?p]]
  show ?thesis by (auto split: option.splits)
qed

text \<open>A probe never ends with \<open>NoReply\<close>: a host that closes the connection without a
  reply is reported as a failed response with \<open>EndOfStream\<close>.\<close>

lemma probe_never_NoReply:
  fixes N :: "('sock, 'tls, 'r, 'w) network"
  shows "is_primary N read_frame send_frame E tls host port \<noteq> Some (Inl NoReply)"
proof
  assume a: "is_primary N read_frame send_frame E tls host port = Some (Inl NoReply)"
  have "\<not> more_to_come (msg_operation (build_hello_request E))"
    by (simp add: more_to_come_def build_hello_request_def flags_contains_def MORE_TO_COME_def)
  with a obtain guard :: "('r, 'w) ProxyClientInner" and w st' w' where
    "stream_next (ProxyResponseStream_poll_next read_frame) (Streaming guard) w = Some (None, st', w')"
    by (auto simp: is_primary_def ProxyClient_call_def Let_def
        split: sum.splits prod.splits poll.splits option.splits mutex.splits)
  then obtain s0 w0 where "s0 \<noteq> Done"
    "ProxyResponseStream_poll_next read_frame s0 w0 = (Ready None, st', w')"
    using stream_next_invariant [where I = "\<lambda>s w. s \<noteq> Done"]
    by (fastforce simp: ProxyResponseStream_poll_next_def Let_def
        split: ProxyResponseStream.splits prod.splits poll.splits option.splits sum.splits if_splits)
  then show False
    by (auto simp: ProxyResponseStream_poll_next_def Let_def
        split: ProxyResponseStream.splits prod.splits poll.splits option.splits sum.splits if_splits)
qed

end
