(* ===== verification/Srv.thy ===== *)
theory Srv
  imports Probe "HOL-Library.Sublist"
begin

text \<open>
  DNS SRV resolution (\<open>src/src/srv.rs\<close>): the ordering of the records by priority and weight,
  and the validation of their targets. The resolver is a parameter: a function from
  the query to the answer. The random number generator is abstract in the ordering (the
  locale \<open>weighted_rng\<close> is the trait \<open>WeightedRng\<close>), and \<open>SplitMix64\<close> is its instance.
\<close>

section \<open>Data\<close>

definition DEFAULT_SRV_SERVICE_NAME :: string where
  "DEFAULT_SRV_SERVICE_NAME = ''mongodb''"

record RawSrvRecord =
  rr_target :: string
  rr_port :: u16
  rr_priority :: u16
  rr_weight :: u16

text \<open>The source of a failure, an error of the resolver, is its text.\<close>

record LookupFailure =
  lf_message :: string
  lf_source :: "string option"

definition LookupFailure_new :: "string \<Rightarrow> string \<Rightarrow> LookupFailure" where
  "LookupFailure_new message source = \<lparr>lf_message = message, lf_source = Some source\<rparr>"

definition LookupFailure_message :: "LookupFailure \<Rightarrow> string" where
  "LookupFailure_message e = lf_message e"

datatype SrvResolveError =
    ResolverInit LookupFailure
  | Lookup string string LookupFailure \<comment> \<open>hostname, service, source\<close>
  | NoRecords string string \<comment> \<open>hostname, service\<close>
  | DomainMismatch string string string \<comment> \<open>hostname, parent, target\<close>
  | SrvNoPrimary string "(SrvHost \<times> ProbeOutcome) list" \<comment> \<open>hostname, attempts\<close>

definition summarise_attempts :: "codec_text \<Rightarrow> (SrvHost \<times> ProbeOutcome) list \<Rightarrow> string" where
  "summarise_attempts T attempts =
     (if attempts = [] then ''no hosts probed''
      else str_join ''; ''
        (map (\<lambda>(host, outcome). sh_host host @ '':'' @ show_u16 (sh_port host) @ '' '' @
           ProbeOutcome_display T outcome) attempts))"

fun SrvResolveError_display :: "codec_text \<Rightarrow> SrvResolveError \<Rightarrow> string" where
  "SrvResolveError_display T (ResolverInit e) =
     ''failed to initialise DNS resolver: '' @ LookupFailure_message e"
| "SrvResolveError_display T (Lookup hostname service source) =
     ''SRV lookup for `_'' @ service @ ''._tcp.'' @ hostname @ ''` failed: '' @ LookupFailure_message source"
| "SrvResolveError_display T (NoRecords hostname service) =
     ''SRV lookup for `_'' @ service @ ''._tcp.'' @ hostname @ ''` returned no records''"
| "SrvResolveError_display T (DomainMismatch hostname parent target) =
     ''SRV record target `'' @ target @ ''` for `'' @ hostname @ ''` is outside the parent domain `'' @ parent @ ''`''"
| "SrvResolveError_display T (SrvNoPrimary hostname attempts) =
     ''no primary found among '' @ show_nat (length attempts) @ '' SRV-resolved hosts for `'' @ hostname @
     ''` ('' @ summarise_attempts T attempts @ '')''"

section \<open>The resolver\<close>

text \<open>What is used of \<open>hickory_resolver\<close>: building a resolver from the system configuration, and
  the answers to an SRV query, each an SRV record (with the \<open>to_utf8\<close> of its target) or
  another kind of record. Errors are their texts.\<close>

datatype RData = RData_SRV RawSrvRecord | RData_Other

record ('b, 'r) hickory =
  builder_tokio :: "string + 'b"
  builder_build :: "'b \<Rightarrow> string + 'r"
  srv_lookup :: "'r \<Rightarrow> string \<Rightarrow> string + RData list"

definition from_system_config :: "('b, 'r) hickory \<Rightarrow> LookupFailure + 'r" where
  "from_system_config H =
     res_bind (map_err (LookupFailure_new ''read system DNS config'') (builder_tokio H)) (\<lambda>builder.
     map_err (LookupFailure_new ''build DNS resolver'') (builder_build H builder))"

fun srv_record :: "RData \<Rightarrow> RawSrvRecord option" where
  "srv_record (RData_SRV srv) =
     Some \<lparr>rr_target = rr_target srv, rr_port = rr_port srv, rr_priority = rr_priority srv, rr_weight = rr_weight srv\<rparr>"
| "srv_record RData_Other = None"

definition HickorySrvLookup_lookup ::
  "('b, 'r) hickory \<Rightarrow> 'r \<Rightarrow> string \<Rightarrow> LookupFailure + RawSrvRecord list" where
  "HickorySrvLookup_lookup H resolver query =
     res_bind (map_err (LookupFailure_new ''srv_lookup'') (srv_lookup H resolver query)) (\<lambda>answers.
     Inr (List.map_filter srv_record answers))"

text \<open>The system's lookup, as \<open>resolve_with_service_name\<close> makes it.\<close>

definition system_lookup_of ::
  "('b, 'r) hickory \<Rightarrow> LookupFailure + (string \<Rightarrow> LookupFailure + RawSrvRecord list)" where
  "system_lookup_of H =
     res_bind (from_system_config H) (\<lambda>resolver. Inr (HickorySrvLookup_lookup H resolver))"

section \<open>Random numbers\<close>

text \<open>A generator takes its state and an upper bound.\<close>

type_synonym 'g rng = "'g \<Rightarrow> u32 \<Rightarrow> u32 \<times> 'g"

locale weighted_rng =
  fixes gen_range_inclusive :: "'g rng"
  assumes in_range: "gen_range_inclusive g max_value = (x, g') \<Longrightarrow> x \<le> max_value"

record SplitMix64 =
  sm_state :: u64

text \<open>\<open>from_entropy\<close>; the value the randomly keyed hasher gives for the empty input is an argument.\<close>

definition from_entropy :: "u64 \<Rightarrow> SplitMix64" where
  "from_entropy hash = \<lparr>sm_state = hash\<rparr>"

definition next_u64 :: "SplitMix64 \<Rightarrow> u64 \<times> SplitMix64" where
  "next_u64 g =
     (let state = sm_state g + 0x9E3779B97F4A7C15;
          z = state;
          z = (z XOR drop_bit 30 z) * 0xBF58476D1CE4E5B9;
          z = (z XOR drop_bit 27 z) * 0x94D049BB133111EB in
      (z XOR drop_bit 31 z, g\<lparr>sm_state := state\<rparr>))"

definition SplitMix64_gen_range_inclusive :: "SplitMix64 rng" where
  "SplitMix64_gen_range_inclusive g max_value =
     (if max_value = 0 then (0, g)
      else
        case next_u64 g of
          (x, g) \<Rightarrow> (ucast (x mod (ucast max_value + 1)), g))"

section \<open>Ordering\<close>

text \<open>The loop that looks for the record whose running sum reaches \<open>pick\<close>; index 0 is the
  default. The sums are \<open>u32\<close>.\<close>

fun choose_index :: "u32 \<Rightarrow> u32 \<Rightarrow> nat \<Rightarrow> RawSrvRecord list \<Rightarrow> nat" where
  "choose_index pick running idx [] = 0"
| "choose_index pick running idx (r # rs) =
     (let running = running + ucast (rr_weight r) in
      if pick \<le> running then idx else choose_index pick running (Suc idx) rs)"

definition weight_total :: "RawSrvRecord list \<Rightarrow> u32" where
  "weight_total grp = sum_list (map (\<lambda>r. ucast (rr_weight r)) grp)"

lemma choose_index_bound: "rs \<noteq> [] \<Longrightarrow> choose_index pick running idx rs < idx + length rs \<or> choose_index pick running idx rs = 0"
proof (induction pick running idx rs rule: choose_index.induct)
  case (2 pick running idx r rs)
  then show ?case by (cases "rs = []") (auto simp: Let_def)
qed simp

lemma choose_index_less: "rs \<noteq> [] \<Longrightarrow> choose_index pick running 0 rs < length rs"
  using choose_index_bound [of rs pick running 0] by auto

text \<open>\<open>weighted_shuffle_into\<close>, with the records it appends and the generator after it.
  Sorting by \<open>weight != 0\<close> puts the records of weight 0 first and is stable.\<close>

function weighted_shuffle :: "'g rng \<Rightarrow> RawSrvRecord list \<Rightarrow> 'g \<Rightarrow> RawSrvRecord list \<times> 'g" where
  "weighted_shuffle gen grp g =
     (if grp = [] then ([], g)
      else
        let grp = sort_key (\<lambda>r. rr_weight r \<noteq> 0) grp in
        case gen g (weight_total grp) of
          (pick, g) \<Rightarrow>
            let chosen = choose_index pick 0 0 grp in
            case weighted_shuffle gen (take chosen grp @ drop (Suc chosen) grp) g of
              (rest, g) \<Rightarrow> (grp ! chosen # rest, g))"
  by pat_completeness auto
termination
proof (relation "measure (\<lambda>(gen, grp, g). length grp)", goal_cases)
  case (2 gen grp g grp' pick g' chosen)
  then have len: "length grp' = length grp" by simp
  with 2 have "grp' \<noteq> []" by (metis length_0_conv)
  from choose_index_less [OF this, of pick 0] 2(4) have "chosen < length grp'" by metis
  with len show ?case by auto
qed simp

declare weighted_shuffle.simps [simp del]

text \<open>The outer loop: cut the sorted records into groups of equal priority.\<close>

function shuffle_groups :: "'g rng \<Rightarrow> RawSrvRecord list \<Rightarrow> 'g \<Rightarrow> RawSrvRecord list \<times> 'g" where
  "shuffle_groups gen [] g = ([], g)"
| "shuffle_groups gen (r # rest) g =
     (case weighted_shuffle gen (takeWhile (\<lambda>x. rr_priority x = rr_priority r) (r # rest)) g of
        (grp, g) \<Rightarrow>
          (case shuffle_groups gen (dropWhile (\<lambda>x. rr_priority x = rr_priority r) (r # rest)) g of
             (ordered, g) \<Rightarrow> (grp @ ordered, g)))"
  by pat_completeness auto
termination
  by (relation "measure (\<lambda>(gen, rs, g). length rs)") (auto simp: less_Suc_eq_le length_dropWhile_le)

definition order_by_priority_weight ::
  "'g rng \<Rightarrow> RawSrvRecord list \<Rightarrow> 'g \<Rightarrow> RawSrvRecord list \<times> 'g" where
  "order_by_priority_weight gen records g = shuffle_groups gen (sort_key rr_priority records) g"

section \<open>Validation\<close>

definition strip_trailing_dot :: "string \<Rightarrow> string" where
  "strip_trailing_dot s = (if s \<noteq> [] \<and> last s = CHR ''.'' then butlast s else s)"

definition parent_domain :: "string \<Rightarrow> string" where
  "parent_domain hostname =
     (let labels = str_split CHR ''.'' hostname in
      if 3 \<le> length labels then str_join ''.'' (tl labels) else hostname)"

definition target_in_parent_domain :: "string \<Rightarrow> string \<Rightarrow> bool" where
  "target_in_parent_domain target parent =
     (let target_labels = str_split CHR ''.'' target in
      if length target_labels < 2 then False
      else suffix (str_split CHR ''.'' parent) (tl target_labels))"

text \<open>The loop over the ordered records.\<close>

fun validate_records ::
  "string \<Rightarrow> string \<Rightarrow> RawSrvRecord list \<Rightarrow> SrvResolveError + SrvHost list" where
  "validate_records srv_hostname parent [] = Inr []"
| "validate_records srv_hostname parent (record # rest) =
     (let host = strip_trailing_dot (rr_target record) in
      if \<not> target_in_parent_domain host parent then Inl (DomainMismatch srv_hostname parent host)
      else res_bind (validate_records srv_hostname parent rest) (\<lambda>hosts.
           Inr (\<lparr>sh_host = host, sh_port = rr_port record\<rparr> # hosts)))"

text \<open>\<open>entropy\<close> is the seed that \<open>SplitMix64::from_entropy\<close> draws.\<close>

definition resolve_with ::
  "(string \<Rightarrow> LookupFailure + RawSrvRecord list) \<Rightarrow> u64 \<Rightarrow> string \<Rightarrow> string
   \<Rightarrow> SrvResolveError + SrvHost list" where
  "resolve_with lookup entropy srv_hostname service_name =
     (let query = ''_'' @ service_name @ ''._tcp.'' @ srv_hostname in
      res_bind (map_err (Lookup srv_hostname service_name) (lookup query)) (\<lambda>raw.
      let raw = fst (order_by_priority_weight SplitMix64_gen_range_inclusive raw (from_entropy entropy));
          parent = parent_domain srv_hostname in
      res_bind (validate_records srv_hostname parent raw) (\<lambda>hosts.
      if hosts = [] then Inl (NoRecords srv_hostname service_name) else Inr hosts)))"

text \<open>\<open>system_lookup\<close> is the resolver built from the system configuration, if that can be read.\<close>

definition resolve_with_service_name ::
  "(LookupFailure + (string \<Rightarrow> LookupFailure + RawSrvRecord list)) \<Rightarrow> u64 \<Rightarrow> string \<Rightarrow> string
   \<Rightarrow> SrvResolveError + SrvHost list" where
  "resolve_with_service_name system_lookup entropy srv_hostname service_name =
     res_bind (map_err ResolverInit system_lookup) (\<lambda>lookup.
     resolve_with lookup entropy srv_hostname service_name)"

definition resolve ::
  "(LookupFailure + (string \<Rightarrow> LookupFailure + RawSrvRecord list)) \<Rightarrow> u64 \<Rightarrow> string
   \<Rightarrow> SrvResolveError + SrvHost list" where
  "resolve system_lookup entropy srv_hostname =
     resolve_with_service_name system_lookup entropy srv_hostname DEFAULT_SRV_SERVICE_NAME"

section \<open>The generator stays in range\<close>

lemma ucast_u64_mod: "unat (x mod (ucast m + 1) :: u64) \<le> unat m" for m :: u32
proof -
  have "unat m < 4294967296" using unsigned_less [of m] by simp
  then have m: "unat (ucast m + 1 :: u64) = unat m + 1"
    by (simp add: unat_word_ariths unsigned_ucast_eq take_bit_nat_eq_self)
  have "unat (x mod (ucast m + 1)) = unat x mod (unat m + 1)" by (simp add: unat_mod_distrib m)
  also have "\<dots> \<le> unat m" by (metis Suc_eq_plus1 le_simps(2) mod_less_divisor zero_less_Suc)
  finally show ?thesis .
qed

interpretation split_mix: weighted_rng SplitMix64_gen_range_inclusive
proof
  fix g :: SplitMix64 and m x :: u32 and g'
  assume "SplitMix64_gen_range_inclusive g m = (x, g')"
  then consider "x \<le> m" | y where "x = ucast (y mod (ucast m + 1) :: u64)"
    by (auto simp: SplitMix64_gen_range_inclusive_def split: if_splits prod.splits)
  then show "x \<le> m"
  proof cases
    case 2
    have "unat (y mod (ucast m + 1) :: u64) < 4294967296"
      using ucast_u64_mod [of y m] by (rule order.strict_trans1) (use unsigned_less [of m] in simp)
    then have "unat x = unat (y mod (ucast m + 1) :: u64)"
      by (simp add: 2 unsigned_ucast_eq take_bit_nat_eq_self)
    with ucast_u64_mod [of y m] show ?thesis by (simp add: word_le_nat_alt)
  qed
qed

section \<open>The ordering\<close>

lemma mset_take_nth_drop:
  "i < length xs \<Longrightarrow> add_mset (xs ! i) (mset (take i xs @ drop (Suc i) xs)) = mset xs"
  by (metis add_mset_add_single id_take_nth_drop mset_append mset.simps(2) union_mset_add_mset_right)

lemma sort_key_Nil_iff [simp]: "sort_key f xs = [] \<longleftrightarrow> xs = []"
  by (metis length_0_conv length_sort)

lemma weighted_shuffle_mset: "mset (fst (weighted_shuffle gen grp g)) = mset grp"
proof (induction gen grp g rule: weighted_shuffle.induct)
  case (1 gen grp g)
  show ?case
  proof (cases "grp = []")
    case True
    then show ?thesis by (simp add: weighted_shuffle.simps)
  next
    case False
    let ?grp = "sort_key (\<lambda>r. rr_weight r \<noteq> 0) grp"
    obtain pick g1 where p: "gen g (weight_total ?grp) = (pick, g1)" by (cases "gen g (weight_total ?grp)")
    let ?i = "choose_index pick 0 0 ?grp"
    have i: "?i < length ?grp" using False by (intro choose_index_less) simp
    have "mset (fst (weighted_shuffle gen grp g)) =
        add_mset (?grp ! ?i) (mset (fst (weighted_shuffle gen (take ?i ?grp @ drop (Suc ?i) ?grp) g1)))"
      using False p by (subst weighted_shuffle.simps) (simp add: Let_def split: prod.splits)
    also have "\<dots> = add_mset (?grp ! ?i) (mset (take ?i ?grp @ drop (Suc ?i) ?grp))"
      using 1 [OF False refl p [symmetric] refl] by simp
    also have "\<dots> = mset grp" using mset_take_nth_drop [OF i] by simp
    finally show ?thesis .
  qed
qed

lemma shuffle_groups_mset: "mset (fst (shuffle_groups gen rs g)) = mset rs"
proof (induction gen rs g rule: shuffle_groups.induct)
  case (2 gen r rest g)
  let ?p = "\<lambda>x. rr_priority x = rr_priority r"
  have "mset (takeWhile ?p (r # rest)) + mset (dropWhile ?p (r # rest)) = mset (r # rest)"
    by (metis mset_append takeWhile_dropWhile_id)
  with 2 show ?case
    using weighted_shuffle_mset [of gen "takeWhile ?p (r # rest)" g]
    by (auto split: prod.splits simp del: takeWhile.simps dropWhile.simps)
qed simp

lemma shuffle_groups_sorted:
  "sorted (map rr_priority rs) \<Longrightarrow> sorted (map rr_priority (fst (shuffle_groups gen rs g)))"
proof (induction gen rs g rule: shuffle_groups.induct)
  case (2 gen r rest g)
  let ?p = "\<lambda>x. rr_priority x = rr_priority r"
  let ?t = "takeWhile ?p (r # rest)" and ?d = "dropWhile ?p (r # rest)"
  obtain a g1 where a: "weighted_shuffle gen ?t g = (a, g1)" by (cases "weighted_shuffle gen ?t g")
  obtain b g2 where b: "shuffle_groups gen ?d g1 = (b, g2)" by (cases "shuffle_groups gen ?d g1")
  have "set a = set ?t" using weighted_shuffle_mset [of gen ?t g] a by (metis fst_conv mset_eq_setD)
  then have pa: "\<forall>x \<in> set a. rr_priority x = rr_priority r" by (auto dest: set_takeWhileD)
  have "sorted (map rr_priority ?t @ map rr_priority ?d)"
    using 2(2) by (metis map_append takeWhile_dropWhile_id)
  then have "sorted (map rr_priority ?d)" by (simp only: sorted_append)
  with 2(1) [OF a [symmetric]] b have sb: "sorted (map rr_priority b)" by simp
  have "set b = set ?d" using shuffle_groups_mset [of gen ?d g1] b by (metis fst_conv mset_eq_setD)
  then have "\<forall>y \<in> set b. rr_priority r \<le> rr_priority y"
    using 2(2) by (auto dest!: set_dropWhileD)
  moreover have "sorted (map rr_priority a)" using pa by (induction a) auto
  moreover have "fst (shuffle_groups gen (r # rest) g) = a @ b"
    using a b by (simp del: takeWhile.simps dropWhile.simps)
  ultimately show ?case using pa sb by (auto simp: sorted_append)
qed simp

context weighted_rng
begin

text \<open>Without weights there is nothing to shuffle.\<close>

lemma weighted_shuffle_zero:
  "list_all (\<lambda>r. rr_weight r = 0) grp \<Longrightarrow> fst (weighted_shuffle gen_range_inclusive grp g) = grp"
proof (induction grp arbitrary: g)
  case (Cons r rs)
  have s: "sort_key (\<lambda>r. rr_weight r \<noteq> 0) (r # rs) = r # rs"
    using Cons.prems by (intro sort_key_id_if_sorted) (induction rs, auto)
  have "weight_total (r # rs) = 0"
    using Cons.prems by (simp add: weight_total_def) (induction rs, auto)
  then obtain g1 where "gen_range_inclusive g (weight_total (r # rs)) = (0, g1)"
    using in_range [of g 0] by (cases "gen_range_inclusive g 0") (auto simp: word_le_nat_alt unsigned_eq_0_iff)
  then have "fst (weighted_shuffle gen_range_inclusive (r # rs) g) =
      r # fst (weighted_shuffle gen_range_inclusive rs g1)"
    by (subst weighted_shuffle.simps, subst s) (simp add: split_beta)
  with Cons show ?case by simp
qed (simp add: weighted_shuffle.simps)

lemma shuffle_groups_zero:
  "list_all (\<lambda>r. rr_weight r = 0) rs \<Longrightarrow> fst (shuffle_groups gen_range_inclusive rs g) = rs"
proof (induction rs arbitrary: g rule: length_induct)
  case (1 rs)
  show ?case
  proof (cases rs)
    case (Cons r rest)
    let ?p = "\<lambda>x. rr_priority x = rr_priority r"
    let ?t = "takeWhile ?p rs" and ?d = "dropWhile ?p rs"
    have z: "list_all (\<lambda>r. rr_weight r = 0) ?t" "list_all (\<lambda>r. rr_weight r = 0) ?d"
      using 1(2) unfolding list_all_iff by (meson set_takeWhileD set_dropWhileD)+
    obtain a g1 where a: "weighted_shuffle gen_range_inclusive ?t g = (a, g1)"
      by (cases "weighted_shuffle gen_range_inclusive ?t g")
    have "a = ?t" using weighted_shuffle_zero [OF z(1), of g] a by simp
    moreover have "fst (shuffle_groups gen_range_inclusive rs g) =
        a @ fst (shuffle_groups gen_range_inclusive ?d g1)"
      using a by (simp add: Cons del: takeWhile.simps dropWhile.simps split: prod.splits)
    moreover have "length ?d < length rs" by (simp add: Cons less_Suc_eq_le length_dropWhile_le)
    ultimately show ?thesis using 1(1) z(2) by (metis takeWhile_dropWhile_id)
  qed simp
qed

end

section \<open>The weighted choice\<close>

text \<open>The running sums as natural numbers; with fewer than \<open>2 ^ 32\<close> in total the \<open>u32\<close>
  arithmetic of the code does not wrap.\<close>

definition weight_sum :: "RawSrvRecord list \<Rightarrow> nat" where
  "weight_sum rs = sum_list (map (\<lambda>r. unat (rr_weight r)) rs)"

lemma unat_ucast_weight: "unat (ucast w :: u32) = unat w" for w :: u16
proof -
  have "unat w < 65536" using unsigned_less [of w] by simp
  then show ?thesis by (simp add: unsigned_ucast_eq take_bit_nat_eq_self)
qed

lemma unat_running:
  "unat running + unat w < 2 ^ 32 \<Longrightarrow> unat (running + ucast w :: u32) = unat running + unat w" for w :: u16
  by (simp add: unat_word_ariths unat_ucast_weight)

lemma choose_index_reached:
  "unat running + weight_sum rs < 2 ^ 32 \<Longrightarrow> unat pick \<le> unat running + weight_sum rs \<Longrightarrow> rs \<noteq> [] \<Longrightarrow>
   \<exists>k < length rs. choose_index pick running idx rs = idx + k"
proof (induction rs arbitrary: running idx)
  case (Cons r rs)
  let ?run = "running + ucast (rr_weight r) :: u32"
  have run: "unat ?run = unat running + unat (rr_weight r)"
    using Cons.prems(1) by (intro unat_running) (simp add: weight_sum_def)
  show ?case
  proof (cases "pick \<le> ?run")
    case False
    then have "rs \<noteq> []" using Cons.prems(2) by (auto simp: weight_sum_def word_le_nat_alt run)
    moreover have "unat ?run + weight_sum rs < 2 ^ 32" "unat pick \<le> unat ?run + weight_sum rs"
      using Cons.prems(1,2) by (auto simp: run weight_sum_def)
    ultimately obtain k where "k < length rs" "choose_index pick ?run (Suc idx) rs = Suc idx + k"
      using Cons.IH by blast
    with False show ?thesis by (intro exI [of _ "Suc k"]) (simp add: Let_def)
  qed (auto simp: Let_def)
qed simp

lemma choose_index_iff:
  assumes "unat running + weight_sum rs < 2 ^ 32" "unat pick \<le> unat running + weight_sum rs"
    and "j < length rs"
  shows "choose_index pick running idx rs = idx + j \<longleftrightarrow>
    (j = 0 \<or> unat running + weight_sum (take j rs) < unat pick) \<and>
    unat pick \<le> unat running + weight_sum (take (Suc j) rs)"
  using assms
proof (induction rs arbitrary: running idx j)
  case (Cons r rs)
  let ?run = "running + ucast (rr_weight r) :: u32"
  have run: "unat ?run = unat running + unat (rr_weight r)"
    using Cons.prems(1) by (intro unat_running) (simp add: weight_sum_def)
  show ?case
  proof (cases "pick \<le> ?run")
    case True
    then have "unat pick \<le> unat running + unat (rr_weight r)" by (simp add: word_le_nat_alt run)
    moreover have "weight_sum (take j (r # rs)) \<ge> unat (rr_weight r)" if "j \<noteq> 0"
      using that by (cases j) (auto simp: weight_sum_def)
    ultimately show ?thesis using True by (cases j) (auto simp: weight_sum_def Let_def)
  next
    case False
    then have lt: "unat running + unat (rr_weight r) < unat pick" by (simp add: word_le_nat_alt run)
    then have "rs \<noteq> []" using Cons.prems(2) by (auto simp: weight_sum_def)
    have bound: "unat ?run + weight_sum rs < 2 ^ 32" "unat pick \<le> unat ?run + weight_sum rs"
      using Cons.prems(1,2) by (auto simp: run weight_sum_def)
    show ?thesis
    proof (cases j)
      case 0
      have "choose_index pick ?run (Suc idx) rs \<noteq> idx"
      proof -
        obtain k where k: "k < length rs" "choose_index pick ?run (Suc idx) rs = Suc idx + k"
          using choose_index_reached [OF bound] \<open>rs \<noteq> []\<close> by blast
        then show ?thesis by simp
      qed
      with 0 False lt show ?thesis by (simp add: Let_def weight_sum_def)
    next
      case (Suc i)
      with Cons.prems(3) have "i < length rs" by simp
      from Cons.IH [OF bound this, of "Suc idx"] Suc False lt show ?thesis
        by (auto simp: Let_def weight_sum_def run)
    qed
  qed
qed simp

section \<open>The domain check\<close>

lemma target_in_parent_domain_iff:
  "target_in_parent_domain target parent \<longleftrightarrow> (\<exists>pre. target = pre @ ''.'' @ parent)"
proof
  let ?l = "str_split CHR ''.''"
  assume "target_in_parent_domain target parent"
  then have len: "2 \<le> length (?l target)" and suf: "suffix (?l parent) (tl (?l target))"
    by (auto simp: target_in_parent_domain_def Let_def split: if_splits)
  obtain x where "tl (?l target) = x @ ?l parent" using suf by (auto simp: suffix_def)
  with len obtain y where y: "?l target = y @ ?l parent" "y \<noteq> []"
    by (cases "?l target") auto
  have "target = str_join ''.'' (y @ ?l parent)" by (metis y(1) str_join_split)
  also have "\<dots> = str_join ''.'' y @ ''.'' @ parent"
    using y(2) by (simp add: str_join_append str_join_split)
  finally show "\<exists>pre. target = pre @ ''.'' @ parent" by blast
next
  assume "\<exists>pre. target = pre @ ''.'' @ parent"
  then obtain pre where "target = pre @ CHR ''.'' # parent" by auto
  then have l: "str_split CHR ''.'' target = str_split CHR ''.'' pre @ str_split CHR ''.'' parent"
    by (simp add: str_split_append_sep)
  obtain a b where "str_split CHR ''.'' pre = a # b" by (cases "str_split CHR ''.'' pre") auto
  moreover obtain c d where "str_split CHR ''.'' parent = c # d" by (cases "str_split CHR ''.'' parent") auto
  ultimately show "target_in_parent_domain target parent"
    using l by (simp add: target_in_parent_domain_def Let_def suffix_def)
qed

lemma validate_records_Inr:
  "validate_records h parent rs = Inr hosts \<Longrightarrow>
   hosts = map (\<lambda>r. \<lparr>sh_host = strip_trailing_dot (rr_target r), sh_port = rr_port r\<rparr>) rs \<and>
   list_all (\<lambda>x. target_in_parent_domain (sh_host x) parent) hosts"
  by (induction rs arbitrary: hosts) (auto simp: Let_def result_simps split: if_splits)

lemma order_mset: "mset (fst (order_by_priority_weight gen rs g)) = mset rs"
  by (simp add: order_by_priority_weight_def shuffle_groups_mset)

lemma order_sorted: "sorted (map rr_priority (fst (order_by_priority_weight gen rs g)))"
  by (simp add: order_by_priority_weight_def shuffle_groups_sorted)

section \<open>Properties\<close>

text \<open>C36. Whatever the random numbers, ordering the SRV records loses none, duplicates none,
  and puts every record after those of lower priority value.\<close>

theorem srv_order_correct:
  "mset (fst (order_by_priority_weight gen records g)) = mset records \<and>
   sorted (map rr_priority (fst (order_by_priority_weight gen records g)))"
  by (simp add: order_mset order_sorted)

text \<open>When every weight is zero, as for Atlas, the order is by priority alone and the
  resolver's order is kept among records of equal priority.\<close>

lemma srv_order_without_weights:
  assumes "list_all (\<lambda>r. rr_weight r = 0) records"
  shows "fst (order_by_priority_weight SplitMix64_gen_range_inclusive records g) =
         sort_key rr_priority records"
proof -
  have "list_all (\<lambda>r. rr_weight r = 0) (sort_key rr_priority records)"
    using assms by (simp add: list_all_iff)
  from split_mix.shuffle_groups_zero [OF this] show ?thesis by (simp add: order_by_priority_weight_def)
qed

definition sample_record :: "string \<Rightarrow> u16 \<Rightarrow> u16 \<Rightarrow> RawSrvRecord" where
  "sample_record t p w = \<lparr>rr_target = t, rr_port = 27017, rr_priority = p, rr_weight = w\<rparr>"

lemma srv_order_without_weights_witness:
  "fst (order_by_priority_weight SplitMix64_gen_range_inclusive
     [sample_record ''b'' 1 0, sample_record ''a'' 0 0, sample_record ''c'' 1 0] \<lparr>sm_state = 7\<rparr>) =
   [sample_record ''a'' 0 0, sample_record ''b'' 1 0, sample_record ''c'' 1 0]"
proof -
  have "list_all (\<lambda>r. rr_weight r = 0)
      [sample_record ''b'' 1 0, sample_record ''a'' 0 0, sample_record ''c'' 1 0]"
    by (simp add: sample_record_def)
  from srv_order_without_weights [OF this] show ?thesis by (simp add: sample_record_def)
qed

text \<open>C37. The choice inside a priority group is proportional to weight (RFC 2782): of the
  numbers \<open>0 .. total\<close> that can be drawn, exactly \<open>weight i\<close> choose record \<open>i\<close>, and
  one more chooses the first.\<close>

theorem srv_choice_proportional:
  assumes "weight_sum grp < 2 ^ 32" "i < length grp"
  shows "card {pick. pick \<le> weight_total grp \<and> choose_index pick 0 0 grp = i} =
         unat (rr_weight (grp ! i)) + (if i = 0 then 1 else 0)"
proof -
  have total: "unat (weight_total grp) = weight_sum grp"
    using assms(1) unfolding weight_total_def weight_sum_def
    by (induction grp) (auto simp: unat_word_ariths unat_ucast_weight)
  have next_sum: "weight_sum (take (Suc i) grp) = weight_sum (take i grp) + unat (rr_weight (grp ! i))"
    using assms(2) by (simp add: weight_sum_def take_Suc_conv_app_nth)
  have le: "weight_sum (take (Suc i) grp) \<le> weight_sum grp"
    unfolding weight_sum_def by (subst (2) append_take_drop_id [symmetric, of _ "Suc i"]) (simp del: append_take_drop_id)
  define I where "I = {n. (i = 0 \<or> weight_sum (take i grp) < n) \<and> n \<le> weight_sum (take (Suc i) grp)}"
  have small: "n < 2 ^ 32" if "n \<in> I" for n using that le assms(1) by (simp add: I_def)
  have "pick \<le> weight_total grp \<and> choose_index pick 0 0 grp = i \<longleftrightarrow> unat pick \<in> I" for pick
    using choose_index_iff [of 0 grp pick i 0] assms le by (auto simp: word_le_nat_alt total I_def)
  then have "{pick. pick \<le> weight_total grp \<and> choose_index pick 0 0 grp = i} = {pick. unat pick \<in> I}"
    by simp
  also have "\<dots> = word_of_nat ` I"
  proof -
    have "unat (word_of_nat n :: u32) = n" if "n \<in> I" for n
      using small [OF that] by (simp add: unsigned_of_nat take_bit_nat_eq_self)
    moreover have "pick \<in> word_of_nat ` I" if "unat pick \<in> I" for pick :: u32
      using imageI [OF that, of "word_of_nat :: nat \<Rightarrow> u32"] by simp
    ultimately show ?thesis by auto
  qed
  also have "card \<dots> = card I"
    by (rule card_image, rule inj_onI)
      (use small in \<open>simp add: word_of_nat_eq_iff take_bit_nat_eq_self\<close>)
  also have "\<dots> = unat (rr_weight (grp ! i)) + (if i = 0 then 1 else 0)"
  proof (cases "i = 0")
    case True
    then have "I = {..weight_sum (take (Suc 0) grp)}" by (auto simp: I_def)
    with True next_sum show ?thesis by (simp add: weight_sum_def)
  next
    case False
    then have "I = {weight_sum (take i grp)<..weight_sum (take (Suc i) grp)}" by (auto simp: I_def)
    with False next_sum show ?thesis by simp
  qed
  finally show ?thesis .
qed

theorem srv_choice_proportional_witness:
  "card {pick. pick \<le> weight_total [sample_record ''a'' 0 1, sample_record ''b'' 0 3] \<and>
      choose_index pick 0 0 [sample_record ''a'' 0 1, sample_record ''b'' 0 3] = 1} = 3"
  using srv_choice_proportional [of "[sample_record ''a'' 0 1, sample_record ''b'' 0 3]" 1]
  by (simp add: weight_sum_def sample_record_def)

text \<open>A resolution that succeeds returns at least one host, only hosts under the parent
  domain of the name that was asked for, and one host for each record of the answer.\<close>

lemma resolve_validated:
  assumes "resolve_with lookup entropy srv_hostname service_name = Inr hosts"
    and "lookup (''_'' @ service_name @ ''._tcp.'' @ srv_hostname) = Inr records"
  shows "hosts \<noteq> [] \<and>
    (\<forall>x \<in> set hosts. \<exists>pre. sh_host x = pre @ ''.'' @ parent_domain srv_hostname) \<and>
    mset hosts = {# \<lparr>sh_host = strip_trailing_dot (rr_target r), sh_port = rr_port r\<rparr>. r \<in># mset records #}"
proof -
  let ?raw = "fst (order_by_priority_weight SplitMix64_gen_range_inclusive records (from_entropy entropy))"
  from assms have "validate_records srv_hostname (parent_domain srv_hostname) ?raw = Inr hosts" "hosts \<noteq> []"
    by (auto simp: resolve_with_def Let_def result_simps split: if_splits)
  with validate_records_Inr [OF this(1)] order_mset [of SplitMix64_gen_range_inclusive records "from_entropy entropy"]
  show ?thesis
    by (auto simp: list_all_iff target_in_parent_domain_iff)
qed

lemma resolve_validated_witness:
  "\<exists>pre. ''a.x.net'' = pre @ ''.'' @ parent_domain ''c.x.net''"
proof -
  have "resolve_with (\<lambda>_. Inr [sample_record ''a.x.net.'' 0 0]) 5 ''c.x.net'' ''mongodb'' =
      Inr [\<lparr>sh_host = ''a.x.net'', sh_port = 27017\<rparr>]"
    by code_simp
  from resolve_validated [OF this refl]
  have "\<forall>x \<in> set [\<lparr>sh_host = ''a.x.net'', sh_port = 27017\<rparr>]. \<exists>pre. sh_host x = pre @ ''.'' @ parent_domain ''c.x.net''"
    by (elim conjE)
  then show ?thesis by simp
qed

text \<open>A host name of a single label is resolved like any other (its parent domain is the
  name itself).\<close>

lemma single_label_hostname_accepted:
  "resolve_with (\<lambda>_. Inr [sample_record ''a.local.'' 0 0]) entropy ''local'' ''mongodb'' =
     Inr [\<lparr>sh_host = ''a.local'', sh_port = 27017\<rparr>]"
proof -
  have "fst (order_by_priority_weight SplitMix64_gen_range_inclusive [sample_record ''a.local.'' 0 0]
      (from_entropy entropy)) = [sample_record ''a.local.'' 0 0]"
    using split_mix.shuffle_groups_zero [of "[sample_record ''a.local.'' 0 0]"]
    by (simp add: order_by_priority_weight_def sample_record_def)
  moreover have "validate_records ''local'' (parent_domain ''local'') [sample_record ''a.local.'' 0 0] =
      Inr [\<lparr>sh_host = ''a.local'', sh_port = 27017\<rparr>]"
    by code_simp
  ultimately show ?thesis by (simp add: resolve_with_def)
qed

end
