(* ===== verification/Uri.thy ===== *)
theory Uri
  imports Strings
begin

text \<open>
  The connection-string parser (\<open>src/src/uri.rs\<close>).
\<close>

section \<open>Data\<close>

datatype Scheme = Mongodb | MongodbSrv

record HostSpec =
  hs_host :: string
  hs_port :: "u16 option"

record ParsedConnectionUri =
  pu_scheme :: Scheme
  pu_hosts :: "HostSpec list"
  pu_tls :: "bool option"
  pu_srv_service_name :: "string option"

datatype ConnectionUriError =
    MissingScheme
  | UnsupportedScheme string
  | MissingHost
  | InvalidPort string
  | InvalidTlsValue string string \<comment> \<open>key, value\<close>
  | ConflictingTlsSsl bool bool
  | InvalidSrvHost
  | SrvServiceNameOnNonSrv string
  | InvalidHost string

definition bool_text :: "bool \<Rightarrow> string" where
  "bool_text b = (if b then ''true'' else ''false'')"

fun ConnectionUriError_display :: "ConnectionUriError \<Rightarrow> string" where
  "ConnectionUriError_display MissingScheme = ''connection string is missing the `://` scheme separator''"
| "ConnectionUriError_display (UnsupportedScheme s) =
     ''unsupported connection-string scheme `'' @ s @ ''`; expected `mongodb` or `mongodb+srv`''"
| "ConnectionUriError_display MissingHost = ''connection string has no host''"
| "ConnectionUriError_display (InvalidPort p) = ''invalid port `'' @ p @ ''`''"
| "ConnectionUriError_display (InvalidTlsValue key value) =
     ''invalid `'' @ key @ ''` value `'' @ value @ ''`; expected `true` or `false`''"
| "ConnectionUriError_display (ConflictingTlsSsl tls ssl) =
     ''conflicting `tls='' @ bool_text tls @ ''` and `ssl='' @ bool_text ssl @ ''` in connection string''"
| "ConnectionUriError_display InvalidSrvHost =
     ''`mongodb+srv://` must have exactly one host without a port''"
| "ConnectionUriError_display (SrvServiceNameOnNonSrv _) =
     ''`srvServiceName` is only valid with the `mongodb+srv://` scheme''"
| "ConnectionUriError_display (InvalidHost h) =
     ''invalid host `'' @ h @ ''` (IPv6 literals in `[...]` are not supported)''"

section \<open>Parsing\<close>

definition parse_bool :: "string \<Rightarrow> string \<Rightarrow> ConnectionUriError + bool" where
  "parse_bool key v =
     (let l = to_ascii_lowercase v in
      if l = ''true'' then Inr True
      else if l = ''false'' then Inr False
      else Inl (InvalidTlsValue key v))"

text \<open>The loop over the options, with the two variables it assigns.\<close>

fun tls_pairs ::
  "string list \<Rightarrow> bool option \<Rightarrow> bool option \<Rightarrow> ConnectionUriError + bool option \<times> bool option" where
  "tls_pairs [] tls ssl = Inr (tls, ssl)"
| "tls_pairs (pair # pairs) tls ssl =
     (case split_once ''='' pair of
        None \<Rightarrow> tls_pairs pairs tls ssl
      | Some (k, v) \<Rightarrow>
          if to_ascii_lowercase k = ''tls'' then
            res_bind (parse_bool ''tls'' v) (\<lambda>b. tls_pairs pairs (Some b) ssl)
          else if to_ascii_lowercase k = ''ssl'' then
            res_bind (parse_bool ''ssl'' v) (\<lambda>b. tls_pairs pairs tls (Some b))
          else tls_pairs pairs tls ssl)"

definition parse_tls_option :: "string option \<Rightarrow> ConnectionUriError + bool option" where
  "parse_tls_option query =
     (case query of
        None \<Rightarrow> Inr None
      | Some query \<Rightarrow>
          res_bind (tls_pairs (str_split CHR ''&'' query) None None) (\<lambda>(tls, ssl).
          case (tls, ssl) of
            (Some t, Some s) \<Rightarrow> if t \<noteq> s then Inl (ConflictingTlsSsl t s) else Inr (Some t)
          | (Some t, None) \<Rightarrow> Inr (Some t)
          | (None, Some t) \<Rightarrow> Inr (Some t)
          | (None, None) \<Rightarrow> Inr None))"

definition parse_host_port :: "string \<Rightarrow> ConnectionUriError + string \<times> u16 option" where
  "parse_host_port s =
     (if s = [] then Inl MissingHost
      else if hd s = CHR ''['' then Inl (InvalidHost s)
      else case rsplit_once CHR '':'' s of
          None \<Rightarrow> Inr (s, None)
        | Some (host, port_str) \<Rightarrow>
            if host = [] then Inl MissingHost
            else res_bind (ok_or (parse_u16 port_str) (InvalidPort port_str)) (\<lambda>port.
                 Inr (host, Some port)))"

fun service_name_pairs :: "string list \<Rightarrow> string option \<Rightarrow> string option" where
  "service_name_pairs [] v = v"
| "service_name_pairs (pair # pairs) v =
     (case split_once ''='' pair of
        None \<Rightarrow> service_name_pairs pairs v
      | Some (k, x) \<Rightarrow>
          service_name_pairs pairs
            (if eq_ignore_ascii_case k ''srvServiceName'' \<and> x \<noteq> [] then Some x else v))"

definition parse_srv_service_name :: "string option \<Rightarrow> ConnectionUriError + string option" where
  "parse_srv_service_name query =
     (case query of
        None \<Rightarrow> Inr None
      | Some query \<Rightarrow> Inr (service_name_pairs (str_split CHR ''&'' query) None))"

text \<open>The loop over the host list.\<close>

fun parse_hosts :: "Scheme \<Rightarrow> string list \<Rightarrow> ConnectionUriError + HostSpec list" where
  "parse_hosts scheme [] = Inr []"
| "parse_hosts scheme (spec # specs) =
     res_bind (parse_host_port spec) (\<lambda>(host, port).
     if scheme = MongodbSrv \<and> port \<noteq> None then Inl InvalidSrvHost
     else res_bind (parse_hosts scheme specs) (\<lambda>hosts.
          Inr (\<lparr>hs_host = host, hs_port = port\<rparr> # hosts)))"

text \<open>The host list and the query string of what follows the scheme.\<close>

definition uri_parts :: "string \<Rightarrow> string \<times> string option" where
  "uri_parts after_scheme =
     (let (before_query, query) =
           (case split_once ''?'' after_scheme of
              Some (b, q) \<Rightarrow> (b, Some q)
            | None \<Rightarrow> (after_scheme, None));
         hosts_and_db =
           (case rsplit_once CHR ''@'' before_query of
              Some (_, rest) \<Rightarrow> rest
            | None \<Rightarrow> before_query);
         hosts_str =
           (case split_once ''/'' hosts_and_db of
              Some (h, _) \<Rightarrow> h
            | None \<Rightarrow> hosts_and_db) in
     (hosts_str, query))"

definition parse :: "string \<Rightarrow> ConnectionUriError + ParsedConnectionUri" where
  "parse uri =
     res_bind (ok_or (split_once ''://'' uri) MissingScheme) (\<lambda>(scheme_str, after_scheme).
     res_bind
       (if scheme_str = ''mongodb'' then Inr Mongodb
        else if scheme_str = ''mongodb+srv'' then Inr MongodbSrv
        else Inl (UnsupportedScheme scheme_str)) (\<lambda>scheme.
     case uri_parts after_scheme of (hosts_str, query) \<Rightarrow>
     if hosts_str = [] then Inl MissingHost
     else
       let host_specs = str_split CHR '','' hosts_str in
       if scheme = MongodbSrv \<and> length host_specs \<noteq> 1 then Inl InvalidSrvHost
       else
         res_bind (parse_hosts scheme host_specs) (\<lambda>hosts.
         res_bind (parse_tls_option query) (\<lambda>tls.
         res_bind (parse_srv_service_name query) (\<lambda>name.
         case (scheme, name) of
           (Mongodb, Some v) \<Rightarrow> Inl (SrvServiceNameOnNonSrv v)
         | (_, srv_service_name) \<Rightarrow>
             Inr \<lparr>pu_scheme = scheme, pu_hosts = hosts, pu_tls = tls,
                  pu_srv_service_name = srv_service_name\<rparr>)))))"

section \<open>Connection strings as text\<close>





definition srv_shape :: "Scheme \<Rightarrow> HostSpec list \<Rightarrow> bool" where
  "srv_shape scheme hosts \<longleftrightarrow>
     (scheme = MongodbSrv \<longrightarrow> length hosts = 1 \<and> list_all (\<lambda>h. hs_port h = None) hosts)"









section \<open>What an accepted string guarantees\<close>

lemma parse_host_port_host: "parse_host_port s = Inr (host, port) \<Longrightarrow> host \<noteq> []"
  by (auto simp: parse_host_port_def result_simps split: if_splits option.splits)

lemma parse_hosts_Inr:
  "parse_hosts scheme specs = Inr hosts \<Longrightarrow>
   length hosts = length specs \<and> list_all (\<lambda>h. hs_host h \<noteq> []) hosts \<and>
   (scheme = MongodbSrv \<longrightarrow> list_all (\<lambda>h. hs_port h = None) hosts)"
  by (induction specs arbitrary: hosts)
    (auto simp: result_simps dest: parse_host_port_host split: if_splits)

lemma service_name_pairs_not_Nil:
  "service_name_pairs pairs v = Some x \<Longrightarrow> v \<noteq> Some [] \<Longrightarrow> x \<noteq> []"
proof (induction pairs arbitrary: v)
  case (Cons pair pairs)
  obtain w where "service_name_pairs pairs w = Some x" "w \<noteq> Some []"
    using Cons.prems by (auto split: option.splits prod.splits if_splits)
  with Cons.IH show ?case by blast
qed simp

section \<open>Properties\<close>




text \<open>C40. What the rest of the proxy relies on: an accepted connection string has at least
  one host, no host name is empty, a \<open>mongodb+srv\<close> string has exactly one host
  and no port, and a service name is present only there and is not empty.\<close>

theorem parse_uri_wellformed:
  assumes "parse uri = Inr p"
  shows "pu_hosts p \<noteq> [] \<and> list_all (\<lambda>h. hs_host h \<noteq> []) (pu_hosts p) \<and>
    srv_shape (pu_scheme p) (pu_hosts p) \<and>
    (\<forall>name. pu_srv_service_name p = Some name \<longrightarrow> pu_scheme p = MongodbSrv \<and> name \<noteq> [])"
proof -
  from assms obtain specs query where h: "parse_hosts (pu_scheme p) (str_split CHR '','' specs) = Inr (pu_hosts p)"
    and one: "pu_scheme p = MongodbSrv \<longrightarrow> length (str_split CHR '','' specs) = 1"
    and n: "parse_srv_service_name query = Inr (pu_srv_service_name p)"
    and s: "pu_scheme p = Mongodb \<longrightarrow> pu_srv_service_name p = None"
    unfolding parse_def Let_def
    by (auto simp: result_simps split_beta split: if_splits option.splits Scheme.splits)
  note hs = parse_hosts_Inr [OF h]
  have "pu_hosts p \<noteq> []" using hs str_split_not_Nil [of "CHR '',''" specs] by auto
  moreover have "name \<noteq> []" if "pu_srv_service_name p = Some name" for name
    using n that service_name_pairs_not_Nil [of _ None name]
    by (auto simp: parse_srv_service_name_def split: option.splits)
  moreover have "srv_shape (pu_scheme p) (pu_hosts p)" using hs one by (auto simp: srv_shape_def)
  ultimately show ?thesis using hs s by (cases "pu_scheme p") auto
qed

theorem parse_uri_wellformed_witness:
  "list_all (\<lambda>h. hs_host h \<noteq> []) [\<lparr>hs_host = ''c.x.net'', hs_port = None\<rparr>]"
proof -
  have "parse ''mongodb+srv://c.x.net/?srvServiceName=m'' = Inr \<lparr>pu_scheme = MongodbSrv,
      pu_hosts = [\<lparr>hs_host = ''c.x.net'', hs_port = None\<rparr>], pu_tls = None,
      pu_srv_service_name = Some ''m''\<rparr>"
    by code_simp
  from parse_uri_wellformed [OF this] show ?thesis by simp
qed

text \<open>The host list does not depend on what stands before an \<open>@\<close>.\<close>

definition host_list :: "string \<Rightarrow> string" where
  "host_list b =
     (let hosts_and_db = (case rsplit_once CHR ''@'' b of Some (_, rest) \<Rightarrow> rest | None \<Rightarrow> b) in
      case split_once ''/'' hosts_and_db of Some (h, _) \<Rightarrow> h | None \<Rightarrow> hosts_and_db)"

lemma host_list_after: "host_list (u @ CHR ''@'' # b) = host_list b"
  using rsplit_once_after [of "CHR ''@''" u b]
  by (auto simp: host_list_def Let_def split: option.splits)

lemma uri_parts_credentials:
  assumes "CHR ''?'' \<notin> set u"
  shows "uri_parts (u @ CHR ''@'' # rest) = uri_parts rest"
proof -
  have "uri_parts t =
      (case split_once ''?'' t of Some (b, q) \<Rightarrow> (host_list b, Some q) | None \<Rightarrow> (host_list t, None))" for t
    by (simp add: uri_parts_def host_list_def Let_def split: option.splits prod.splits)
  moreover have "split_once ''?'' (u @ CHR ''@'' # rest) =
      map_option (\<lambda>(x, y). (u @ CHR ''@'' # x, y)) (split_once ''?'' rest)"
    using split_once_char_append [of "CHR ''?''" "u @ ''@''" rest] assms by simp
  ultimately show ?thesis
    by (cases "split_once ''?'' rest") (auto simp: host_list_after)
qed

text \<open>C39. Credentials are never looked at: the outcome of parsing, errors and so also their texts
  included, is the same whatever user and password the string carries, or without any.\<close>

theorem uri_credentials_ignored:
  assumes "CHR '':'' \<notin> set scheme" "CHR ''?'' \<notin> set credentials"
  shows "parse (scheme @ ''://'' @ credentials @ ''@'' @ rest) = parse (scheme @ ''://'' @ rest)"
proof -
  have "split_once ''://'' (scheme @ ''://'' @ t) = Some (scheme, t)" for t
    using assms(1) by (intro split_once_first) auto
  with uri_parts_credentials [OF assms(2), of rest] show ?thesis by (simp add: parse_def)
qed

theorem uri_credentials_ignored_witness:
  "parse ''mongodb://ann:p@ss/w:rd@a:5/'' = parse ''mongodb://a:5/''"
  using uri_credentials_ignored [of "''mongodb''" "''ann:p@ss/w:rd''" "''a:5/''"] by simp

end
