(* ===== verification/Proxy.thy ===== *)
theory Proxy
  imports Srv Uri RewriteHello
begin

text \<open>
  The proxy's configuration (\<open>Proxy\<close> of \<open>src/src/serve/service.rs\<close>): its constructors from an
  address, an SRV name or a connection string, the TLS policy, the choice of the upstream
  target and the background loop that follows fail-overs. What the network answers is a
  parameter: the resolver, and for every round of probes the list of their outcomes in
  the order they settle.
\<close>

section \<open>TLS policy\<close>

datatype 'roots TlsConfig = TlsDisabled | TlsSystem | WithRoots 'roots | Insecure

datatype 'roots verifier = VerifyRoots 'roots | AcceptAnyCertificate

record 'roots TlsConnector =
  tc_verifier :: "'roots verifier"
  tc_client_auth :: bool
  tc_enable_sni :: bool

definition roots_config :: "'roots \<Rightarrow> 'roots TlsConnector" where
  "roots_config roots = \<lparr>tc_verifier = VerifyRoots roots, tc_client_auth = False, tc_enable_sni = True\<rparr>"

definition insecure_config :: "'roots TlsConnector" where
  "insecure_config = \<lparr>tc_verifier = AcceptAnyCertificate, tc_client_auth = False, tc_enable_sni = True\<rparr>"

text \<open>\<open>webpki\<close> are the trust anchors of the \<open>webpki_roots\<close> crate.\<close>

definition default_tls_connector :: "'roots \<Rightarrow> 'roots TlsConnector" where
  "default_tls_connector webpki = roots_config webpki"

fun TlsConfig_debug :: "'roots TlsConfig \<Rightarrow> string" where
  "TlsConfig_debug TlsDisabled = ''Disabled''"
| "TlsConfig_debug TlsSystem = ''System''"
| "TlsConfig_debug (WithRoots _) = ''WithRoots(..)''"
| "TlsConfig_debug Insecure = ''Insecure''"

fun build_tls_connector :: "'roots \<Rightarrow> 'roots TlsConfig \<Rightarrow> 'roots TlsConnector option" where
  "build_tls_connector webpki TlsDisabled = None"
| "build_tls_connector webpki TlsSystem = Some (roots_config webpki)"
| "build_tls_connector webpki (WithRoots roots) = Some (roots_config roots)"
| "build_tls_connector webpki Insecure = Some insecure_config"

section \<open>The proxy\<close>

record Target =
  tg_host :: string
  tg_port :: u16

text \<open>The watch channel is represented by its current value. \<open>px_layers\<close> are the user's layers,
  outermost first.\<close>

record ('roots, 'l) Proxy =
  px_target :: Target
  px_tls_connector :: "'roots TlsConnector option"
  px_rewrite_hello :: bool
  px_layers :: "'l list"

definition read_target :: "Target \<Rightarrow> string \<times> u16" where
  "read_target target = (tg_host target, tg_port target)"

definition with_target :: "Target \<Rightarrow> 'roots TlsConnector option \<Rightarrow> ('roots, 'l) Proxy" where
  "with_target target tls_connector =
     \<lparr>px_target = target, px_tls_connector = tls_connector, px_rewrite_hello = True, px_layers = []\<rparr>"

definition with_tls :: "'roots \<Rightarrow> string \<Rightarrow> u16 \<Rightarrow> 'roots TlsConfig \<Rightarrow> ('roots, 'l) Proxy" where
  "with_tls webpki destination_name destination_port tls =
     with_target \<lparr>tg_host = destination_name, tg_port = destination_port\<rparr> (build_tls_connector webpki tls)"

definition Proxy_new :: "'roots \<Rightarrow> string \<Rightarrow> u16 \<Rightarrow> ('roots, 'l) Proxy" where
  "Proxy_new webpki destination_name destination_port =
     with_tls webpki destination_name destination_port TlsDisabled"

text \<open>\<open>Stack::new(layer, self.proxy_layer)\<close>: the new layer is applied first, inside the others.\<close>

definition add_layer :: "('roots, 'l) Proxy \<Rightarrow> 'l \<Rightarrow> ('roots, 'l) Proxy" where
  "add_layer p l = p\<lparr>px_layers := px_layers p @ [l]\<rparr>"

definition disable_rewrite_hello :: "('roots, 'l) Proxy \<Rightarrow> ('roots, 'l) Proxy" where
  "disable_rewrite_hello p = p\<lparr>px_rewrite_hello := False\<rparr>"

text \<open>\<open>Service<SocketAddr>::call\<close>: the service for a new connection. \<open>base\<close> and \<open>apply_layer\<close> embed
  the innermost service and the layers into one type of services.\<close>

definition Proxy_call ::
  "('sock, 'roots TlsConnector, 'r, 'w) network
   \<Rightarrow> (('r, 'w) ProxyClientInner mutex RewriteHelloService \<Rightarrow> 'svc) \<Rightarrow> ('l \<Rightarrow> 'svc \<Rightarrow> 'svc)
   \<Rightarrow> ('roots, 'l) Proxy \<Rightarrow> ProxyClientForwardError + 'svc" where
  "Proxy_call N base apply_layer p =
     (let (destination_name, destination_port) = read_target (px_target p);
          rewrite_layer =
            (if px_rewrite_hello p then RewriteHelloLayer_enabled else RewriteHelloLayer_disabled) in
      res_bind (forward_to N destination_name destination_port (px_tls_connector p)) (\<lambda>s.
      Inr (foldr apply_layer (px_layers p) (base (RewriteHelloLayer_layer rewrite_layer s)))))"

section \<open>Choosing the target\<close>

type_synonym duration = nat \<comment> \<open>in milliseconds\<close>

definition DEFAULT_REPROBE_INTERVAL :: duration where "DEFAULT_REPROBE_INTERVAL = 60 * 1000"
definition DEFAULT_PROBE_TIMEOUT :: duration where "DEFAULT_PROBE_TIMEOUT = 5 * 1000"

record FailoverConfig =
  fc_reprobe_interval :: "duration option"
  fc_probe_timeout :: duration

definition FailoverConfig_default :: FailoverConfig where
  "FailoverConfig_default =
     \<lparr>fc_reprobe_interval = Some DEFAULT_REPROBE_INTERVAL, fc_probe_timeout = DEFAULT_PROBE_TIMEOUT\<rparr>"

definition FailoverConfig_every :: "duration \<Rightarrow> FailoverConfig" where
  "FailoverConfig_every interval = FailoverConfig_default\<lparr>fc_reprobe_interval := Some interval\<rparr>"

definition FailoverConfig_disabled :: FailoverConfig where
  "FailoverConfig_disabled = FailoverConfig_default\<lparr>fc_reprobe_interval := None\<rparr>"

definition with_probe_timeout :: "FailoverConfig \<Rightarrow> duration \<Rightarrow> FailoverConfig" where
  "with_probe_timeout c t = c\<lparr>fc_probe_timeout := t\<rparr>"

text \<open>How one round of probes of these hosts, with this connector and timeout, settles.\<close>

type_synonym 'roots probing =
  "'roots TlsConnector option \<Rightarrow> duration \<Rightarrow> SrvHost list \<Rightarrow> completion list"

definition target_of :: "SrvHost \<Rightarrow> Target" where
  "target_of primary = \<lparr>tg_host = sh_host primary, tg_port = sh_port primary\<rparr>"

definition select_target ::
  "'roots probing \<Rightarrow> 'roots TlsConnector option \<Rightarrow> duration \<Rightarrow> SrvHost list
   \<Rightarrow> (SrvHost \<times> ProbeOutcome) list + Target" where
  "select_target probing tls timeout hosts =
     (case select_primary (probing tls timeout hosts) of
        SelectedPrimary primary \<Rightarrow> Inr (target_of primary)
      | NoPrimarySelected attempts \<Rightarrow> Inl attempts)"

definition reselect_seed_list ::
  "'roots probing \<Rightarrow> 'roots TlsConnector option \<Rightarrow> duration \<Rightarrow> SrvHost list \<Rightarrow> SrvHost option" where
  "reselect_seed_list probing tls timeout hosts =
     into_primary (select_primary (probing tls timeout hosts))"

text \<open>\<open>resolution\<close> is what \<open>resolve_with_service_name\<close> gives at the time of the tick.\<close>

definition resolve_and_select ::
  "'roots probing \<Rightarrow> 'roots TlsConnector option \<Rightarrow> duration \<Rightarrow> SrvResolveError + SrvHost list
   \<Rightarrow> SrvHost option" where
  "resolve_and_select probing tls timeout resolution =
     (case resolution of
        Inr hosts \<Rightarrow> into_primary (select_primary (probing tls timeout hosts))
      | Inl _ \<Rightarrow> None)"

definition apply_primary :: "Target \<Rightarrow> SrvHost \<Rightarrow> bool \<times> Target" where
  "apply_primary target primary =
     (let new_target = target_of primary in
      if target = new_target then (False, target) else (True, new_target))"

section \<open>The fail-over loop\<close>

text \<open>The state that the loop and the proxy share, and the loop's own progress. \<open>fo_open\<close> says that
  the proxy, and with it the receiver of the channel, still exists.\<close>

record failover_state =
  fo_target :: Target
  fo_open :: bool
  fo_running :: bool

definition failover_start :: "Target \<Rightarrow> failover_state" where
  "failover_start t = \<lparr>fo_target = t, fo_open = True, fo_running = True\<rparr>"

text \<open>\<open>select\<close> says which results the selection of a tick can have.\<close>

inductive failover_step :: "(SrvHost option \<Rightarrow> bool) \<Rightarrow> failover_state \<Rightarrow> failover_state \<Rightarrow> bool"
  for select where
  tick_primary: "fo_running s \<Longrightarrow> select (Some primary) \<Longrightarrow>
     failover_step select s (s\<lparr>fo_target := snd (apply_primary (fo_target s) primary)\<rparr>)"
| tick_none: "fo_running s \<Longrightarrow> select None \<Longrightarrow> failover_step select s s"
| proxy_dropped: "fo_open s \<Longrightarrow> failover_step select s (s\<lparr>fo_open := False\<rparr>)"
| channel_closed: "\<not> fo_open s \<Longrightarrow> fo_running s \<Longrightarrow>
     failover_step select s (s\<lparr>fo_running := False\<rparr>)"

inductive failover_reachable :: "(SrvHost option \<Rightarrow> bool) \<Rightarrow> Target \<Rightarrow> failover_state \<Rightarrow> bool"
  for select t where
  start: "failover_reachable select t (failover_start t)"
| step: "failover_reachable select t s \<Longrightarrow> failover_step select s s' \<Longrightarrow>
     failover_reachable select t s'"

section \<open>Connection strings\<close>

datatype UriRoute =
    Single string u16 bool \<comment> \<open>host, port, use_tls\<close>
  | SeedList "SrvHost list" bool \<comment> \<open>hosts, use_tls\<close>
  | SrvRoute string bool "string option" \<comment> \<open>hostname, use_tls, service_name\<close>

datatype FromUriError =
    ParseError ConnectionUriError
  | SrvError SrvResolveError
  | NoPrimary "(SrvHost \<times> ProbeOutcome) list"

fun FromUriError_display :: "codec_text \<Rightarrow> FromUriError \<Rightarrow> string" where
  "FromUriError_display T (ParseError e) = ''invalid connection string: '' @ ConnectionUriError_display e"
| "FromUriError_display T (SrvError e) = ''SRV resolution failed: '' @ SrvResolveError_display T e"
| "FromUriError_display T (NoPrimary attempts) =
     ''no primary found among '' @ show_nat (length attempts) @ '' seed-list hosts ('' @
     summarise_attempts T attempts @ '')''"

definition default_port :: u16 where "default_port = 27017"

definition opt_or :: "'a option \<Rightarrow> 'a \<Rightarrow> 'a" where
  "opt_or x d = (case x of None \<Rightarrow> d | Some y \<Rightarrow> y)"

definition seed_host :: "HostSpec \<Rightarrow> SrvHost" where
  "seed_host h = \<lparr>sh_host = hs_host h, sh_port = opt_or (hs_port h) default_port\<rparr>"

definition route :: "ParsedConnectionUri \<Rightarrow> FromUriError + UriRoute" where
  "route parsed =
     (case pu_scheme parsed of
        Mongodb \<Rightarrow>
          let use_tls = opt_or (pu_tls parsed) False in
          if 1 < length (pu_hosts parsed) then Inr (SeedList (map seed_host (pu_hosts parsed)) use_tls)
          else
            (case pu_hosts parsed of
               h # _ \<Rightarrow> Inr (Single (hs_host h) (opt_or (hs_port h) default_port) use_tls)
             | [] \<Rightarrow> Inl (ParseError MissingHost))
      | MongodbSrv \<Rightarrow>
          let use_tls = opt_or (pu_tls parsed) True in
          (case pu_hosts parsed of
             h # _ \<Rightarrow> Inr (SrvRoute (hs_host h) use_tls (pu_srv_service_name parsed))
           | [] \<Rightarrow> Inl (ParseError MissingHost)))"

text \<open>A constructor returns the proxy and, if it spawns the fail-over loop, its interval.\<close>

definition from_srv_inner ::
  "'roots \<Rightarrow> (LookupFailure + (string \<Rightarrow> LookupFailure + RawSrvRecord list)) \<Rightarrow> u64 \<Rightarrow> 'roots probing
   \<Rightarrow> string \<Rightarrow> string \<Rightarrow> 'roots TlsConfig \<Rightarrow> FailoverConfig
   \<Rightarrow> SrvResolveError + ('roots, 'l) Proxy \<times> duration option" where
  "from_srv_inner webpki system_lookup entropy probing srv_hostname service_name tls failover =
     res_bind (resolve_with_service_name system_lookup entropy srv_hostname service_name) (\<lambda>hosts.
     let tls_connector = build_tls_connector webpki tls;
         probe_timeout = fc_probe_timeout failover in
     res_bind (map_err (SrvNoPrimary srv_hostname) (select_target probing tls_connector probe_timeout hosts))
       (\<lambda>target. Inr (with_target target tls_connector, fc_reprobe_interval failover)))"

definition from_srv_with_tls ::
  "'roots \<Rightarrow> (LookupFailure + (string \<Rightarrow> LookupFailure + RawSrvRecord list)) \<Rightarrow> u64 \<Rightarrow> 'roots probing
   \<Rightarrow> string \<Rightarrow> 'roots TlsConfig \<Rightarrow> FailoverConfig
   \<Rightarrow> SrvResolveError + ('roots, 'l) Proxy \<times> duration option" where
  "from_srv_with_tls webpki system_lookup entropy probing srv_hostname tls failover =
     from_srv_inner webpki system_lookup entropy probing srv_hostname DEFAULT_SRV_SERVICE_NAME tls failover"

definition from_srv_with ::
  "'roots \<Rightarrow> (LookupFailure + (string \<Rightarrow> LookupFailure + RawSrvRecord list)) \<Rightarrow> u64 \<Rightarrow> 'roots probing
   \<Rightarrow> string \<Rightarrow> bool \<Rightarrow> FailoverConfig
   \<Rightarrow> SrvResolveError + ('roots, 'l) Proxy \<times> duration option" where
  "from_srv_with webpki system_lookup entropy probing srv_hostname use_tls failover =
     from_srv_with_tls webpki system_lookup entropy probing srv_hostname
       (if use_tls then TlsSystem else TlsDisabled) failover"

definition from_srv ::
  "'roots \<Rightarrow> (LookupFailure + (string \<Rightarrow> LookupFailure + RawSrvRecord list)) \<Rightarrow> u64 \<Rightarrow> 'roots probing
   \<Rightarrow> string \<Rightarrow> bool \<Rightarrow> SrvResolveError + ('roots, 'l) Proxy \<times> duration option" where
  "from_srv webpki system_lookup entropy probing srv_hostname use_tls =
     from_srv_with webpki system_lookup entropy probing srv_hostname use_tls FailoverConfig_default"

definition from_seed_list ::
  "'roots \<Rightarrow> 'roots probing \<Rightarrow> SrvHost list \<Rightarrow> bool \<Rightarrow> FailoverConfig
   \<Rightarrow> FromUriError + ('roots, 'l) Proxy \<times> duration option" where
  "from_seed_list webpki probing hosts use_tls failover =
     (let tls_connector = (if use_tls then Some (default_tls_connector webpki) else None);
          probe_timeout = fc_probe_timeout failover in
      res_bind (map_err NoPrimary (select_target probing tls_connector probe_timeout hosts)) (\<lambda>target.
      Inr (with_target target tls_connector, fc_reprobe_interval failover)))"

definition from_uri ::
  "'roots \<Rightarrow> (LookupFailure + (string \<Rightarrow> LookupFailure + RawSrvRecord list)) \<Rightarrow> u64 \<Rightarrow> 'roots probing
   \<Rightarrow> string \<Rightarrow> FromUriError + ('roots, 'l) Proxy \<times> duration option" where
  "from_uri webpki system_lookup entropy probing uri =
     res_bind (map_err ParseError (parse uri)) (\<lambda>parsed.
     res_bind (route parsed) (\<lambda>r.
     case r of
       Single host port use_tls \<Rightarrow>
         Inr (with_tls webpki host port (if use_tls then TlsSystem else TlsDisabled), None)
     | SeedList hosts use_tls \<Rightarrow>
         from_seed_list webpki probing hosts use_tls FailoverConfig_default
     | SrvRoute hostname use_tls service_name \<Rightarrow>
         map_err SrvError (from_srv_inner webpki system_lookup entropy probing hostname
           (opt_or service_name DEFAULT_SRV_SERVICE_NAME)
           (if use_tls then TlsSystem else TlsDisabled) FailoverConfig_default)))"

section \<open>Lemmas\<close>

lemma resolved_in_domain:
  assumes "resolve_with lookup entropy h service = Inr hosts"
  shows "\<forall>x \<in> set hosts. \<exists>pre. sh_host x = pre @ ''.'' @ parent_domain h"
proof -
  from assms obtain raw where "validate_records h (parent_domain h) raw = Inr hosts"
    by (auto simp: resolve_with_def Let_def result_simps split: if_splits)
  then have "list_all (\<lambda>x. target_in_parent_domain (sh_host x) (parent_domain h)) hosts"
    by (blast dest: validate_records_Inr)
  then show ?thesis unfolding list_all_iff target_in_parent_domain_iff .
qed

lemma resolved_by_name_in_domain:
  "resolve_with_service_name system_lookup entropy h service = Inr hosts \<Longrightarrow>
   \<forall>x \<in> set hosts. \<exists>pre. sh_host x = pre @ ''.'' @ parent_domain h"
  by (auto simp: resolve_with_service_name_def result_simps dest: resolved_in_domain)

lemma selected_settled:
  assumes "settles hosts probes" "into_primary (select_primary probes) = Some h"
  shows "h \<in> set hosts \<and> (h, Some (Inr True)) \<in> set probes"
proof -
  from assms(2) have "race probes [] = SelectedPrimary h"
    by (cases "race probes []") (auto simp: select_primary_def)
  from race_primary [OF this] have "(h, Some (Inr True)) \<in> set probes" by auto
  moreover have "set hosts = fst ` set probes"
    using assms(1) mset_eq_setD [of "map fst probes" hosts] by (simp add: settles_def)
  ultimately show ?thesis by force
qed

lemma select_target_Inr:
  "select_target probing tls timeout hosts = Inr t \<Longrightarrow>
   \<exists>h. into_primary (select_primary (probing tls timeout hosts)) = Some h \<and> t = target_of h"
  by (auto simp: select_target_def split: Selection.splits)

text \<open>Whatever holds of the first target and of every host that a tick can select holds of the
  target at any time.\<close>

lemma failover_invariant:
  assumes "failover_reachable select t s" "P t" "\<And>h. select (Some h) \<Longrightarrow> P (target_of h)"
  shows "P (fo_target s)"
  using assms(1)
proof (induction rule: failover_reachable.induct)
  case start
  then show ?case using assms(2) by (simp add: failover_start_def)
next
  case (step s s')
  from step.hyps(2) step.IH assms(3) show ?case
    by (auto simp: apply_primary_def Let_def elim!: failover_step.cases)
qed

text \<open>What a tick of the SRV loop, or of the seed-list loop, can select: the resolver and the
  hosts may answer anything, but every probe settles.\<close>

definition srv_tick ::
  "'roots TlsConnector option \<Rightarrow> duration \<Rightarrow> string \<Rightarrow> string \<Rightarrow> SrvHost option \<Rightarrow> bool" where
  "srv_tick tls timeout hostname service r \<longleftrightarrow>
     (\<exists>(probing :: 'roots probing) system_lookup entropy.
        (\<forall>hosts. settles hosts (probing tls timeout hosts)) \<and>
        r = resolve_and_select probing tls timeout
              (resolve_with_service_name system_lookup entropy hostname service))"

definition seed_tick ::
  "'roots TlsConnector option \<Rightarrow> duration \<Rightarrow> SrvHost list \<Rightarrow> SrvHost option \<Rightarrow> bool" where
  "seed_tick tls timeout hosts r \<longleftrightarrow>
     (\<exists>probing :: 'roots probing. (\<forall>hosts. settles hosts (probing tls timeout hosts)) \<and>
        r = reselect_seed_list probing tls timeout hosts)"

lemma srv_tick_domain:
  fixes tls :: "'a TlsConnector option"
  assumes "srv_tick tls timeout hostname service (Some h)"
  shows "\<exists>pre. sh_host h = pre @ ''.'' @ parent_domain hostname"
proof -
  from assms obtain probing :: "'a probing" and system_lookup entropy where
    settled: "\<forall>hosts. settles hosts (probing tls timeout hosts)"
    and sel: "Some h = resolve_and_select probing tls timeout
              (resolve_with_service_name system_lookup entropy hostname service)"
    unfolding srv_tick_def by blast
  from sel obtain hosts where
    "into_primary (select_primary (probing tls timeout hosts)) = Some h"
    and r: "resolve_with_service_name system_lookup entropy hostname service = Inr hosts"
    by (cases "resolve_with_service_name system_lookup entropy hostname service")
      (auto simp: resolve_and_select_def)
  then have "h \<in> set hosts" using selected_settled settled by blast
  with resolved_by_name_in_domain [OF r] show ?thesis by blast
qed

lemma seed_tick_listed: "seed_tick tls timeout hosts (Some h) \<Longrightarrow> h \<in> set hosts"
  unfolding seed_tick_def reselect_seed_list_def by (metis selected_settled)

text \<open>Where TLS comes from, constructor by constructor.\<close>

fun route_tls :: "UriRoute \<Rightarrow> bool" where
  "route_tls (Single _ _ use_tls) = use_tls"
| "route_tls (SeedList _ use_tls) = use_tls"
| "route_tls (SrvRoute _ use_tls _) = use_tls"

lemma route_uses_tls:
  "route u = Inr r \<Longrightarrow> route_tls r = opt_or (pu_tls u) (pu_scheme u = MongodbSrv)"
  by (auto simp: route_def Let_def split: Scheme.splits list.splits if_splits)

lemma from_srv_inner_tls:
  "from_srv_inner webpki system_lookup entropy probing h service tls failover = Inr (p, i) \<Longrightarrow>
   px_tls_connector p = build_tls_connector webpki tls"
  by (auto simp: from_srv_inner_def with_target_def Let_def result_simps)

lemma from_seed_list_tls:
  "from_seed_list webpki probing hosts use_tls failover = Inr (p, i) \<Longrightarrow>
   px_tls_connector p = (if use_tls then Some (roots_config webpki) else None)"
  by (auto simp: from_seed_list_def with_target_def default_tls_connector_def Let_def result_simps)

section \<open>Properties\<close>

definition sample_probing :: "unit probing" where
  "sample_probing tls timeout hosts = map (\<lambda>h. (h, Some (Inr True))) hosts"

lemma sample_probing_settles: "settles hosts (sample_probing tls timeout hosts)"
  by (simp add: settles_def sample_probing_def comp_def)

text \<open>C32. A proxy made from an SRV name forwards only inside the domain of that name: at start
  and after any sequence of fail-overs, whatever the resolver and the hosts answer, the
  upstream host lies under the parent domain.\<close>

theorem srv_target_in_domain:
  fixes p :: "('roots, 'l) Proxy"
  assumes "from_srv_inner webpki system_lookup entropy probing hostname service tls failover = Inr (p, interval)"
    and "\<And>hosts. settles hosts (probing (build_tls_connector webpki tls) (fc_probe_timeout failover) hosts)"
    and "failover_reachable (srv_tick (px_tls_connector p) (fc_probe_timeout failover) hostname service)
           (px_target p) s"
  shows "\<exists>pre. tg_host (fo_target s) = pre @ ''.'' @ parent_domain hostname"
proof (rule failover_invariant [OF assms(3)])
  from assms(1) obtain hosts h where
    r: "resolve_with_service_name system_lookup entropy hostname service = Inr hosts"
    and h: "into_primary (select_primary (probing (build_tls_connector webpki tls)
      (fc_probe_timeout failover) hosts)) = Some h"
    and p: "px_target p = target_of h"
    by (auto simp: from_srv_inner_def with_target_def Let_def result_simps dest!: select_target_Inr)
  from selected_settled [OF assms(2) h] resolved_by_name_in_domain [OF r]
  show "\<exists>pre. tg_host (px_target p) = pre @ ''.'' @ parent_domain hostname"
    by (auto simp: p target_of_def)
  show "\<exists>pre. tg_host (target_of h) = pre @ ''.'' @ parent_domain hostname"
    if "srv_tick (px_tls_connector p) (fc_probe_timeout failover) hostname service (Some h)" for h
    using srv_tick_domain [OF that] by (simp add: target_of_def)
qed

theorem srv_target_in_domain_witness:
  "\<exists>pre. ''a.x.net'' = pre @ ''.'' @ parent_domain ''c.x.net''"
proof -
  let ?lookup = "Inr (\<lambda>_. Inr [sample_record ''a.x.net.'' 0 0])
    :: LookupFailure + (string \<Rightarrow> LookupFailure + RawSrvRecord list)"
  let ?p = "with_target \<lparr>tg_host = ''a.x.net'', tg_port = 27017\<rparr> None :: (unit, unit) Proxy"
  have r: "resolve_with_service_name ?lookup 5 ''c.x.net'' ''mongodb'' =
      Inr [\<lparr>sh_host = ''a.x.net'', sh_port = 27017\<rparr>]"
    by code_simp
  have "from_srv_inner () ?lookup 5 sample_probing ''c.x.net'' ''mongodb'' TlsDisabled
      FailoverConfig_disabled = Inr (?p, None)"
    by (simp add: from_srv_inner_def r select_target_def sample_probing_def select_primary_def target_of_def
        FailoverConfig_disabled_def FailoverConfig_default_def)
  from srv_target_in_domain [OF this sample_probing_settles failover_reachable.start]
  show ?thesis by (simp add: failover_start_def with_target_def)
qed

text \<open>A proxy made from a seed list forwards only to hosts of that list that a probe has
  found to be the primary; the fail-over loop never leaves the list.\<close>

lemma seed_target_listed:
  fixes p :: "('roots, 'l) Proxy"
  assumes "from_seed_list webpki probing hosts use_tls failover = Inr (p, interval)"
    and "\<And>tls hosts. settles hosts (probing tls (fc_probe_timeout failover) hosts)"
    and "failover_reachable (seed_tick (px_tls_connector p) (fc_probe_timeout failover) hosts) (px_target p) s"
  shows "\<exists>h \<in> set hosts. fo_target s = target_of h"
proof (rule failover_invariant [OF assms(3)])
  from assms(1) obtain tls h where
    h: "into_primary (select_primary (probing tls (fc_probe_timeout failover) hosts)) = Some h"
    and p: "px_target p = target_of h"
    by (auto simp: from_seed_list_def with_target_def Let_def result_simps dest!: select_target_Inr)
  from selected_settled [OF assms(2) h] p show "\<exists>h \<in> set hosts. px_target p = target_of h" by blast
  show "\<exists>h' \<in> set hosts. target_of h = target_of h'"
    if "seed_tick (px_tls_connector p) (fc_probe_timeout failover) hosts (Some h)" for h
    using seed_tick_listed [OF that] by blast
qed

lemma seed_target_listed_witness:
  "\<exists>h \<in> set [sample_host ''a'', sample_host ''b'']. target_of (sample_host ''a'') = target_of h"
proof -
  let ?p = "with_target (target_of (sample_host ''a'')) None :: (unit, unit) Proxy"
  have "from_seed_list () sample_probing [sample_host ''a'', sample_host ''b''] False
      FailoverConfig_disabled = Inr (?p, None)"
    by (simp add: from_seed_list_def select_target_def sample_probing_def select_primary_def
        FailoverConfig_disabled_def FailoverConfig_default_def)
  from seed_target_listed [OF this sample_probing_settles failover_reachable.start]
  show ?thesis by (simp add: failover_start_def with_target_def)
qed

text \<open>Connection strings are routed by scheme and host count: every accepted string has a
  route (the defensive error cannot occur); one host is used as it is, several
  hosts become the seed list in their order, each with the default port where none is
  given; and TLS is as the string says, by default on for SRV and off otherwise.\<close>

lemma route_total:
  assumes "parse uri = Inr u"
  shows "route u = Inr (case pu_scheme u of
      MongodbSrv \<Rightarrow> SrvRoute (hs_host (hd (pu_hosts u))) (pu_tls u \<noteq> Some False) (pu_srv_service_name u)
    | Mongodb \<Rightarrow>
        if length (pu_hosts u) = 1 then
          Single (hs_host (hd (pu_hosts u))) (sh_port (seed_host (hd (pu_hosts u)))) (pu_tls u = Some True)
        else SeedList (map seed_host (pu_hosts u)) (pu_tls u = Some True))"
proof -
  obtain specs where h: "parse_hosts (pu_scheme u) (str_split CHR '','' specs) = Inr (pu_hosts u)"
    using assms unfolding parse_def Let_def
    by (auto simp: result_simps split_beta split: if_splits option.splits Scheme.splits)
  have "pu_hosts u \<noteq> []" using parse_hosts_Inr [OF h] str_split_not_Nil [of "CHR '',''" specs] by auto
  then obtain x xs where "pu_hosts u = x # xs" by (cases "pu_hosts u") auto
  then show ?thesis
    by (cases "pu_tls u") (auto simp: route_def opt_or_def seed_host_def Let_def split: Scheme.splits)
qed

lemma route_total_witness:
  "route \<lparr>pu_scheme = Mongodb, pu_hosts = [\<lparr>hs_host = ''a'', hs_port = None\<rparr>, \<lparr>hs_host = ''b'', hs_port = Some 5\<rparr>],
      pu_tls = None, pu_srv_service_name = None\<rparr> =
   Inr (SeedList [\<lparr>sh_host = ''a'', sh_port = 27017\<rparr>, \<lparr>sh_host = ''b'', sh_port = 5\<rparr>] False)"
proof -
  have "parse ''mongodb://a,b:5/'' = Inr \<lparr>pu_scheme = Mongodb,
      pu_hosts = [\<lparr>hs_host = ''a'', hs_port = None\<rparr>, \<lparr>hs_host = ''b'', hs_port = Some 5\<rparr>],
      pu_tls = None, pu_srv_service_name = None\<rparr>"
    by code_simp
  from route_total [OF this] show ?thesis by (simp add: seed_host_def opt_or_def default_port_def)
qed

text \<open>C33. A proxy made from a connection string never weakens TLS: if the string asks for TLS
  (or is SRV and does not refuse it) the connector verifies certificates against the
  \<open>webpki\<close> roots with SNI; otherwise there is none.\<close>

theorem from_uri_tls:
  fixes p :: "('roots, 'l) Proxy"
  assumes "parse uri = Inr u"
    and "from_uri webpki system_lookup entropy probing uri = Inr (p, interval)"
  shows "px_tls_connector p =
    (if pu_tls u = Some True \<or> pu_scheme u = MongodbSrv \<and> pu_tls u = None
     then Some \<lparr>tc_verifier = VerifyRoots webpki, tc_client_auth = False, tc_enable_sni = True\<rparr>
     else None)"
proof -
  from assms obtain r where r: "route u = Inr r"
    by (auto simp: from_uri_def result_simps)
  have "px_tls_connector p = (if route_tls r then Some (roots_config webpki) else None)"
    using assms r
    by (cases r)
      (auto simp: from_uri_def result_simps with_tls_def with_target_def dest!: from_srv_inner_tls from_seed_list_tls)
  with route_uses_tls [OF r] show ?thesis
    by (cases "pu_tls u"; cases "pu_scheme u") (auto simp: opt_or_def roots_config_def)
qed

theorem from_uri_tls_witness:
  "px_tls_connector (with_tls () ''a'' 27017 TlsSystem :: (unit, unit) Proxy) =
     Some \<lparr>tc_verifier = VerifyRoots (), tc_client_auth = False, tc_enable_sni = True\<rparr>"
proof -
  have u: "parse ''mongodb://a/?tls=true'' = Inr \<lparr>pu_scheme = Mongodb,
      pu_hosts = [\<lparr>hs_host = ''a'', hs_port = None\<rparr>], pu_tls = Some True, pu_srv_service_name = None\<rparr>"
    by code_simp
  have "from_uri () (Inl (LookupFailure_new ''read system DNS config'' ''none'')) 0 sample_probing ''mongodb://a/?tls=true'' =
      Inr (with_tls () ''a'' 27017 TlsSystem :: (unit, unit) Proxy, None)"
    by (simp add: from_uri_def u route_def opt_or_def default_port_def)
  from from_uri_tls [OF u this] show ?thesis by simp
qed

text \<open>C34. A new connection dials the current target, and when TLS is configured the service
  exists only after a handshake for that host name: TLS is never skipped.\<close>

theorem connection_dials_target:
  assumes "Proxy_call N base apply_layer p = Inr svc"
  shows "\<exists>sock stream. tcp_connect N (tg_host (px_target p) @ '':'' @ show_u16 (tg_port (px_target p))) = Inr sock \<and>
    (case px_tls_connector p of
       None \<Rightarrow> stream = sock
     | Some c \<Rightarrow> \<exists>domain. server_name N (tg_host (px_target p)) = Inr domain \<and>
         tls_connect N c domain sock = Inr stream) \<and>
    svc = foldr apply_layer (px_layers p)
      (base \<lparr>rhs_inner = Unlocked \<lparr>server_reader = fst (framed_split N stream),
               server_writer = snd (framed_split N stream)\<rparr>,
             rhs_enabled = px_rewrite_hello p\<rparr>)"
  using assms
  by (cases "px_tls_connector p")
    (auto simp: Proxy_call_def forward_to_def read_target_def RewriteHelloLayer_layer_def
      RewriteHelloLayer_enabled_def RewriteHelloLayer_disabled_def Let_def result_simps split_beta)

definition sample_network :: "(unit, unit TlsConnector, unit, unit) network" where
  "sample_network = \<lparr>tcp_connect = (\<lambda>_. Inr ()), server_name = Inr, tls_connect = (\<lambda>_ _ _. Inr ()),
     framed_split = (\<lambda>_. ((), ()))\<rparr>"

theorem connection_dials_target_witness:
  "\<exists>stream. tls_connect sample_network (roots_config ()) ''a'' () = Inr stream"
proof -
  let ?p = "with_tls () ''a'' 27017 TlsSystem :: (unit, unit) Proxy"
  have "Proxy_call sample_network (\<lambda>s. s) (\<lambda>_ s. s) ?p =
      Inr \<lparr>rhs_inner = Unlocked \<lparr>server_reader = (), server_writer = ()\<rparr>, rhs_enabled = True\<rparr>"
    by (simp add: Proxy_call_def sample_network_def with_tls_def with_target_def read_target_def
        forward_to_def RewriteHelloLayer_layer_def RewriteHelloLayer_enabled_def)
  from connection_dials_target [OF this] show ?thesis
    by (auto simp: sample_network_def with_tls_def with_target_def)
qed

text \<open>C35. Starting on a seed list. When the hosts answer their probes as \<open>answer\<close> says (and those that
  settle together are collected in any order), the constructor succeeds exactly if some host
  answers as primary within the configured timeout; the proxy then targets a host whose
  answer is the fastest of all primaries. Otherwise the error names every host once.\<close>

theorem seed_list_startup:
  fixes answer :: "SrvHost \<Rightarrow> (nat \<times> (ProbeError + bool)) option"
  assumes "timed_race (fc_probe_timeout failover) (map (\<lambda>h. (h, answer h)) hosts)
      (probing (if use_tls then Some (default_tls_connector webpki) else None) (fc_probe_timeout failover) hosts)"
  shows "case from_seed_list webpki probing hosts use_tls failover of
      Inr (p, _) \<Rightarrow> \<exists>h t. h \<in> set hosts \<and> px_target p = target_of h \<and> answer h = Some (t, Inr True) \<and>
        t \<le> fc_probe_timeout failover \<and> (\<forall>h' \<in> set hosts. \<forall>t'. answer h' = Some (t', Inr True) \<longrightarrow> t \<le> t')
    | Inl e \<Rightarrow> \<exists>attempts. e = NoPrimary attempts \<and> mset (map fst attempts) = mset hosts \<and>
        (\<forall>h \<in> set hosts. \<forall>t. answer h = Some (t, Inr True) \<longrightarrow> fc_probe_timeout failover < t)"
proof -
  let ?tls = "if use_tls then Some (default_tls_connector webpki) else None"
  let ?c = "probing ?tls (fc_probe_timeout failover) hosts"
  have mem: "(h, x) \<in> set (map (\<lambda>h. (h, answer h)) hosts) \<longleftrightarrow> h \<in> set hosts \<and> answer h = x" for h x
    by auto
  note f = fastest_primary_selected [OF assms, unfolded mem]
  show ?thesis
  proof (cases "select_primary ?c")
    case (SelectedPrimary h)
    with f obtain t where "h \<in> set hosts" "answer h = Some (t, Inr True)" "t \<le> fc_probe_timeout failover"
      "\<forall>h' \<in> set hosts. \<forall>t'. answer h' = Some (t', Inr True) \<longrightarrow> t \<le> t'"
      by auto
    with SelectedPrimary show ?thesis
      by (auto simp: from_seed_list_def select_target_def with_target_def Let_def)
  next
    case (NoPrimarySelected attempts)
    from timed_race_settles [OF assms] race_no_primary [OF NoPrimarySelected [unfolded select_primary_def]]
    have "mset (map fst attempts) = mset hosts"
      by (auto simp: settles_def comp_def split_beta)
    with f NoPrimarySelected show ?thesis
      by (auto simp: from_seed_list_def select_target_def Let_def)
  qed
qed

theorem seed_list_startup_witness:
  "\<exists>p interval. from_seed_list () (\<lambda>_ timeout hosts. timed_completions timeout (map (\<lambda>h. (h, Some (2000, Inr True))) hosts))
     [sample_host ''a''] False FailoverConfig_default = Inr (p :: (unit, unit) Proxy, interval) \<and>
     px_target p = target_of (sample_host ''a'')"
proof -
  let ?probing = "\<lambda>_ timeout hosts. timed_completions timeout (map (\<lambda>h. (h, Some (2000, Inr True))) hosts)"
  let ?r = "from_seed_list () ?probing [sample_host ''a''] False FailoverConfig_default :: FromUriError + (unit, unit) Proxy \<times> duration option"
  from seed_list_startup [where probing = ?probing and answer = "\<lambda>_. Some (2000, Inr True)" and hosts = "[sample_host ''a'']"
      and use_tls = False and failover = FailoverConfig_default and webpki = "()" and ?'b = unit, OF timed_completions_race]
  show ?thesis
    by (cases ?r) (auto simp: FailoverConfig_default_def DEFAULT_PROBE_TIMEOUT_def)
qed

end
