(* ===== verification/Redact.thy ===== *)
theory Redact
  imports Message Strings
begin

text \<open>
  Credential-safe \<open>Debug\<close> rendering (\<open>src/src/redact.rs\<close>) and the \<open>Debug\<close>
  implementations that go through it (\<open>src/src/operation/op_msg.rs\<close>,
  \<open>op_query.rs\<close>, \<open>op_reply.rs\<close>). The text that a formatter produces is represented by the
  tree of builder calls (\<open>debug_map\<close>, \<open>debug_list\<close>, \<open>debug_struct\<close>, \dots) that
  produces it; \<open>DebugBson v\<close> is the crate's own \<open>Debug\<close> of a BSON value, which
  shows all of \<open>v\<close>.
\<close>

section \<open>Debug output\<close>

datatype debug =
    DebugText string
  | DebugBson bson
  | DebugString string
  | DebugNat nat
  | DebugInt int
  | DebugBits u32
  | DebugOption "debug option"
  | DebugMap "(string \<times> debug) list"
  | DebugList "debug list"
  | DebugTuple string "debug list"
  | DebugStruct string "(string \<times> debug) list"

section \<open>Redaction\<close>

definition REDACTED :: string where "REDACTED = ''<redacted>''"

definition DENYLIST :: "string list" where
  "DENYLIST =
     [''payload'', ''pwd'', ''password'', ''key'', ''clientproof'', ''serversignature'',
      ''speculativeauthenticate'', ''saslstart'', ''saslcontinue'', ''authorization'',
      ''sessiontoken'', ''token'', ''secret'']"

definition is_sensitive_key :: "string \<Rightarrow> bool" where
  "is_sensitive_key key \<longleftrightarrow> list_ex (\<lambda>d. eq_ignore_ascii_case key d) DENYLIST"

lemma size_entry_less:
  "(k, v) \<in> set es \<Longrightarrow> size v < size_list (size_prod f size) es"
  by (induction es) auto

lemma size_item_less: "v \<in> set vs \<Longrightarrow> size v < size_list size vs"
  by (induction vs) auto

definition RedactedScalar :: debug where
  "RedactedScalar = DebugText REDACTED"

function (sequential) RedactedValue :: "bson \<Rightarrow> debug" where
  "RedactedValue (Document doc) =
     DebugMap (map (\<lambda>(k, v). (k, if is_sensitive_key k then RedactedScalar else RedactedValue v)) doc)"
| "RedactedValue (Array items) = DebugList (map RedactedValue items)"
| "RedactedValue other = DebugBson other"
  by pat_completeness auto
termination
  by (relation "measure size") (auto dest: size_entry_less size_item_less simp: less_Suc_eq)

definition RedactedDoc :: "document \<Rightarrow> debug" where
  "RedactedDoc doc =
     DebugMap (map (\<lambda>(key, v). (key, if is_sensitive_key key then RedactedScalar else RedactedValue v)) doc)"

section \<open>Debug of operations and messages\<close>

fun OpMsgSection_fmt :: "OpMsgSection \<Rightarrow> debug" where
  "OpMsgSection_fmt (Body doc) = DebugTuple ''Body'' [RedactedDoc doc]"
| "OpMsgSection_fmt (DocumentSequence identifier documents) =
     DebugStruct ''DocumentSequence''
       [(''identifier'', DebugString identifier),
        (''document_count'', DebugNat (length documents)),
        (''documents'', DebugList (map RedactedDoc documents))]"

definition OperationMessage_fmt :: "OperationMessage \<Rightarrow> debug" where
  "OperationMessage_fmt m =
     DebugStruct ''OperationMessage''
       [(''flags'', DebugBits (om_flags m)),
        (''sections'', DebugList (map OpMsgSection_fmt (om_sections m))),
        (''checksum'', DebugOption (map_option DebugBits (om_checksum m)))]"

definition OperationQuery_fmt :: "OperationQuery \<Rightarrow> debug" where
  "OperationQuery_fmt q =
     DebugStruct ''OperationQuery''
       [(''flags'', DebugBits (oq_flags q)),
        (''full_collection_name'', DebugString (oq_full_collection_name q)),
        (''number_to_skip'', DebugInt (sint (oq_number_to_skip q))),
        (''number_to_return'', DebugInt (sint (oq_number_to_return q))),
        (''query'', RedactedDoc (oq_query q)),
        (''return_fields_selector'',
           DebugOption (map_option RedactedDoc (oq_return_fields_selector q)))]"

definition OperationReply_fmt :: "OperationReply \<Rightarrow> debug" where
  "OperationReply_fmt r =
     DebugStruct ''OperationReply''
       [(''flags'', DebugBits (or_flags r)),
        (''cursor_id'', DebugInt (sint (or_cursor_id r))),
        (''starting_from'', DebugInt (sint (or_starting_from r))),
        (''document_count'', DebugNat (length (or_documents r))),
        (''documents'', DebugList (map RedactedDoc (or_documents r)))]"

text \<open>The derived implementations of the union and of the message.\<close>

fun Operation_fmt :: "Operation \<Rightarrow> debug" where
  "Operation_fmt (Operation_Query q) = DebugTuple ''Query'' [OperationQuery_fmt q]"
| "Operation_fmt (Operation_Message m) = DebugTuple ''Message'' [OperationMessage_fmt m]"
| "Operation_fmt (Operation_Reply r) = DebugTuple ''Reply'' [OperationReply_fmt r]"

definition Message_fmt :: "Message \<Rightarrow> debug" where
  "Message_fmt m =
     DebugStruct ''Message''
       [(''request_id'', DebugTuple ''RequestId'' [DebugInt (sint (request_id_inner (msg_request_id m)))]),
        (''response_to'',
           DebugOption (map_option
             (\<lambda>r. DebugTuple ''ResponseTo'' [DebugInt (sint (response_to_inner r))]) (msg_response_to m))),
        (''operation'', Operation_fmt (msg_operation m))]"

section \<open>What may be revealed\<close>

text \<open>The specification does not use the code above. The keys that carry credentials, as the
  documentation of the module lists them; they count in any ASCII letter case.\<close>

definition credential_key :: "string \<Rightarrow> bool" where
  "credential_key key \<longleftrightarrow> to_ascii_lowercase key \<in>
     {''saslstart'', ''saslcontinue'', ''speculativeauthenticate'', ''payload'', ''clientproof'',
      ''serversignature'', ''pwd'', ''password'', ''key'', ''authorization'', ''sessiontoken'',
      ''token'', ''secret''}"

text \<open>The values directly inside a value, with their keys if they have some. The scope of a code value is a
  document like any other. A position is a path of child numbers from the root.\<close>

fun bson_children :: "bson \<Rightarrow> (string option \<times> bson) list" where
  "bson_children (Document d) = map (\<lambda>(k, v). (Some k, v)) d"
| "bson_children (Array vs) = map (Pair None) vs"
| "bson_children (JavaScriptCodeWithScope code d) = map (\<lambda>(k, v). (Some k, v)) d"
| "bson_children _ = []"

fun value_at :: "bson \<Rightarrow> nat list \<Rightarrow> bson option" where
  "value_at v [] = Some v"
| "value_at v (i # p) =
     (if i < length (bson_children v) then value_at (snd (bson_children v ! i)) p else None)"

definition credential_child :: "string option \<times> bson \<Rightarrow> bool" where
  "credential_child c \<longleftrightarrow> (case fst c of Some k \<Rightarrow> credential_key k | None \<Rightarrow> False)"

fun under_credential :: "bson \<Rightarrow> nat list \<Rightarrow> bool" where
  "under_credential v [] = False"
| "under_credential v (i # p) =
     (i < length (bson_children v) \<and>
      (credential_child (bson_children v ! i) \<or> under_credential (snd (bson_children v ! i)) p))"

text \<open>What one node of a value shows by itself: everything but the values inside it.\<close>

fun bson_node :: "bson \<Rightarrow> bson" where
  "bson_node (Document d) = Document (map (\<lambda>(k, _). (k, Null)) d)"
| "bson_node (Array vs) = Array (map (\<lambda>_. Null) vs)"
| "bson_node (JavaScriptCodeWithScope code d) = JavaScriptCodeWithScope code (map (\<lambda>(k, _). (k, Null)) d)"
| "bson_node v = v"

text \<open>Two values that agree at every position that is not under a credential key.\<close>

definition same_public :: "bson \<Rightarrow> bson \<Rightarrow> bool" where
  "same_public v w \<longleftrightarrow>
     (\<forall>p. \<not> under_credential v p \<longrightarrow> map_option bson_node (value_at v p) = map_option bson_node (value_at w p))"

definition same_public_doc :: "document \<Rightarrow> document \<Rightarrow> bool" where
  "same_public_doc d d' \<longleftrightarrow> same_public (Document d) (Document d')"

text \<open>No code with a scope at a position that is not under a credential key.\<close>

function (sequential) scope_free :: "bson \<Rightarrow> bool" where
  "scope_free (Document d) \<longleftrightarrow> list_all (\<lambda>(k, v). credential_key k \<or> scope_free v) d"
| "scope_free (Array vs) \<longleftrightarrow> list_all scope_free vs"
| "scope_free (JavaScriptCodeWithScope _ _) \<longleftrightarrow> False"
| "scope_free _ \<longleftrightarrow> True"
  by pat_completeness auto
termination
  by (relation "measure size") (auto dest: size_entry_less size_item_less simp: less_Suc_eq)

definition scope_free_doc :: "document \<Rightarrow> bool" where
  "scope_free_doc d \<longleftrightarrow> scope_free (Document d)"

lemma is_sensitive_key_iff: "is_sensitive_key key = credential_key key"
proof -
  have "map to_ascii_lowercase DENYLIST = DENYLIST" by code_simp
  then have "is_sensitive_key key \<longleftrightarrow> to_ascii_lowercase key \<in> set DENYLIST"
    by (metis (no_types, lifting) eq_ignore_ascii_case_def image_iff is_sensitive_key_def list.set_map list_ex_iff)
  then show ?thesis by (auto simp: DENYLIST_def credential_key_def)
qed

lemma map_eq_list_all2:
  "map f xs = map g ys \<longleftrightarrow> list_all2 (\<lambda>x y. f x = g y) xs ys"
  by (auto simp: list_all2_conv_all_nth list_eq_iff_nth_eq)

lemma bson_node_children:
  "bson_node v = bson_node w \<Longrightarrow> map fst (bson_children v) = map fst (bson_children w)"
proof -
  have keys: "map fst (map (\<lambda>(k, v). (Some k, v)) d) = map (Some \<circ> fst) (map (\<lambda>(k, _). (k, Null)) d)" for d :: document
    by (simp add: comp_def split_beta)
  show "map fst (bson_children v) = map fst (bson_children w)" if "bson_node v = bson_node w"
    using that
    by (cases v; cases w; simp only: bson_node.simps bson_children.simps bson.inject bson.distinct keys)
      (auto simp: map_eq_conv list_eq_iff_nth_eq)
qed

text \<open>The definition by positions, one level at a time.\<close>

lemma same_public_step:
  "same_public v w \<longleftrightarrow> bson_node v = bson_node w \<and>
     list_all2 (\<lambda>c c'. credential_child c \<or> same_public (snd c) (snd c')) (bson_children v) (bson_children w)"
proof (cases "bson_node v = bson_node w")
  case True
  then have len: "length (bson_children v) = length (bson_children w)"
    using bson_node_children map_eq_imp_length_eq by blast
  have "same_public v w \<longleftrightarrow> (\<forall>i p. \<not> under_credential v (i # p) \<longrightarrow>
      map_option bson_node (value_at v (i # p)) = map_option bson_node (value_at w (i # p)))"
    unfolding same_public_def using True
    by (metis list.exhaust option.simps(9) value_at.simps(1))
  also have "\<dots> \<longleftrightarrow> list_all2 (\<lambda>c c'. credential_child c \<or> same_public (snd c) (snd c')) (bson_children v) (bson_children w)"
    using len by (auto simp: list_all2_conv_all_nth same_public_def)
  finally show ?thesis using True by simp
next
  case False
  then have "\<not> same_public v w"
    unfolding same_public_def by (metis option.inject option.simps(9) under_credential.simps(1) value_at.simps(1))
  with False show ?thesis by simp
qed

abbreviation same_public_entry :: "string \<times> bson \<Rightarrow> string \<times> bson \<Rightarrow> bool" where
  "same_public_entry e f \<equiv> fst e = fst f \<and> (credential_key (fst e) \<or> same_public (snd e) (snd f))"

lemma list_all2_entries:
  "list_all2 (\<lambda>e f. fst e = fst f \<and> P e f) d d' \<longleftrightarrow> map fst d = map fst d' \<and> list_all2 P d d'"
  by (auto simp: map_eq_list_all2 list_all2_conv_all_nth)

lemma bson_node_Document: "bson_node (Document d) = bson_node w \<longleftrightarrow> (\<exists>d'. w = Document d' \<and> map fst d = map fst d')"
  by (cases w) (simp_all add: map_eq_list_all2 split_beta)

lemma bson_node_Array: "bson_node (Array vs) = bson_node w \<longleftrightarrow> (\<exists>ws. w = Array ws \<and> length vs = length ws)"
  by (cases w) (auto simp: map_eq_list_all2 list_all2_conv_all_nth)

lemma same_public_Document:
  "same_public (Document d) w \<longleftrightarrow> (\<exists>d'. w = Document d' \<and> list_all2 same_public_entry d d')"
  unfolding same_public_step [of "Document d"] bson_node_Document
  by (auto simp: list_all2_entries list.rel_map split_beta credential_child_def)

lemma same_public_Array:
  "same_public (Array vs) w \<longleftrightarrow> (\<exists>ws. w = Array ws \<and> list_all2 same_public vs ws)"
  unfolding same_public_step [of "Array vs"] bson_node_Array
  by (auto simp: list.rel_map credential_child_def dest: list_all2_lengthD)

lemma bson_node_leaf: "bson_children v = [] \<Longrightarrow> bson_node v = v"
  by (cases v) auto

lemma bson_node_eq_leaf: "bson_node w = v \<Longrightarrow> bson_children v = [] \<Longrightarrow> w = v"
  by (cases w) auto

lemma same_public_leaf: "bson_children v = [] \<Longrightarrow> same_public v w \<longleftrightarrow> w = v"
  by (subst same_public_step) (auto simp: bson_node_leaf dest: bson_node_eq_leaf [OF sym])

lemma RedactedDoc_value: "RedactedDoc d = RedactedValue (Document d)"
  by (simp add: RedactedDoc_def)

lemma RedactedValue_Document:
  "DebugMap (map (\<lambda>(k, v). (k, if credential_key k then RedactedScalar else RedactedValue v)) d) = RedactedValue w \<longleftrightarrow>
   (\<exists>d'. w = Document d' \<and>
      list_all2 (\<lambda>e f. fst e = fst f \<and> (credential_key (fst e) \<or> RedactedValue (snd e) = RedactedValue (snd f))) d d')"
  by (cases w) (auto simp: is_sensitive_key_iff map_eq_list_all2 split_beta elim!: list_all2_mono split: if_splits)

lemma RedactedValue_Array:
  "DebugList (map RedactedValue vs) = RedactedValue w \<longleftrightarrow>
   (\<exists>ws. w = Array ws \<and> list_all2 (\<lambda>x y. RedactedValue x = RedactedValue y) vs ws)"
  by (cases w) (simp_all add: map_eq_list_all2)

lemma RedactedValue_leaf: "DebugBson v = RedactedValue w \<longleftrightarrow> w = v" if "RedactedValue v = DebugBson v"
  using that by (cases w) auto

text \<open>The rendering of a value without scopes shows exactly its public part: nothing under a
  credential key, and everything else.\<close>

lemma RedactedValue_eq:
  "scope_free v \<Longrightarrow> scope_free w \<Longrightarrow> RedactedValue v = RedactedValue w \<longleftrightarrow> same_public v w"
proof (induction v arbitrary: w rule: RedactedValue.induct)
  case (1 d)
  have "list_all2 (\<lambda>e f. fst e = fst f \<and> (credential_key (fst e) \<or> RedactedValue (snd e) = RedactedValue (snd f))) d d' \<longleftrightarrow>
      list_all2 same_public_entry d d'" if "w = Document d'" for d'
  proof (rule list.rel_cong [OF refl refl])
    fix e f assume ef: "e \<in> set d" "f \<in> set d'"
    obtain k v k' v' where e: "e = (k, v)" "f = (k', v')" by fastforce
    have "RedactedValue v = RedactedValue v' \<longleftrightarrow> same_public v v'" if "\<not> credential_key k" "k = k'"
      using "1.IH" [of e k v v'] "1.prems" ef that \<open>w = Document d'\<close>
      by (auto simp: e list_all_iff is_sensitive_key_iff)
    then show "(fst e = fst f \<and> (credential_key (fst e) \<or> RedactedValue (snd e) = RedactedValue (snd f))) =
        same_public_entry e f"
      by (auto simp: e)
  qed
  then show ?case
    by (auto simp: is_sensitive_key_iff RedactedValue_Document same_public_Document)
next
  case (2 vs)
  have "list_all2 (\<lambda>x y. RedactedValue x = RedactedValue y) vs ws \<longleftrightarrow> list_all2 same_public vs ws"
    if "w = Array ws" for ws
    using 2 that by (intro list.rel_cong [OF refl refl]) (auto simp: list_all_iff)
  then show ?case by (auto simp: RedactedValue_Array same_public_Array)
qed (simp_all add: RedactedValue_leaf same_public_leaf)

lemma RedactedDoc_eq:
  "scope_free_doc d \<Longrightarrow> scope_free_doc d' \<Longrightarrow> RedactedDoc d = RedactedDoc d' \<longleftrightarrow> same_public_doc d d'"
  by (simp only: RedactedDoc_value same_public_doc_def scope_free_doc_def RedactedValue_eq)

text \<open>The same for sections, operations and messages.\<close>

fun same_public_section :: "OpMsgSection \<Rightarrow> OpMsgSection \<Rightarrow> bool" where
  "same_public_section (Body d) (Body d') = same_public_doc d d'"
| "same_public_section (DocumentSequence i ds) (DocumentSequence i' ds') =
     (i = i' \<and> list_all2 same_public_doc ds ds')"
| "same_public_section _ _ = False"

fun same_public_operation :: "Operation \<Rightarrow> Operation \<Rightarrow> bool" where
  "same_public_operation (Operation_Message m) (Operation_Message n) =
     (om_flags m = om_flags n \<and> om_checksum m = om_checksum n \<and>
      list_all2 same_public_section (om_sections m) (om_sections n))"
| "same_public_operation (Operation_Query q) (Operation_Query p) =
     (oq_flags q = oq_flags p \<and> oq_full_collection_name q = oq_full_collection_name p \<and>
      oq_number_to_skip q = oq_number_to_skip p \<and> oq_number_to_return q = oq_number_to_return p \<and>
      same_public_doc (oq_query q) (oq_query p) \<and>
      rel_option same_public_doc (oq_return_fields_selector q) (oq_return_fields_selector p))"
| "same_public_operation (Operation_Reply r) (Operation_Reply s) =
     (or_flags r = or_flags s \<and> or_cursor_id r = or_cursor_id s \<and>
      or_starting_from r = or_starting_from s \<and>
      list_all2 same_public_doc (or_documents r) (or_documents s))"
| "same_public_operation _ _ = False"

text \<open>Two messages with the same header data whose documents differ only in
  credentials.\<close>

definition same_public_message :: "Message \<Rightarrow> Message \<Rightarrow> bool" where
  "same_public_message m n \<longleftrightarrow>
     msg_request_id m = msg_request_id n \<and> msg_response_to m = msg_response_to n \<and>
     same_public_operation (msg_operation m) (msg_operation n)"

fun section_documents :: "OpMsgSection \<Rightarrow> document list" where
  "section_documents (Body d) = [d]"
| "section_documents (DocumentSequence _ ds) = ds"

fun operation_documents :: "Operation \<Rightarrow> document list" where
  "operation_documents (Operation_Message m) = concat (map section_documents (om_sections m))"
| "operation_documents (Operation_Query q) =
     oq_query q # (case oq_return_fields_selector q of None \<Rightarrow> [] | Some d \<Rightarrow> [d])"
| "operation_documents (Operation_Reply r) = or_documents r"

definition scope_free_message :: "Message \<Rightarrow> bool" where
  "scope_free_message m \<longleftrightarrow> list_all scope_free_doc (operation_documents (msg_operation m))"

lemma map_RedactedDoc_eq:
  "list_all scope_free_doc ds \<Longrightarrow> list_all scope_free_doc ds' \<Longrightarrow>
   map RedactedDoc ds = map RedactedDoc ds' \<longleftrightarrow> list_all2 same_public_doc ds ds'"
  unfolding map_eq_list_all2
  by (intro list.rel_cong [OF refl refl]) (simp add: RedactedDoc_eq list_all_iff)

lemma OpMsgSection_fmt_eq:
  "list_all scope_free_doc (section_documents s) \<Longrightarrow> list_all scope_free_doc (section_documents t) \<Longrightarrow>
   OpMsgSection_fmt s = OpMsgSection_fmt t \<longleftrightarrow> same_public_section s t"
  by (cases s; cases t) (auto simp: RedactedDoc_eq map_RedactedDoc_eq dest: list_all2_lengthD)

lemma map_OpMsgSection_fmt_eq:
  "list_all scope_free_doc (concat (map section_documents ss)) \<Longrightarrow>
   list_all scope_free_doc (concat (map section_documents ts)) \<Longrightarrow>
   map OpMsgSection_fmt ss = map OpMsgSection_fmt ts \<longleftrightarrow> list_all2 same_public_section ss ts"
  unfolding map_eq_list_all2
  by (intro list.rel_cong [OF refl refl] OpMsgSection_fmt_eq) (simp_all add: list_all_iff)

lemma map_option_eq: "map_option f x = map_option g y \<longleftrightarrow> rel_option (\<lambda>a b. f a = g b) x y"
  by (cases x; cases y) auto

lemma Operation_fmt_eq:
  "list_all scope_free_doc (operation_documents x) \<Longrightarrow> list_all scope_free_doc (operation_documents y) \<Longrightarrow>
   Operation_fmt x = Operation_fmt y \<longleftrightarrow> same_public_operation x y"
  by (cases x; cases y)
    (auto simp: OperationMessage_fmt_def OperationQuery_fmt_def OperationReply_fmt_def
      RedactedDoc_eq map_RedactedDoc_eq map_OpMsgSection_fmt_eq
      map_option_eq option.rel_eq signed_word_eqI dest: list_all2_lengthD elim!: option.rel_cases
      split: option.splits)

lemma Message_fmt_eq:
  assumes "scope_free_message m" "scope_free_message n"
  shows "Message_fmt m = Message_fmt n \<longleftrightarrow> same_public_message m n"
proof -
  have "DebugInt (sint (request_id_inner a)) = DebugInt (sint (request_id_inner b)) \<longleftrightarrow> a = b" for a b
    by (cases a; cases b) (auto simp: signed_word_eqI)
  moreover have "sint (response_to_inner a) = sint (response_to_inner b) \<longleftrightarrow> a = b" for a b
    by (cases a; cases b) (auto simp: signed_word_eqI)
  ultimately show ?thesis
    using Operation_fmt_eq [OF assms [unfolded scope_free_message_def]]
    by (auto simp: Message_fmt_def same_public_message_def map_option_eq option.rel_eq)
qed

section \<open>Properties\<close>

text \<open>C23. Logging a message does not leak credentials: the \<open>Debug\<close> output of a message is a
  function of its public part, what is not under a key that the documentation names as
  carrying credentials; and it determines the public part, so that redaction hides nothing
  else. This is for messages without code that carries a scope document; the next property is about those.\<close>

theorem message_debug_noninterference:
  assumes "scope_free_message m" "scope_free_message n"
  shows "Message_fmt m = Message_fmt n \<longleftrightarrow> same_public_message m n"
  using assms by (rule Message_fmt_eq)

definition sample_hello_auth :: "string \<Rightarrow> Message" where
  "sample_hello_auth secret = \<lparr>msg_request_id = RequestId 8, msg_response_to = None,
     msg_operation = Operation_Message \<lparr>om_flags = 0,
       om_sections = [Body [(''hello'', Int32 1), (''list'', Array [Document [(''Pwd'', String secret)]])]],
       om_checksum = None\<rparr>\<rparr>"

theorem message_debug_noninterference_witness:
  "same_public_message (sample_hello_auth ''a'') (sample_hello_auth ''b'') \<and>
   \<not> same_public_message (sample_hello_auth ''a'') ((sample_hello_auth ''a'')\<lparr>msg_request_id := RequestId 9\<rparr>)"
proof -
  let ?a = "sample_hello_auth ''a''" and ?c = "(sample_hello_auth ''a'')\<lparr>msg_request_id := RequestId 9\<rparr>"
  have f: "scope_free_message ?a" "scope_free_message (sample_hello_auth ''b'')" "scope_free_message ?c"
    and e: "Message_fmt ?a = Message_fmt (sample_hello_auth ''b'')" "Message_fmt ?a \<noteq> Message_fmt ?c"
    by code_simp+
  from e message_debug_noninterference [OF f(1,2)] message_debug_noninterference [OF f(1,3)] show ?thesis
    by simp
qed



end
