(* ===== verification/Log.thy ===== *)
theory Log
  imports ReplyStream Redact
begin

text \<open>
  The logging layer (\<open>src/src/serve/log.rs\<close>). The \<open>tracing\<close> subscriber is represented by
  the list of events it has received, each with its level, the span it is in, its
  fields and its message; every operation that logs takes the events so far and
  returns them extended.
\<close>

section \<open>Events\<close>

datatype level = TRACE | DEBUG | INFO | WARN | ERROR

record span =
  span_name :: string
  span_fields :: "(string \<times> debug) list"

record event =
  ev_level :: level
  ev_span :: "span option"
  ev_fields :: "(string \<times> debug) list"
  ev_message :: string

text \<open>The \<open>Display\<close> of the ids is the number they wrap.\<close>

definition RequestId_display :: "RequestId \<Rightarrow> debug" where
  "RequestId_display r = DebugInt (sint (request_id_inner r))"

definition ResponseTo_debug :: "ResponseTo option \<Rightarrow> debug" where
  "ResponseTo_debug r =
     DebugOption (map_option (\<lambda>r. DebugTuple ''ResponseTo'' [DebugInt (sint (response_to_inner r))]) r)"

definition unwrap_or :: "'a option \<Rightarrow> 'a \<Rightarrow> 'a" where
  "unwrap_or x d = (case x of None \<Rightarrow> d | Some y \<Rightarrow> y)"

section \<open>The layer\<close>

record 's LogService =
  lgs_service :: 's

record 'st LoggedStream =
  lgt_inner :: 'st
  lgt_span :: span

definition LogLayer_layer :: "'s \<Rightarrow> 's LogService" where
  "LogLayer_layer inner = \<lparr>lgs_service = inner\<rparr>"

definition request_span :: "Message \<Rightarrow> span" where
  "request_span req =
     \<lparr>span_name = ''request'',
      span_fields = [(''request_id'', RequestId_display (msg_request_id req)),
                     (''op'', DebugString (Operation_op_kind (msg_operation req)))]\<rparr>"

definition request_events :: "Message \<Rightarrow> event list" where
  "request_events req =
     [\<lparr>ev_level = DEBUG, ev_span = Some (request_span req),
       ev_fields = [(''direction'', DebugString ''request''),
         (''op'', DebugString (Operation_op_kind (msg_operation req))),
         (''command'', DebugString (unwrap_or (Operation_command_name (msg_operation req)) '''')),
         (''request_id'', RequestId_display (msg_request_id req))],
       ev_message = ''received request''\<rparr>,
      \<lparr>ev_level = TRACE, ev_span = Some (request_span req),
       ev_fields = [(''direction'', DebugString ''request''), (''req'', Message_fmt req)],
       ev_message = ''request body''\<rparr>]"

text \<open>The world of the layer is the world of the inner service and the log.\<close>

definition LogService_call ::
  "('s, 'w, 'st, 'e) service_call
   \<Rightarrow> ('s LogService, 'w \<times> event list, 'st LoggedStream, 'e) service_call" where
  "LogService_call call svc req v =
     (let (w, log) = v;
          span = request_span req;
          log = log @ request_events req in
      case call (lgs_service svc) req w of
        (r, service, w) \<Rightarrow>
          (map_ready (\<lambda>r. res_bind r (\<lambda>inner. Inr \<lparr>lgt_inner = inner, lgt_span = span\<rparr>)) r,
           svc\<lparr>lgs_service := service\<rparr>, w, log))"

definition response_events :: "span \<Rightarrow> Message \<Rightarrow> event list" where
  "response_events span message =
     [\<lparr>ev_level = DEBUG, ev_span = Some span,
       ev_fields = [(''direction'', DebugString ''response''),
         (''op'', DebugString (Operation_op_kind (msg_operation message))),
         (''command'', DebugString (unwrap_or (Operation_command_name (msg_operation message)) '''')),
         (''request_id'', ResponseTo_debug (msg_response_to message)),
         (''response_id'', RequestId_display (msg_request_id message))],
       ev_message = ''received response''\<rparr>,
      \<lparr>ev_level = TRACE, ev_span = Some span,
       ev_fields = [(''direction'', DebugString ''response''), (''message'', Message_fmt message)],
       ev_message = ''response body''\<rparr>]"

definition LoggedStream_poll_next ::
  "('st, 'w, 'e) reply_poll \<Rightarrow> ('st LoggedStream, 'w \<times> event list, 'e) reply_poll" where
  "LoggedStream_poll_next poll_next s v =
     (let (w, log) = v in
      case poll_next (lgt_inner s) w of
        (r, inner, w) \<Rightarrow>
          let s = s\<lparr>lgt_inner := inner\<rparr> in
          (case r of
             Pending \<Rightarrow> (Pending, s, w, log)
           | Ready None \<Rightarrow> (Ready None, s, w, log)
           | Ready (Some (Inr message)) \<Rightarrow>
               (Ready (Some (Inr message)), s, w, log @ response_events (lgt_span s) message)
           | Ready (Some (Inl e)) \<Rightarrow> (Ready (Some (Inl e)), s, w, log)))"

interpretation logged_stream:
  reply_stream_layer poll_next "LoggedStream_poll_next poll_next" lgt_inner fst "\<lambda>_ m. m"
  for poll_next :: "('st, 'w, 'e) reply_poll"
  by unfold_locales
    (auto simp: LoggedStream_poll_next_def Let_def
      split: prod.splits poll.splits option.splits sum.splits)

section \<open>What is logged\<close>

text \<open>The log after \<open>n\<close> polls, and the replies these polls delivered.\<close>

fun log_after :: "('st, 'w, 'e) reply_poll \<Rightarrow> nat \<Rightarrow> 'st LoggedStream \<Rightarrow> 'w \<times> event list \<Rightarrow> event list" where
  "log_after poll_next 0 s v = snd v"
| "log_after poll_next (Suc n) s v =
     (case LoggedStream_poll_next poll_next s v of (_, s, v) \<Rightarrow> log_after poll_next n s v)"

fun delivered :: "('e + Message) option poll list \<Rightarrow> Message list" where
  "delivered [] = []"
| "delivered (Ready (Some (Inr m)) # rs) = m # delivered rs"
| "delivered (_ # rs) = delivered rs"

lemma log_after_delivered:
  "log_after poll_next n s (w, log) =
     log @ concat (map (response_events (lgt_span s)) (delivered (polled poll_next n (lgt_inner s) w)))"
proof (induction n arbitrary: s w log)
  case (Suc n)
  then show ?case
    by (auto simp: LoggedStream_poll_next_def Let_def split: prod.splits poll.splits option.splits sum.splits)
qed simp

text \<open>Public parts determine the command name, because keys are public.\<close>

lemma same_public_doc_keys: "same_public_doc d d' \<Longrightarrow> doc_keys d = doc_keys d'"
  by (simp add: same_public_doc_def doc_keys_def same_public_Document list_all2_entries)

lemma same_public_find_body:
  "list_all2 same_public_section ss ts \<Longrightarrow>
   map_option doc_keys (find_body ss) = map_option doc_keys (find_body ts)"
proof (induction rule: list_all2_induct)
  case (Cons s ss t ts)
  then show ?case by (cases s; cases t) (auto dest: same_public_doc_keys)
qed simp

lemma first_key_keys: "doc_keys d = doc_keys d' \<Longrightarrow> first_key d = first_key d'"
  by (simp add: first_key_def)

lemma same_public_command_name:
  "same_public_operation x y \<Longrightarrow>
   Operation_command_name x = Operation_command_name y \<and> Operation_op_kind x = Operation_op_kind y"
proof (induction x y rule: same_public_operation.induct)
  case (1 m n)
  then have "map_option doc_keys (find_body (om_sections m)) = map_option doc_keys (find_body (om_sections n))"
    by (simp add: same_public_find_body)
  then show ?case
    by (cases "find_body (om_sections m)"; cases "find_body (om_sections n)")
      (auto simp: OperationMessage_command_name_def dest: first_key_keys)
qed (auto dest: same_public_doc_keys first_key_keys)

lemma events_public:
  assumes "same_public_message m n" "Message_fmt m = Message_fmt n"
  shows "request_span m = request_span n" "request_events m = request_events n"
    and "response_events sp m = response_events sp n"
  using assms same_public_command_name [of "msg_operation m" "msg_operation n"]
  by (simp_all add: request_span_def request_events_def response_events_def same_public_message_def)

lemma responses_public:
  "list_all2 (\<lambda>m n. same_public_message m n \<and> scope_free_message m \<and> scope_free_message n) ms ns \<Longrightarrow>
   concat (map (response_events sp) ms) = concat (map (response_events sp) ns)"
  by (induction rule: list_all2_induct) (simp_all add: events_public Message_fmt_eq)

lemma LogService_call_Ready:
  assumes "LogService_call call svc req (w, log) = (Ready (Inr s), svc', w', log')"
  shows "call (lgs_service svc) req w = (Ready (Inr (lgt_inner s)), lgs_service svc', w')"
    and "lgt_span s = request_span req" "log' = log @ request_events req"
proof -
  obtain r i w1 where "call (lgs_service svc) req w = (r, i, w1)"
    by (cases "call (lgs_service svc) req w")
  with assms show "call (lgs_service svc) req w = (Ready (Inr (lgt_inner s)), lgs_service svc', w')"
    "lgt_span s = request_span req" "log' = log @ request_events req"
    by (cases r; auto simp: LogService_call_def Let_def result_simps)+
qed

text \<open>Whole exchanges under the layer, with what they log.\<close>

definition exchange_events :: "Message \<Rightarrow> Message list \<Rightarrow> event list" where
  "exchange_events req ms =
     request_events req @ concat (map (response_events (request_span req)) ms)"

lemma logged_yields:
  "stream_yields poll_next st w ms w' \<Longrightarrow> lgt_inner s = st \<Longrightarrow>
   stream_yields (LoggedStream_poll_next poll_next) s (w, log) ms
     (w', log @ concat (map (response_events (lgt_span s)) ms))"
proof (induction arbitrary: s log rule: stream_yields.induct)
  case (finished st w st' w')
  then show ?case by (auto intro!: stream_yields.finished simp: LoggedStream_poll_next_def)
next
  case (waiting st w st1 w1 ms w')
  from waiting.hyps(1) waiting.prems
  have "LoggedStream_poll_next poll_next s (w, log) = (Pending, s\<lparr>lgt_inner := st1\<rparr>, w1, log)"
    by (simp add: LoggedStream_poll_next_def)
  from stream_yields.waiting [where poll_next = "LoggedStream_poll_next poll_next", OF this]
    waiting.IH [of "s\<lparr>lgt_inner := st1\<rparr>" log] show ?case by simp
next
  case (item st w m st1 w1 ms w')
  from item.hyps(1) item.prems
  have "LoggedStream_poll_next poll_next s (w, log) =
      (Ready (Some (Inr m)), s\<lparr>lgt_inner := st1\<rparr>, w1, log @ response_events (lgt_span s) m)"
    by (simp add: LoggedStream_poll_next_def)
  from stream_yields.item [where poll_next = "LoggedStream_poll_next poll_next", OF this]
    item.IH [of "s\<lparr>lgt_inner := st1\<rparr>" "log @ response_events (lgt_span s) m"] show ?case by simp
qed

lemma logged_answers:
  assumes "answers call poll_next (lgs_service svc) w req ms i' w'"
  shows "answers (LogService_call call) (LoggedStream_poll_next poll_next) svc (w, log) req ms
           (svc\<lparr>lgs_service := i'\<rparr>) (w', log @ exchange_events req ms)"
proof -
  from assms obtain st w1 where c: "call (lgs_service svc) req w = (Ready (Inr st), i', w1)"
    and y: "stream_yields poll_next st w1 ms w'"
    by (auto simp: answers_def)
  let ?t = "\<lparr>lgt_inner = st, lgt_span = request_span req\<rparr>"
  have "LogService_call call svc req (w, log) =
      (Ready (Inr ?t), svc\<lparr>lgs_service := i'\<rparr>, w1, log @ request_events req)"
    using c by (simp add: LogService_call_def Let_def)
  with logged_yields [OF y, of ?t "log @ request_events req"] show ?thesis
    by (auto simp: answers_def exchange_events_def)
qed

lemma logged_answers_all:
  "answers_all call poll_next i w reqs mss i' w' \<Longrightarrow> i = lgs_service svc \<Longrightarrow>
   answers_all (LogService_call call) (LoggedStream_poll_next poll_next) svc (w, log) reqs mss
     (svc\<lparr>lgs_service := i'\<rparr>) (w', log @ concat (map2 exchange_events reqs mss))"
proof (induction arbitrary: svc log rule: answers_all.induct)
  case (no_request i w)
  then show ?case by (simp add: answers_all.no_request)
next
  case (request i w req ms i1 w1 reqs mss i' w')
  from answers_all.request [OF logged_answers [of call poll_next svc w req ms i1 w1 log]
      request.IH [of "svc\<lparr>lgs_service := i1\<rparr>" "log @ exchange_events req ms"]] request
  show ?case by simp
qed

section \<open>Properties\<close>

text \<open>The logging layer is invisible to the client: the inner service gets the very
  request, and the client polls exactly what the inner stream yields, errors and
  pending results included.\<close>

lemma log_layer_transparent:
  assumes "LogService_call call svc req (w, log) = (Ready (Inr s), svc', w', log')"
  shows "\<exists>st. call (lgs_service svc) req w = (Ready (Inr st), lgs_service svc', w') \<and>
           polled (LoggedStream_poll_next poll_next) n s (w', log') = polled poll_next n st w'"
  using LogService_call_Ready(1) [OF assms] logged_stream.polled_unchanged [OF refl, of poll_next n s "(w', log')"]
  by simp

lemma log_layer_transparent_witness:
  "polled (LoggedStream_poll_next playback) 2 \<lparr>lgt_inner = (), lgt_span = request_span ping_message\<rparr>
     ([Ready (Some (Inr ping_message)) :: (unit + Message) option poll], request_events ping_message) =
   [Ready (Some (Inr ping_message)), Ready None]"
proof -
  let ?w = "[Ready (Some (Inr ping_message))] :: (unit + Message) option poll list"
  have "LogService_call (\<lambda>s req w. (Ready (Inr ()), s, w)) (LogLayer_layer ()) ping_message (?w, []) =
      (Ready (Inr \<lparr>lgt_inner = (), lgt_span = request_span ping_message\<rparr>), LogLayer_layer (),
       ?w, request_events ping_message)"
    by (simp add: LogService_call_def LogLayer_layer_def Let_def)
  from log_layer_transparent [OF this, of playback 2] show ?thesis by (simp add: numeral_2_eq_2)
qed

text \<open>C27. The log is credential-free at every level: two exchanges whose requests and
  replies differ only in what stands under the credential keys leave the same log, provided that no message
  has code with a scope document outside these keys (whose scope is logged at trace level as it is).\<close>

theorem log_noninterference:
  assumes "same_public_message req req'" "scope_free_message req" "scope_free_message req'"
    and "LogService_call call svc req (w, log) = (Ready (Inr s), svc1, w1, log1)"
    and "LogService_call call' svc' req' (w', log) = (Ready (Inr s'), svc2, w2, log2)"
    and "list_all2 (\<lambda>m n. same_public_message m n \<and> scope_free_message m \<and> scope_free_message n)
           (delivered (polled poll_next n (lgt_inner s) w1))
           (delivered (polled poll_next' n (lgt_inner s') w2))"
  shows "log_after poll_next n s (w1, log1) = log_after poll_next' n s' (w2, log2)"
proof -
  have "Message_fmt req = Message_fmt req'" using assms(1-3) by (simp add: Message_fmt_eq)
  from events_public [OF assms(1) this] responses_public [OF assms(6)]
    LogService_call_Ready [OF assms(4)] LogService_call_Ready [OF assms(5)]
  show ?thesis by (simp add: log_after_delivered)
qed

definition sample_sasl :: "string \<Rightarrow> Message" where
  "sample_sasl secret = \<lparr>msg_request_id = RequestId 8, msg_response_to = None,
     msg_operation = Operation_Message \<lparr>om_flags = 0,
       om_sections = [Body [(''saslContinue'', Int32 1), (''Payload'', String secret)]],
       om_checksum = None\<rparr>\<rparr>"

theorem log_noninterference_witness:
  "log_after playback 1 \<lparr>lgt_inner = (), lgt_span = request_span (sample_sasl ''a'')\<rparr>
     ([Ready None :: (unit + Message) option poll], request_events (sample_sasl ''a'')) =
   log_after playback 1 \<lparr>lgt_inner = (), lgt_span = request_span (sample_sasl ''b'')\<rparr>
     ([Ready None :: (unit + Message) option poll], request_events (sample_sasl ''b''))"
proof -
  let ?w = "[Ready None] :: (unit + Message) option poll list"
  let ?call = "\<lambda>s req w. (Ready (Inr ()), s, w)"
  have call: "LogService_call ?call (LogLayer_layer ()) m (?w, []) =
      (Ready (Inr \<lparr>lgt_inner = (), lgt_span = request_span m\<rparr>), LogLayer_layer (), ?w, request_events m)" for m
    by (simp add: LogService_call_def LogLayer_layer_def Let_def)
  have f: "scope_free_message (sample_sasl ''a'')" "scope_free_message (sample_sasl ''b'')"
    "Message_fmt (sample_sasl ''a'') = Message_fmt (sample_sasl ''b'')"
    by code_simp+
  then have "same_public_message (sample_sasl ''a'') (sample_sasl ''b'')" by (simp add: Message_fmt_eq)
  from log_noninterference [OF this f(1,2) call call, of playback 1 playback] show ?thesis by simp
qed

end
