(* ===== verification/ExplainModel.thy ===== *)
theory ExplainModel
  imports Bson Strings Header
begin

text \<open>
  The typed model of an explain reply (\<open>src/src/serve/explain/model/\<close>): the validated
  newtypes, the open-vocabulary enums, plan stages, namespaces, and the per-stage details
  with their decoding from BSON. \<open>nutype\<close> sanitises, then validates. The \<open>lowercase\<close>
  sanitiser of \<open>OtherName\<close> is Unicode lower-casing by that crate and is the
  parameter \<open>lower\<close>.
\<close>

section \<open>Newtypes (\<open>newtypes.rs\<close>)\<close>

datatype Database = Database (database_inner: string)
datatype DatabaseError = DatabaseError

definition validate_database :: "string \<Rightarrow> DatabaseError + unit" where
  "validate_database s = (if str_trim s = [] then Inl DatabaseError else Inr ())"

definition Database_try_new :: "string \<Rightarrow> DatabaseError + Database" where
  "Database_try_new raw =
     (let s = str_trim raw in res_bind (validate_database s) (\<lambda>_. Inr (Database s)))"

datatype Collection = Collection (collection_inner: string)
datatype CollectionError = CollectionError

definition validate_collection :: "string \<Rightarrow> CollectionError + unit" where
  "validate_collection s = (if str_trim s = [] then Inl CollectionError else Inr ())"

definition Collection_try_new :: "string \<Rightarrow> CollectionError + Collection" where
  "Collection_try_new raw =
     (let s = str_trim raw in res_bind (validate_collection s) (\<lambda>_. Inr (Collection s)))"

datatype IndexName = IndexName (index_name_inner: string)
datatype IndexNameError = IndexNameError

definition validate_index_name :: "string \<Rightarrow> IndexNameError + unit" where
  "validate_index_name s = (if s = [] then Inl IndexNameError else Inr ())"

definition IndexName_try_new :: "string \<Rightarrow> IndexNameError + IndexName" where
  "IndexName_try_new s = res_bind (validate_index_name s) (\<lambda>_. Inr (IndexName s))"

datatype DocsReturned = DocsReturned (docs_returned_inner: i64)
datatype DocsReturnedError = DocsReturnedError i64

definition validate_docs_returned :: "i64 \<Rightarrow> DocsReturnedError + unit" where
  "validate_docs_returned n = (if 0 \<le> sint n then Inr () else Inl (DocsReturnedError n))"

definition DocsReturned_try_new :: "i64 \<Rightarrow> DocsReturnedError + DocsReturned" where
  "DocsReturned_try_new n = res_bind (validate_docs_returned n) (\<lambda>_. Inr (DocsReturned n))"

datatype DocsExamined = DocsExamined (docs_examined_inner: i64)
datatype DocsExaminedError = DocsExaminedError i64

definition validate_docs_examined :: "i64 \<Rightarrow> DocsExaminedError + unit" where
  "validate_docs_examined n = (if 0 \<le> sint n then Inr () else Inl (DocsExaminedError n))"

definition DocsExamined_try_new :: "i64 \<Rightarrow> DocsExaminedError + DocsExamined" where
  "DocsExamined_try_new n = res_bind (validate_docs_examined n) (\<lambda>_. Inr (DocsExamined n))"

datatype KeysExamined = KeysExamined (keys_examined_inner: i64)
datatype KeysExaminedError = KeysExaminedError i64

definition validate_keys_examined :: "i64 \<Rightarrow> KeysExaminedError + unit" where
  "validate_keys_examined n = (if 0 \<le> sint n then Inr () else Inl (KeysExaminedError n))"

definition KeysExamined_try_new :: "i64 \<Rightarrow> KeysExaminedError + KeysExamined" where
  "KeysExamined_try_new n = res_bind (validate_keys_examined n) (\<lambda>_. Inr (KeysExamined n))"

datatype ServerErrorCode = ServerErrorCode (server_error_code_inner: i32)
datatype ServerErrorCodeError = ServerErrorCodeError i32

definition validate_server_error_code :: "i32 \<Rightarrow> ServerErrorCodeError + unit" where
  "validate_server_error_code n = (if 0 < sint n then Inr () else Inl (ServerErrorCodeError n))"

definition ServerErrorCode_try_new :: "i32 \<Rightarrow> ServerErrorCodeError + ServerErrorCode" where
  "ServerErrorCode_try_new n = res_bind (validate_server_error_code n) (\<lambda>_. Inr (ServerErrorCode n))"

text \<open>A \<open>Duration\<close> made by \<open>from_millis\<close>, in milliseconds.\<close>

datatype AggregateTime = AggregateTime (aggregate_time_millis: nat)
datatype NodeTime = NodeTime (node_time_millis: nat)

datatype OtherName = OtherName (other_name_inner: string)

definition OtherName_new :: "(string \<Rightarrow> string) \<Rightarrow> string \<Rightarrow> OtherName" where
  "OtherName_new lower s = OtherName (lower s)"

section \<open>Open vocabularies (\<open>open_vocab.rs\<close>)\<close>

text \<open>The macro \<open>open_vocab_enum!\<close> makes \<open>from_wire_str\<close> from the list of wire strings with
  their variants; everything else is \<open>Other\<close>. \<open>from_wire_string\<close> and the
  \<open>Deserialize\<close> visitor have the same arms.\<close>

definition open_vocab_from_wire ::
  "(string \<times> 'v) list \<Rightarrow> (OtherName \<Rightarrow> 'v) \<Rightarrow> (string \<Rightarrow> string) \<Rightarrow> string \<Rightarrow> 'v" where
  "open_vocab_from_wire arms other lower s =
     (case map_of arms s of Some v \<Rightarrow> v | None \<Rightarrow> other (OtherName_new lower s))"

datatype Command =
    Command_Find | Command_Aggregate | Command_Count | Command_Distinct | Command_Update
  | Command_Delete | Command_FindAndModify | Command_Other OtherName

definition Command_arms :: "(string \<times> Command) list" where
  "Command_arms =
     [(''find'', Command_Find), (''aggregate'', Command_Aggregate), (''count'', Command_Count),
      (''distinct'', Command_Distinct), (''update'', Command_Update), (''delete'', Command_Delete),
      (''findAndModify'', Command_FindAndModify), (''findandmodify'', Command_FindAndModify)]"

definition Command_from_wire_str :: "(string \<Rightarrow> string) \<Rightarrow> string \<Rightarrow> Command" where
  "Command_from_wire_str = open_vocab_from_wire Command_arms Command_Other"

definition from_command_name :: "(string \<Rightarrow> string) \<Rightarrow> string \<Rightarrow> Command option" where
  "from_command_name lower s =
     (case Command_from_wire_str lower s of Command_Other _ \<Rightarrow> None | known \<Rightarrow> Some known)"

datatype ErrorLabel =
    TransientTransactionError | RetryableWriteError | NoWritesPerformed | ResumableChangeStreamError
  | NetworkError | ErrorLabel_Other OtherName

definition ErrorLabel_arms :: "(string \<times> ErrorLabel) list" where
  "ErrorLabel_arms =
     [(''TransientTransactionError'', TransientTransactionError), (''RetryableWriteError'', RetryableWriteError),
      (''NoWritesPerformed'', NoWritesPerformed), (''ResumableChangeStreamError'', ResumableChangeStreamError),
      (''NetworkError'', NetworkError)]"

definition ErrorLabel_from_wire_str :: "(string \<Rightarrow> string) \<Rightarrow> string \<Rightarrow> ErrorLabel" where
  "ErrorLabel_from_wire_str = open_vocab_from_wire ErrorLabel_arms ErrorLabel_Other"

datatype Direction = Forward | Backward | Direction_Other OtherName

definition Direction_arms :: "(string \<times> Direction) list" where
  "Direction_arms = [(''forward'', Forward), (''backward'', Backward)]"

definition Direction_from_wire_str :: "(string \<Rightarrow> string) \<Rightarrow> string \<Rightarrow> Direction" where
  "Direction_from_wire_str = open_vocab_from_wire Direction_arms Direction_Other"

datatype ServerErrorCodeName =
    NamespaceNotFound | Unauthorized | Interrupted | InterruptedAtShutdown | NotMaster | WriteConflict
  | DuplicateKey | QueryPlanKilled | ServerErrorCodeName_Other OtherName

definition ServerErrorCodeName_arms :: "(string \<times> ServerErrorCodeName) list" where
  "ServerErrorCodeName_arms =
     [(''NamespaceNotFound'', NamespaceNotFound), (''Unauthorized'', Unauthorized),
      (''Interrupted'', Interrupted), (''InterruptedAtShutdown'', InterruptedAtShutdown),
      (''NotMaster'', NotMaster), (''NotWritablePrimary'', NotMaster), (''WriteConflict'', WriteConflict),
      (''DuplicateKey'', DuplicateKey), (''QueryPlanKilled'', QueryPlanKilled)]"

definition ServerErrorCodeName_from_wire_str :: "(string \<Rightarrow> string) \<Rightarrow> string \<Rightarrow> ServerErrorCodeName" where
  "ServerErrorCodeName_from_wire_str = open_vocab_from_wire ServerErrorCodeName_arms ServerErrorCodeName_Other"

section \<open>Stages (\<open>stage.rs\<close>)\<close>

datatype ProjectionKind = Projection_Default | Projection_Simple | Projection_Covered
datatype AndKind = And_Sorted | And_Hash

datatype Stage =
    Collscan | Ixscan | Fetch | Sort | SortMerge | Limit | Skip | Group | Project ProjectionKind
  | Stage_Or | Stage_And AndKind | Subplan | ShardingFilter | ReturnKey | Stage_Count | CountScan
  | DistinctScan | UpdateStage | DeleteStage
  | SbeScan | SbeIxscan | SbeIxseek | SbeFetch | SbeFilter | SbeProject | SbeGroup | SbeSort | SbeLimit
  | SbeSkip | SbeOr | SbeUnwind | SbeHashLookup | SbeMerge
  | ExpressIxscan | ExpressClusteredIxscan | ExpressUpdate | ExpressDelete
  | Stage_Other OtherName

definition Stage_arms :: "(string \<times> Stage) list" where
  "Stage_arms =
     [(''COLLSCAN'', Collscan), (''IXSCAN'', Ixscan), (''FETCH'', Fetch), (''SORT'', Sort),
      (''SORT_MERGE'', SortMerge), (''LIMIT'', Limit), (''SKIP'', Skip), (''GROUP'', Group),
      (''PROJECTION_DEFAULT'', Project Projection_Default), (''PROJECTION_SIMPLE'', Project Projection_Simple),
      (''PROJECTION_COVERED'', Project Projection_Covered), (''OR'', Stage_Or),
      (''AND_SORTED'', Stage_And And_Sorted), (''AND_HASH'', Stage_And And_Hash), (''SUBPLAN'', Subplan),
      (''SHARDING_FILTER'', ShardingFilter), (''RETURN_KEY'', ReturnKey), (''COUNT'', Stage_Count),
      (''COUNT_SCAN'', CountScan), (''DISTINCT_SCAN'', DistinctScan), (''UPDATE'', UpdateStage),
      (''DELETE'', DeleteStage),
      (''scan'', SbeScan), (''ixscan'', SbeIxscan), (''ixseek'', SbeIxseek), (''fetch'', SbeFetch),
      (''filter'', SbeFilter), (''project'', SbeProject), (''group'', SbeGroup), (''sort'', SbeSort),
      (''limit'', SbeLimit), (''skip'', SbeSkip), (''or'', SbeOr), (''unwind'', SbeUnwind),
      (''hash_lookup'', SbeHashLookup), (''merge'', SbeMerge),
      (''EXPRESS_IXSCAN'', ExpressIxscan), (''express_ixscan'', ExpressIxscan),
      (''EXPRESS_CLUSTERED_IXSCAN'', ExpressClusteredIxscan), (''express_clustered_ixscan'', ExpressClusteredIxscan),
      (''EXPRESS_UPDATE'', ExpressUpdate), (''express_update'', ExpressUpdate),
      (''EXPRESS_DELETE'', ExpressDelete), (''express_delete'', ExpressDelete)]"

definition Stage_from_wire_str :: "(string \<Rightarrow> string) \<Rightarrow> string \<Rightarrow> Stage" where
  "Stage_from_wire_str = open_vocab_from_wire Stage_arms Stage_Other"

text \<open>The visitor of the owned string looks it up and rebuilds \<open>Other\<close> from the string.\<close>

definition Stage_visit_string :: "(string \<Rightarrow> string) \<Rightarrow> string \<Rightarrow> Stage" where
  "Stage_visit_string lower s =
     (case Stage_from_wire_str lower s of
        Stage_Other _ \<Rightarrow> Stage_Other (OtherName_new lower s)
      | known \<Rightarrow> known)"

section \<open>Namespaces (\<open>namespace.rs\<close>)\<close>

record Namespace =
  ns_database :: Database
  ns_collection :: Collection

datatype NamespaceParseErrorKind = NoDot | BadDatabase DatabaseError | BadCollection CollectionError

record NamespaceParseError =
  npe_raw :: string
  npe_kind :: NamespaceParseErrorKind

definition Namespace_parse :: "string \<Rightarrow> NamespaceParseError + Namespace" where
  "Namespace_parse raw =
     (case split_once ''.'' raw of
        None \<Rightarrow> Inl \<lparr>npe_raw = raw, npe_kind = NoDot\<rparr>
      | Some (db_str, coll_str) \<Rightarrow>
          res_bind (map_err (\<lambda>e. \<lparr>npe_raw = raw, npe_kind = BadDatabase e\<rparr>) (Database_try_new db_str)) (\<lambda>database.
          res_bind (map_err (\<lambda>e. \<lparr>npe_raw = raw, npe_kind = BadCollection e\<rparr>) (Collection_try_new coll_str)) (\<lambda>collection.
          Inr \<lparr>ns_database = database, ns_collection = collection\<rparr>)))"

section \<open>Lemmas\<close>

text \<open>What an open vocabulary promises: the wire strings of the arms get their variants, and
  everything else, and nothing more, lands in \<open>Other\<close>.\<close>

locale open_vocab =
  fixes arms :: "(string \<times> 'v) list"
    and other :: "OtherName \<Rightarrow> 'v"
  assumes named: "(s, v) \<in> set arms \<Longrightarrow> v \<noteq> other n"
    and other_inj: "other n = other m \<Longrightarrow> n = m"
begin

lemma from_wire_other_iff:
  "open_vocab_from_wire arms other lower s = other n \<longleftrightarrow>
   s \<notin> fst ` set arms \<and> n = OtherName_new lower s"
proof (cases "map_of arms s")
  case None
  then have "s \<notin> fst ` set arms" by (simp add: map_of_eq_None_iff)
  with None show ?thesis by (auto simp: open_vocab_from_wire_def dest: other_inj)
next
  case (Some v)
  from map_of_SomeD [OF this] have "(s, v) \<in> set arms" .
  with Some named [of s v n] show ?thesis by (force simp: open_vocab_from_wire_def)
qed

lemma from_wire_named_iff:
  "(\<forall>n. v \<noteq> other n) \<Longrightarrow> open_vocab_from_wire arms other lower s = v \<longleftrightarrow> map_of arms s = Some v"
  by (auto simp: open_vocab_from_wire_def split: option.splits)

lemma from_wire_rebuild:
  "open_vocab_from_wire arms other lower s = other n \<Longrightarrow>
   open_vocab_from_wire arms other lower s = other (OtherName_new lower s)"
  by (simp add: from_wire_other_iff)

end

interpretation command_vocab: open_vocab Command_arms Command_Other
  by unfold_locales (auto simp: Command_arms_def)

interpretation label_vocab: open_vocab ErrorLabel_arms ErrorLabel_Other
  by unfold_locales (auto simp: ErrorLabel_arms_def)

interpretation direction_vocab: open_vocab Direction_arms Direction_Other
  by unfold_locales (auto simp: Direction_arms_def)

interpretation code_name_vocab: open_vocab ServerErrorCodeName_arms ServerErrorCodeName_Other
  by unfold_locales (auto simp: ServerErrorCodeName_arms_def)

interpretation stage_vocab: open_vocab Stage_arms Stage_Other
  by unfold_locales (auto simp: Stage_arms_def)

lemma from_command_name_iff:
  "from_command_name lower s = Some c \<longleftrightarrow> map_of Command_arms s = Some c"
proof -
  have "map_of Command_arms s = Some c \<Longrightarrow> \<forall>n. c \<noteq> Command_Other n"
    using command_vocab.named map_of_SomeD by fastforce
  moreover have "from_command_name lower s = Some c \<longleftrightarrow>
      Command_from_wire_str lower s = c \<and> (\<forall>n. c \<noteq> Command_Other n)"
    by (auto simp: from_command_name_def split: Command.splits)
  ultimately show ?thesis
    using command_vocab.from_wire_named_iff [of c lower s]
    by (auto simp: Command_from_wire_str_def)
qed

lemma Stage_visit_string_eq: "Stage_visit_string lower s = Stage_from_wire_str lower s"
  using stage_vocab.from_wire_rebuild [of lower s]
  by (auto simp: Stage_visit_string_def Stage_from_wire_str_def split: Stage.splits)

lemma Database_try_new_eq:
  "Database_try_new raw = (if str_trim raw = [] then Inl DatabaseError else Inr (Database (str_trim raw)))"
  by (simp add: Database_try_new_def validate_database_def Let_def)

lemma Collection_try_new_eq:
  "Collection_try_new raw =
     (if str_trim raw = [] then Inl CollectionError else Inr (Collection (str_trim raw)))"
  by (simp add: Collection_try_new_def validate_collection_def Let_def)

lemma exI2: "P a b \<Longrightarrow> \<exists>x y. P x y"
  by blast

lemma split_once_Some: "split_once pat s = Some (a, b) \<Longrightarrow> s = a @ pat @ b"
proof (induction s arbitrary: a)
  case (Cons c cs)
  show ?case
  proof (cases "take (length pat) (c # cs) = pat")
    case True
    with Cons.prems have "a = []" "b = drop (length pat) (c # cs)" by auto
    with True show ?thesis by (metis append_Nil append_take_drop_id)
  next
    case False
    with Cons show ?thesis by (auto split: if_splits)
  qed
qed (auto split: if_splits)

lemma split_once_char_first: "split_once [c] s = Some (a, b) \<Longrightarrow> c \<notin> set a"
  by (induction s arbitrary: a) (auto split: if_splits)

lemma split_once_char_None_iff: "split_once [c] s = None \<longleftrightarrow> c \<notin> set s"
  by (induction s) auto

section \<open>Properties\<close>

text \<open>C20. A namespace string is split at its first dot: the result has the trimmed halves and
  neither is empty; every failure keeps the whole input and names the half that is
  at fault, or the missing dot.\<close>

theorem namespace_parse_exact:
  "case Namespace_parse raw of
     Inr ns \<Rightarrow> \<exists>db coll. raw = db @ ''.'' @ coll \<and> CHR ''.'' \<notin> set db \<and>
       ns = \<lparr>ns_database = Database (str_trim db), ns_collection = Collection (str_trim coll)\<rparr> \<and>
       str_trim db \<noteq> [] \<and> str_trim coll \<noteq> []
   | Inl e \<Rightarrow> npe_raw e = raw \<and>
       (case npe_kind e of
          NoDot \<Rightarrow> CHR ''.'' \<notin> set raw
        | BadDatabase _ \<Rightarrow> \<exists>db coll. raw = db @ ''.'' @ coll \<and> CHR ''.'' \<notin> set db \<and> str_trim db = []
        | BadCollection _ \<Rightarrow> \<exists>db coll. raw = db @ ''.'' @ coll \<and> CHR ''.'' \<notin> set db \<and>
            str_trim db \<noteq> [] \<and> str_trim coll = [])"
proof (cases "split_once ''.'' raw")
  case None
  then have "CHR ''.'' \<notin> set raw" by (simp add: split_once_char_None_iff)
  with None show ?thesis by (simp add: Namespace_parse_def)
next
  case (Some p)
  obtain db coll where p: "p = (db, coll)" by (cases p)
  with Some have "raw = db @ ''.'' @ coll" "CHR ''.'' \<notin> set db"
    using split_once_Some [of "''.''" raw db coll] split_once_char_first [of "CHR ''.''" raw db coll] by auto
  with Some p show ?thesis
    by (auto simp: Namespace_parse_def Database_try_new_eq Collection_try_new_eq
        intro!: exI2 [of _ db coll])
qed

end
