(* ===== verification/Numbers.thy ===== *)
theory Numbers
  imports Strings
begin

text \<open>
  Reading signed integers and doubles from text, \<open>str::parse::<i64>\<close> and \<open>str::parse::<f64>\<close>. A
  double is its IEEE 754 bits. The grammar of decimals is the documented one of
  \<open>f64::from_str\<close>; the value is the exact decimal rounded to the nearest double, ties to even.
\<close>

section \<open>Integers\<close>

fun digits_value :: "int \<Rightarrow> string \<Rightarrow> int option" where
  "digits_value acc [] = Some acc"
| "digits_value acc (c # cs) =
     (case digit_value c of None \<Rightarrow> None | Some d \<Rightarrow> digits_value (acc * 10 + d) cs)"

text \<open>An optional sign, at least one digit, and a value that fits.\<close>

definition parse_i64 :: "string \<Rightarrow> i64 option" where
  "parse_i64 s =
     (case s of
        [] \<Rightarrow> None
      | c # cs \<Rightarrow>
          let negative = c = CHR ''-'';
              digits = (if c = CHR ''-'' \<or> c = CHR ''+'' then cs else s) in
          if digits = [] then None
          else
            case digits_value 0 digits of
              None \<Rightarrow> None
            | Some n \<Rightarrow>
                let v = (if negative then - n else n) in
                if - (2 ^ 63) \<le> v \<and> v < 2 ^ 63 then Some (word_of_int v) else None)"

section \<open>Rounding\<close>

text \<open>On integers, so that they are evaluated in binary.\<close>

function bit_length :: "int \<Rightarrow> int" where
  "bit_length n = (if n \<le> 0 then 0 else 1 + bit_length (n div 2))"
  by pat_completeness auto
termination
  by (relation "measure nat") auto

declare bit_length.simps [simp del]

text \<open>\<open>\<lfloor>log\<^sub>2 (n / d)\<rfloor>\<close> for positive \<open>n\<close> and \<open>d\<close>.\<close>

definition ratio_log2 :: "int \<Rightarrow> int \<Rightarrow> int" where
  "ratio_log2 n d =
     (let k = bit_length n - bit_length d in
      if d * 2 ^ nat k \<le> n * 2 ^ nat (- k) then k else k - 1)"

definition round_half_even :: "int \<Rightarrow> int \<Rightarrow> int" where
  "round_half_even n d =
     (let q = n div d; r = n mod d in
      if d < 2 * r \<or> d = 2 * r \<and> odd q then q + 1 else q)"

definition f64_infinity :: int where "f64_infinity = 0x7FF * 2 ^ 52"

text \<open>The bits of the double nearest to \<open>n / d\<close>. The unit in the last place is \<open>2 ^ e\<close>, at least the
  smallest subnormal; a carry out of the significand moves into the exponent field.\<close>

definition f64_ulp :: "int \<Rightarrow> int \<Rightarrow> int" where
  "f64_ulp n d = max (- 1074) (ratio_log2 n d - 52)"

definition f64_round :: "int \<Rightarrow> int \<Rightarrow> int" where
  "f64_round n d =
     (if n = 0 then 0
      else
        let e = f64_ulp n d;
            m = round_half_even (n * 2 ^ nat (- e)) (d * 2 ^ nat e) in
        min f64_infinity ((e + 1074) * 2 ^ 52 + m))"

section \<open>Decimals\<close>

definition span_digits :: "string \<Rightarrow> string \<times> string" where
  "span_digits s =
     (takeWhile (\<lambda>c. digit_value c \<noteq> None) s, dropWhile (\<lambda>c. digit_value c \<noteq> None) s)"

definition digits_int :: "string \<Rightarrow> int" where
  "digits_int ds = (case digits_value 0 ds of Some n \<Rightarrow> n | None \<Rightarrow> 0)"

text \<open>The exponent after the \<open>e\<close>: an optional sign and at least one digit, up to the end.\<close>

definition parse_scientific :: "string \<Rightarrow> int option" where
  "parse_scientific s =
     (let (negative, digits) =
        (case s of
           [] \<Rightarrow> (False, [])
         | c # cs \<Rightarrow> (c = CHR ''-'', if c = CHR ''-'' \<or> c = CHR ''+'' then cs else s)) in
      if digits = [] \<or> snd (span_digits digits) \<noteq> [] then None
      else Some (if negative then - digits_int digits else digits_int digits))"

text \<open>Digits, optionally a dot and digits, optionally an exponent; \<open>(m, e)\<close> stands for \<open>m \<cdot> 10 ^ e\<close>.\<close>

definition parse_number :: "string \<Rightarrow> (int \<times> int) option" where
  "parse_number s =
     (let (int_part, s) = span_digits s;
          (fraction, s) =
            (case s of c # cs \<Rightarrow> if c = CHR ''.'' then span_digits cs else ([], s) | [] \<Rightarrow> ([], s));
          m = digits_int (int_part @ fraction);
          e = - int (length fraction) in
      if int_part @ fraction = [] then None
      else
        case s of
          [] \<Rightarrow> Some (m, e)
        | c # cs \<Rightarrow>
            if c = CHR ''e'' \<or> c = CHR ''E'' then map_option (\<lambda>x. (m, e + x)) (parse_scientific cs)
            else None)"

definition parse_inf_nan :: "string \<Rightarrow> int option" where
  "parse_inf_nan s =
     (if eq_ignore_ascii_case s ''nan'' then Some (f64_infinity + 2 ^ 51)
      else if eq_ignore_ascii_case s ''inf'' \<or> eq_ignore_ascii_case s ''infinity'' then Some f64_infinity
      else None)"

definition f64_of_decimal :: "int \<Rightarrow> int \<Rightarrow> int" where
  "f64_of_decimal m e = f64_round (m * 10 ^ nat e) (10 ^ nat (- e))"

definition parse_f64 :: "string \<Rightarrow> u64 option" where
  "parse_f64 s =
     (case s of
        [] \<Rightarrow> None
      | c # cs \<Rightarrow>
          let negative = c = CHR ''-'';
              s = (if c = CHR ''-'' \<or> c = CHR ''+'' then cs else s);
              magnitude =
                (if s = [] then None
                 else case parse_number s of
                     Some (m, e) \<Rightarrow> Some (f64_of_decimal m e)
                   | None \<Rightarrow> parse_inf_nan s) in
          map_option (\<lambda>b. word_of_int (if negative then 2 ^ 63 + b else b)) magnitude)"

section \<open>Lemmas\<close>

lemma bit_length_nonneg: "0 \<le> bit_length n"
proof (induction n rule: bit_length.induct)
  case (1 n)
  then show ?case by (subst bit_length.simps) simp
qed

lemma bit_length_bounds: "0 < n \<Longrightarrow> 2 ^ nat (bit_length n) \<le> 2 * n \<and> n < 2 ^ nat (bit_length n)"
proof (induction n rule: bit_length.induct)
  case (1 n)
  have "bit_length n = 1 + bit_length (n div 2)"
    using 1(2) by (subst bit_length.simps) simp
  then have b: "2 ^ nat (bit_length n) = 2 * (2 :: int) ^ nat (bit_length (n div 2))"
    using bit_length_nonneg [of "n div 2"] by (simp add: nat_add_distrib)
  show ?case
  proof (cases "n div 2 = 0")
    case True
    with 1(2) have "n = 1" by linarith
    then show ?thesis by (simp add: bit_length.simps)
  next
    case False
    with 1 have "2 ^ nat (bit_length (n div 2)) \<le> 2 * (n div 2)" "n div 2 < 2 ^ nat (bit_length (n div 2))"
      by auto
    with b show ?thesis by linarith
  qed
qed

text \<open>The rounded quotient is off by at most half a unit.\<close>

lemma round_half_even_nearest:
  assumes "0 < d"
  shows "2 * \<bar>n - round_half_even n d * d\<bar> \<le> d"
proof -
  define q r where "q = n div d" and "r = n mod d"
  have n: "n = q * d + r" by (simp add: q_def r_def)
  have "0 \<le> r" "r < d" using assms by (simp_all add: r_def)
  show ?thesis
  proof (cases "d < 2 * r \<or> d = 2 * r \<and> odd q")
    case True
    then have "round_half_even n d = q + 1" by (simp add: round_half_even_def q_def r_def Let_def)
    then have "n - round_half_even n d * d = r - d" by (simp add: n algebra_simps)
    with True \<open>r < d\<close> show ?thesis by auto
  next
    case False
    then have "round_half_even n d = q" by (simp add: round_half_even_def q_def r_def Let_def)
    then have "n - round_half_even n d * d = r" by (simp add: n)
    with False \<open>0 \<le> r\<close> show ?thesis by auto
  qed
qed

lemma parse_i64_small:
  "parse_i64 ''1'' = Some 1" "parse_i64 ''-1'' = Some (- 1)"
  "parse_i64 ''9223372036854775807'' = Some 0x7FFFFFFFFFFFFFFF" "parse_i64 ''9223372036854775808'' = None"
  "parse_i64 ''-9223372036854775808'' = Some 0x8000000000000000" "parse_i64 ''+'' = None"
  by code_simp+

lemma parse_f64_samples:
  "parse_f64 ''1.0'' = Some 0x3FF0000000000000" "parse_f64 ''-1e0'' = Some 0xBFF0000000000000"
  "parse_f64 ''0.1'' = Some 0x3FB999999999999A" "parse_f64 ''.5e1'' = Some 0x4014000000000000"
  "parse_f64 ''-Infinity'' = Some 0xFFF0000000000000" "parse_f64 ''.'' = None" "parse_f64 ''1e'' = None"
  by code_simp+

end
