(* ===== verification/PlanDetails.thy ===== *)
theory PlanDetails
  imports ExplainModel Numbers "HOL-Library.List_Lexorder" "HOL-Library.Char_ord"
begin

text \<open>
  The details of a plan stage (\<open>src/src/serve/explain/model/plan_details.rs\<close>): index key patterns,
  index bounds and filters, with the hand-written \<open>Deserialize\<close> implementations as
  functions of the BSON value they receive. A slice out of range would panic; the parser of
  bounds therefore returns an \<open>option\<close> whose \<open>None\<close> is a panic.
\<close>

section \<open>Key patterns\<close>

datatype IndexFieldKind =
    Ascending | Descending | Hashed | Text | TwoDSphere | TwoD | IndexFieldKind_Other OtherName

text \<open>The custom errors of the implementations, with the element type they report.\<close>

datatype IndexBoundsParseError = BoundEmpty | BadOpen string | BadClose string | NoSeparator string

datatype de_error =
    UnexpectedIndexKind element_type
  | KeyPatternShape element_type
  | BoundEntryShape element_type
  | BoundsFieldShape element_type
  | BoundsShape element_type
  | FilterShape element_type
  | BadBound IndexBoundsParseError

text \<open>\<open>(f - 1.0).abs() < f64::EPSILON\<close>, on the bits of \<open>f\<close>. Rounding is monotone and \<open>2 ^ -52\<close> is
  representable, so the comparison holds of the rounded difference exactly if it holds
  of the exact one; the doubles closer to \<open>1\<close> than \<open>2 ^ -52\<close> are \<open>1\<close> and its
  predecessor \<open>1 - 2 ^ -53\<close>. The same with the sign bit for \<open>-1\<close>.\<close>

definition f64_near_one :: "u64 \<Rightarrow> bool" where
  "f64_near_one f \<longleftrightarrow> f = 0x3FF0000000000000 \<or> f = 0x3FEFFFFFFFFFFFFF"

definition f64_near_minus_one :: "u64 \<Rightarrow> bool" where
  "f64_near_minus_one f \<longleftrightarrow> f = 0xBFF0000000000000 \<or> f = 0xBFEFFFFFFFFFFFFF"

definition IndexFieldKind_from_bson :: "(string \<Rightarrow> string) \<Rightarrow> bson \<Rightarrow> de_error + IndexFieldKind" where
  "IndexFieldKind_from_bson lower b =
     (case b of
        Int32 n \<Rightarrow>
          if n = 1 then Inr Ascending else if n = -1 then Inr Descending
          else Inl (UnexpectedIndexKind (bson_element_type b))
      | Int64 n \<Rightarrow>
          if n = 1 then Inr Ascending else if n = -1 then Inr Descending
          else Inl (UnexpectedIndexKind (bson_element_type b))
      | Double f \<Rightarrow>
          if f64_near_one f then Inr Ascending else if f64_near_minus_one f then Inr Descending
          else Inl (UnexpectedIndexKind (bson_element_type b))
      | String s \<Rightarrow>
          Inr (if s = ''hashed'' then Hashed
               else if s = ''text'' then Text
               else if s = ''2dsphere'' then TwoDSphere
               else if s = ''2d'' then TwoD
               else IndexFieldKind_Other (OtherName_new lower s))
      | _ \<Rightarrow> Inl (UnexpectedIndexKind (bson_element_type b)))"

record KeyPatternField =
  kp_field :: string
  kp_kind :: IndexFieldKind

datatype KeyPattern = KeyPattern_Document "KeyPatternField list" | Express string

definition KeyPattern_deserialize :: "(string \<Rightarrow> string) \<Rightarrow> bson \<Rightarrow> de_error + KeyPattern" where
  "KeyPattern_deserialize lower b =
     (case b of
        Document doc \<Rightarrow>
          res_bind (res_map (\<lambda>(k, v).
            res_bind (IndexFieldKind_from_bson lower v) (\<lambda>kind. Inr \<lparr>kp_field = k, kp_kind = kind\<rparr>)) doc)
          (\<lambda>fields. Inr (KeyPattern_Document fields))
      | String s \<Rightarrow> Inr (Express s)
      | _ \<Rightarrow> Inl (KeyPatternShape (bson_element_type b)))"

text \<open>\<open>s.trim_matches(|c| c == '"' || c == '\\'')\<close>.\<close>

definition is_quote :: "char \<Rightarrow> bool" where
  "is_quote c \<longleftrightarrow> c = CHR 0x22 \<or> c = CHR 0x27"

definition trim_quotes :: "string \<Rightarrow> string" where
  "trim_quotes s = rev (dropWhile is_quote (rev (dropWhile is_quote s)))"

definition strip_braces :: "string \<Rightarrow> string option" where
  "strip_braces s =
     (case s of
        [] \<Rightarrow> None
      | c # cs \<Rightarrow> if c = CHR ''{'' \<and> cs \<noteq> [] \<and> last cs = CHR ''}'' then Some (butlast cs) else None)"

text \<open>The value of one field: an integer, else a double, else the name of an index kind.\<close>

definition express_value :: "string \<Rightarrow> bson" where
  "express_value v =
     (case parse_i64 v of
        Some n \<Rightarrow> Int64 n
      | None \<Rightarrow> (case parse_f64 v of Some f \<Rightarrow> Double f | None \<Rightarrow> String (trim_quotes v)))"

definition parse_express_part :: "(string \<Rightarrow> string) \<Rightarrow> string \<Rightarrow> KeyPatternField option" where
  "parse_express_part lower part =
     (case split_once '':'' (str_trim part) of
        None \<Rightarrow> None
      | Some (k, v) \<Rightarrow>
          (case IndexFieldKind_from_bson lower (express_value (str_trim v)) of
             Inl _ \<Rightarrow> None
           | Inr kind \<Rightarrow> Some \<lparr>kp_field = trim_quotes (str_trim k), kp_kind = kind\<rparr>))"

definition parse_express_string :: "(string \<Rightarrow> string) \<Rightarrow> string \<Rightarrow> KeyPatternField list option" where
  "parse_express_string lower s =
     (case strip_braces (str_trim s) of
        None \<Rightarrow> None
      | Some body \<Rightarrow> those (map (parse_express_part lower) (str_split CHR '','' (str_trim body))))"

section \<open>Index bounds\<close>

datatype BoundValue = Inf | NegInf | MinKey | MaxKey | Literal string

definition BoundValue_parse :: "string \<Rightarrow> BoundValue" where
  "BoundValue_parse s =
     (let t = str_trim s in
      if t = ''inf'' then Inf else if t = ''-inf'' then NegInf
      else if t = ''MinKey'' then MinKey else if t = ''MaxKey'' then MaxKey else Literal t)"

datatype Inclusivity = Inclusive | Exclusive

record IndexBoundRange =
  br_lower :: BoundValue
  br_lower_inclusivity :: Inclusivity
  br_upper :: BoundValue
  br_upper_inclusivity :: Inclusivity

text \<open>\<open>&s[a..b]\<close>.\<close>

definition str_slice :: "string \<Rightarrow> nat \<Rightarrow> nat \<Rightarrow> string option" where
  "str_slice s a b = (if a \<le> b \<and> b \<le> length s then Some (take (b - a) (drop a s)) else None)"

definition IndexBoundRange_parse :: "string \<Rightarrow> (IndexBoundsParseError + IndexBoundRange) option" where
  "IndexBoundRange_parse raw =
     (let s = str_trim raw in
      case s of
        [] \<Rightarrow> Some (Inl BoundEmpty)
      | first # _ \<Rightarrow>
          (case (if first = CHR ''['' then Some Inclusive
                 else if first = CHR ''('' then Some Exclusive else None) of
             None \<Rightarrow> Some (Inl (BadOpen s))
           | Some lower_inclusivity \<Rightarrow>
               (case (if last s = CHR '']'' then Some Inclusive
                      else if last s = CHR '')'' then Some Exclusive else None) of
                  None \<Rightarrow> Some (Inl (BadClose s))
                | Some upper_inclusivity \<Rightarrow>
                    (case str_slice s 1 (length s - 1) of
                       None \<Rightarrow> None
                     | Some body \<Rightarrow>
                         (case (case split_once '', '' body of
                                  Some p \<Rightarrow> Some p
                                | None \<Rightarrow> split_once '','' body) of
                            None \<Rightarrow> Some (Inl (NoSeparator s))
                          | Some (lo, hi) \<Rightarrow>
                              Some (Inr \<lparr>br_lower = BoundValue_parse lo,
                                br_lower_inclusivity = lower_inclusivity,
                                br_upper = BoundValue_parse hi,
                                br_upper_inclusivity = upper_inclusivity\<rparr>))))))"

text \<open>A \<open>BTreeMap<String, _>\<close> is its entries in the order of the keys, which compare bytewise.\<close>

type_synonym 'v btree_map = "(string \<times> 'v) list"

fun btree_insert :: "string \<Rightarrow> 'v \<Rightarrow> 'v btree_map \<Rightarrow> 'v btree_map" where
  "btree_insert k v [] = [(k, v)]"
| "btree_insert k v ((k', v') # m) =
     (if k < k' then (k, v) # (k', v') # m
      else if k = k' then (k, v) # m
      else (k', v') # btree_insert k v m)"

datatype IndexBounds = IndexBounds_Document "IndexBoundRange list btree_map" | Raw string

text \<open>\<open>arr.into_iter().map(..).collect()\<close>, and the loop over the fields.\<close>

fun bound_ranges :: "bson list \<Rightarrow> (de_error + IndexBoundRange list) option" where
  "bound_ranges [] = Some (Inr [])"
| "bound_ranges (String s # rest) =
     (case IndexBoundRange_parse s of
        None \<Rightarrow> None
      | Some (Inl e) \<Rightarrow> Some (Inl (BadBound e))
      | Some (Inr r) \<Rightarrow> map_option (\<lambda>rs. res_bind rs (\<lambda>rs. Inr (r # rs))) (bound_ranges rest))"
| "bound_ranges (other # rest) = Some (Inl (BoundEntryShape (bson_element_type other)))"

fun bound_fields ::
  "document \<Rightarrow> IndexBoundRange list btree_map \<Rightarrow> (de_error + IndexBoundRange list btree_map) option" where
  "bound_fields [] out = Some (Inr out)"
| "bound_fields ((field, Array arr) # doc) out =
     (case bound_ranges arr of
        None \<Rightarrow> None
      | Some (Inl e) \<Rightarrow> Some (Inl e)
      | Some (Inr ranges) \<Rightarrow> bound_fields doc (btree_insert field ranges out))"
| "bound_fields ((field, other) # doc) out = Some (Inl (BoundsFieldShape (bson_element_type other)))"

definition IndexBounds_deserialize :: "bson \<Rightarrow> (de_error + IndexBounds) option" where
  "IndexBounds_deserialize b =
     (case b of
        Document doc \<Rightarrow>
          map_option (\<lambda>r. res_bind r (\<lambda>out. Inr (IndexBounds_Document out))) (bound_fields doc [])
      | String s \<Rightarrow> Some (Inr (Raw s))
      | _ \<Rightarrow> Some (Inl (BoundsShape (bson_element_type b))))"

section \<open>Filters\<close>

datatype Filter = MatchExpression document | SbeExpression string

definition Filter_deserialize :: "bson \<Rightarrow> de_error + Filter" where
  "Filter_deserialize b =
     (case b of
        Document doc \<Rightarrow> Inr (MatchExpression doc)
      | String s \<Rightarrow> Inr (SbeExpression s)
      | _ \<Rightarrow> Inl (FilterShape (bson_element_type b)))"

section \<open>Lemmas\<close>

lemma bound_text_length:
  "s \<noteq> [] \<Longrightarrow> hd s \<in> {CHR ''['', CHR ''(''} \<Longrightarrow> last s \<in> {CHR '']'', CHR '')''} \<Longrightarrow> 2 \<le> length s"
  by (cases s; cases "tl s") auto

lemma IndexBoundRange_parse_total: "IndexBoundRange_parse s \<noteq> None"
proof
  assume n: "IndexBoundRange_parse s = None"
  then obtain c cs where s: "str_trim s = c # cs"
    by (cases "str_trim s") (auto simp: IndexBoundRange_parse_def)
  with n have c: "c \<in> {CHR ''['', CHR ''(''}" and l: "last (c # cs) \<in> {CHR '']'', CHR '')''}"
    by (auto simp: IndexBoundRange_parse_def Let_def split: if_splits option.splits prod.splits)
  then have "2 \<le> length (c # cs)" using bound_text_length [of "c # cs"] by simp
  with n s c l show False
    by (auto simp: IndexBoundRange_parse_def Let_def str_slice_def split: if_splits option.splits prod.splits)
qed

lemma bound_ranges_total: "bound_ranges bs \<noteq> None"
  by (induction bs rule: bound_ranges.induct)
    (auto simp: IndexBoundRange_parse_total split: option.splits sum.splits)

lemma bound_fields_total: "bound_fields doc out \<noteq> None"
proof (induction doc out rule: bound_fields.induct)
  case (2 field arr doc out)
  then show ?case using bound_ranges_total [of arr]
    by (cases "bound_ranges arr"; cases "the (bound_ranges arr)") auto
qed simp_all

section \<open>Ordered maps\<close>

text \<open>What the decoder relies on of a \<open>BTreeMap\<close>: entries come out in strictly ascending order of
  the keys, and an insertion overwrites.\<close>

locale ordered_map =
  fixes empty_map :: 'm
    and put :: "'k::linorder \<Rightarrow> 'v \<Rightarrow> 'm \<Rightarrow> 'm"
    and entries :: "'m \<Rightarrow> ('k \<times> 'v) list"
  assumes entries_empty: "entries empty_map = []"
    and put_sorted: "sorted_wrt (<) (map fst (entries m)) \<Longrightarrow> sorted_wrt (<) (map fst (entries (put k v m)))"
    and put_lookup: "map_of (entries (put k v m)) = (map_of (entries m))(k \<mapsto> v)"
begin

lemma puts_sorted:
  "sorted_wrt (<) (map fst (entries m)) \<Longrightarrow>
   sorted_wrt (<) (map fst (entries (fold (\<lambda>(k, v). put k v) kvs m)))"
  by (induction kvs arbitrary: m) (auto simp: put_sorted)

lemma puts_lookup:
  "map_of (entries (fold (\<lambda>(k, v). put k v) kvs m)) = map_of (entries m) ++ map_of (rev kvs)"
  by (induction kvs arbitrary: m) (auto simp: put_lookup)

end

lemma btree_insert_keys: "set (map fst (btree_insert k v m)) = insert k (set (map fst m))"
  by (induction k v m rule: btree_insert.induct) auto

interpretation btree: ordered_map "[]" btree_insert "\<lambda>m. m"
proof unfold_locales
  fix k :: string and v :: 'v and m :: "'v btree_map"
  show "map_of (btree_insert k v m) = (map_of m)(k \<mapsto> v)"
    by (induction k v m rule: btree_insert.induct) auto
  assume "sorted_wrt (<) (map fst m)"
  then show "sorted_wrt (<) (map fst (btree_insert k v m))"
  proof (induction k v m rule: btree_insert.induct)
    case (2 k v k' v' m)
    then show ?case using btree_insert_keys [of k v m] by auto
  qed simp
qed simp

text \<open>The loop over the fields inserts the ranges of every field in turn.\<close>

definition field_ranges :: "bson \<Rightarrow> IndexBoundRange list" where
  "field_ranges b =
     (case b of
        Array arr \<Rightarrow> (case bound_ranges arr of Some (Inr ranges) \<Rightarrow> ranges | _ \<Rightarrow> [])
      | _ \<Rightarrow> [])"

lemma bound_fields_Inr:
  "bound_fields doc out = Some (Inr es) \<Longrightarrow>
   es = fold (\<lambda>(k, v). btree_insert k v) (map (map_prod id field_ranges) doc) out"
proof (induction doc out rule: bound_fields.induct)
  case (2 field arr doc out)
  then show ?case
    by (cases "bound_ranges arr"; cases "the (bound_ranges arr)") (auto simp: field_ranges_def)
qed simp_all

section \<open>Properties\<close>

text \<open>The decoded bounds are in ascending order of the fields, one entry per field, with the
  ranges of its (last) occurrence in the document.\<close>

lemma index_bounds_exact:
  assumes "IndexBounds_deserialize (Document doc) = Some (Inr (IndexBounds_Document es))"
  shows "sorted_wrt (<) (map fst es) \<and> map_of es = map_option field_ranges \<circ> map_of (rev doc)"
proof -
  from assms obtain "bound_fields doc [] = Some (Inr es)"
    by (auto simp: IndexBounds_deserialize_def result_simps split: sum.splits)
  then have "es = fold (\<lambda>(k, v). btree_insert k v) (map (map_prod id field_ranges) doc) []"
    by (rule bound_fields_Inr)
  with btree.puts_sorted [of "[]"] btree.puts_lookup [of "map (map_prod id field_ranges) doc" "[]"]
  show ?thesis by (simp add: map_of_map map_prod_def rev_map)
qed

lemma trimmed_bracketed:
  assumes "a \<in> {CHR ''['', CHR ''(''}" "b \<in> {CHR '']'', CHR '')''}"
  shows "str_trim (a # s @ [b]) = a # s @ [b]"
proof (rule str_trim_id)
  have "list_all (\<lambda>w. w \<noteq> [] \<and> hd w \<notin> {CHR ''['', CHR ''(''} \<and> last w \<notin> {CHR '']'', CHR '')''}) WHITE_SPACE"
    by code_simp
  then have "w \<noteq> [] \<and> hd w \<noteq> a \<and> last w \<noteq> b" if "w \<in> set WHITE_SPACE" for w
    using that assms unfolding list_all_iff by blast
  then show "trimmed (a # s @ [b])"
    unfolding trimmed_def by (auto simp: take_Cons' hd_rev split: if_splits) (metis hd_rev list.sel(1))+
qed

lemma parse_bracketed:
  assumes "a \<in> {CHR ''['', CHR ''(''}" "b \<in> {CHR '']'', CHR '')''}" "split_once '', '' body = Some (lo, hi)"
  shows "IndexBoundRange_parse (a # body @ [b]) =
    Some (Inr \<lparr>br_lower = BoundValue_parse lo,
      br_lower_inclusivity = (if a = CHR ''['' then Inclusive else Exclusive),
      br_upper = BoundValue_parse hi,
      br_upper_inclusivity = (if b = CHR '']'' then Inclusive else Exclusive)\<rparr>)"
proof -
  have "str_slice (a # body @ [b]) 1 (length (a # body @ [b]) - 1) = Some body"
    by (simp add: str_slice_def)
  then show ?thesis
    using assms unfolding IndexBoundRange_parse_def trimmed_bracketed [OF assms(1,2)] Let_def by auto
qed

text \<open>Decoding index bounds never panics, whatever BSON value the server sends: the slice
  between the brackets is always in range.\<close>

lemma index_bounds_never_panic: "IndexBounds_deserialize b \<noteq> None"
  using bound_fields_total by (auto simp: IndexBounds_deserialize_def split: bson.splits)

end
