(* ===== verification/ExplainParse.thy ===== *)
theory ExplainParse
  imports PlanDetails OpMsg
begin

text \<open>
  Parsing an explain reply: the raw wire types (\<open>src/src/serve/explain/wire.rs\<close>), the public
  event types (\<open>model/event.rs\<close>), the errors (\<open>error.rs\<close>), the bounded preview (\<open>util.rs\<close>), the
  dispatch on \<open>ok\<close> and the plan tree (\<open>parse.rs\<close>). The derived \<open>Deserialize\<close>
  implementations are generated by \<open>serde\<close> and run by the \<open>bson\<close> crate: they are the record
  \<open>explain_de\<close>, an argument. Likewise \<open>debug_chunks\<close> is the sequence of \<open>write_str\<close>
  calls that the crate's \<open>Debug\<close> of a document makes.
\<close>

section \<open>Raw wire types\<close>

datatype RawPlanNode = RawPlanNode
  (rp_stage: Stage)
  (rp_execution_time_millis_estimate: "i64 option")
  (rp_n_returned: DocsReturned)
  (rp_docs_examined: "DocsExamined option")
  (rp_keys_examined: "KeysExamined option")
  (rp_index_name: "IndexName option")
  (rp_key_pattern: "KeyPattern option")
  (rp_index_bounds: "IndexBounds option")
  (rp_direction: "string option")
  (rp_filter: "Filter option")
  (rp_input_stage: "RawPlanNode option")
  (rp_input_stages: "RawPlanNode list option")

record RawExecutionStats =
  rs_execution_time_millis :: i64
  rs_n_returned :: DocsReturned
  rs_total_docs_examined :: DocsExamined
  rs_total_keys_examined :: KeysExamined
  rs_execution_stages :: RawPlanNode

record RawQueryPlanner =
  rq_namespace :: string

record RawExplainReply =
  re_query_planner :: RawQueryPlanner
  re_execution_stats :: RawExecutionStats

record RawServerError =
  se_message :: string
  se_code :: "ServerErrorCode option"
  se_code_name :: "ServerErrorCodeName option"
  se_error_labels :: "ErrorLabel list"

record explain_de =
  de_explain_reply :: "document \<Rightarrow> bson_error + RawExplainReply"
  de_server_error :: "document \<Rightarrow> bson_error + RawServerError"

section \<open>Events\<close>

datatype PlanNode = PlanNode
  (pn_stage: Stage)
  (pn_execution_time: "NodeTime option")
  (pn_n_returned: DocsReturned)
  (pn_docs_examined: "DocsExamined option")
  (pn_keys_examined: "KeysExamined option")
  (pn_index_name: "IndexName option")
  (pn_key_pattern: "KeyPattern option")
  (pn_index_bounds: "IndexBounds option")
  (pn_direction: "Direction option")
  (pn_filter: "Filter option")
  (pn_children: "PlanNode list")

record ExplainTotals =
  et_n_returned :: DocsReturned
  et_docs_examined :: DocsExamined
  et_keys_examined :: KeysExamined
  et_execution_time :: AggregateTime

record ExplainEvent =
  ee_command :: Command
  ee_namespace :: Namespace
  ee_total :: ExplainTotals
  ee_plan :: PlanNode
  ee_client_request_id :: RequestId
  ee_explain_request_id :: "ExplainRequestId option"

datatype MalformedOkShape =
    Ok_Missing | Ok_Null | Ok_StringValue | Ok_Bool | Ok_Array | Ok_Document | Ok_NonFinite
  | Ok_Other element_type

fun from_non_numeric_bson :: "bson \<Rightarrow> MalformedOkShape" where
  "from_non_numeric_bson Null = Ok_Null"
| "from_non_numeric_bson (String _) = Ok_StringValue"
| "from_non_numeric_bson (Boolean _) = Ok_Bool"
| "from_non_numeric_bson (Array _) = Ok_Array"
| "from_non_numeric_bson (Document _) = Ok_Document"
| "from_non_numeric_bson (Int32 _) = Ok_NonFinite"
| "from_non_numeric_bson (Int64 _) = Ok_NonFinite"
| "from_non_numeric_bson (Double _) = Ok_NonFinite"
| "from_non_numeric_bson other = Ok_Other (bson_element_type other)"

datatype UnsupportedShape = MultiOpWriteBatch

section \<open>Errors\<close>

record NegativeDurationError =
  nd_field :: string
  nd_value :: i64

datatype ExplainParseError =
    MissingBody
  | MalformedOk MalformedOkShape
  | Deserialise string bson_error
  | MalformedServerError string bson_error
  | BothChildrenShapesPresent nat
  | BadNamespace NamespaceParseError
  | NegativeDuration NegativeDurationError

datatype ExplainServerError =
  Rejected string "ServerErrorCode option" "ServerErrorCodeName option" "ErrorLabel list"

datatype RequestIdExhausted = RequestIdExhausted

datatype 'e ExplainError =
    InnerService 'e
  | ParseFailed ExplainParseError
  | Server ExplainServerError
  | IdsExhausted RequestIdExhausted
  | Unsupported UnsupportedShape

section \<open>The bounded preview (\<open>util.rs\<close>)\<close>

text \<open>\<open>str::is_char_boundary\<close>: the ends, and every byte that does not continue a character.\<close>

definition is_char_boundary :: "string \<Rightarrow> nat \<Rightarrow> bool" where
  "is_char_boundary s i \<longleftrightarrow>
     i = 0 \<or> i = length s \<or> i < length s \<and> \<not> utf8_cont (of_char (s ! i))"

fun boundary_below :: "string \<Rightarrow> nat \<Rightarrow> nat" where
  "boundary_below s 0 = 0"
| "boundary_below s (Suc n) = (if is_char_boundary s (Suc n) then Suc n else boundary_below s n)"

text \<open>\<open>BoundedWrite::write_str\<close>: the success flag and the buffer after it.\<close>

definition BoundedWrite_write_str :: "nat \<Rightarrow> string \<Rightarrow> string \<Rightarrow> bool \<times> string" where
  "BoundedWrite_write_str cap buf s =
     (if cap \<le> length buf then (False, buf)
      else
        let remaining = cap - length buf in
        if length s \<le> remaining then (True, buf @ s)
        else (False, buf @ take (boundary_below s remaining) s))"

text \<open>A \<open>Debug\<close> implementation returns at the first failing write.\<close>

fun write_chunks :: "nat \<Rightarrow> string \<Rightarrow> string list \<Rightarrow> bool \<times> string" where
  "write_chunks cap buf [] = (True, buf)"
| "write_chunks cap buf (c # cs) =
     (case BoundedWrite_write_str cap buf c of
        (True, buf) \<Rightarrow> write_chunks cap buf cs
      | (False, buf) \<Rightarrow> (False, buf))"

definition TRUNCATED :: string where
  "TRUNCATED = map char_of [0xE2, 0x80, 0xA6 :: nat] @ ''[truncated]''"

definition truncate_doc_preview :: "(document \<Rightarrow> string list) \<Rightarrow> document \<Rightarrow> nat \<Rightarrow> string" where
  "truncate_doc_preview debug_chunks doc cap =
     (case write_chunks cap [] (debug_chunks doc) of
        (True, buf) \<Rightarrow> buf
      | (False, buf) \<Rightarrow> buf @ TRUNCATED)"

section \<open>The dispatch on \<open>ok\<close> (\<open>parse.rs\<close>)\<close>

datatype OkOutcome = Ok_Success | Ok_Rejected | Ok_Malformed MalformedOkShape

text \<open>\<open>f64::is_finite\<close> and the comparison with \<open>0.0\<close> (which \<open>-0.0\<close> equals), on the bits.\<close>

definition f64_is_finite :: "u64 \<Rightarrow> bool" where
  "f64_is_finite f \<longleftrightarrow> drop_bit 52 f AND 0x7FF \<noteq> 0x7FF"

definition f64_is_zero :: "u64 \<Rightarrow> bool" where
  "f64_is_zero f \<longleftrightarrow> f AND 0x7FFFFFFFFFFFFFFF = 0"

definition probe_ok :: "document \<Rightarrow> OkOutcome" where
  "probe_ok doc =
     (case doc_get doc ''ok'' of
        None \<Rightarrow> Ok_Malformed Ok_Missing
      | Some b \<Rightarrow>
          (case b of
             Int32 n \<Rightarrow> if n \<noteq> 0 then Ok_Success else Ok_Rejected
           | Int64 n \<Rightarrow> if n \<noteq> 0 then Ok_Success else Ok_Rejected
           | Double f \<Rightarrow>
               if \<not> f64_is_finite f then Ok_Malformed Ok_NonFinite
               else if \<not> f64_is_zero f then Ok_Success else Ok_Rejected
           | _ \<Rightarrow> Ok_Malformed (from_non_numeric_bson b)))"

definition parse_reply_doc ::
  "explain_de \<Rightarrow> (document \<Rightarrow> string list) \<Rightarrow> document
   \<Rightarrow> ExplainParseError + (ExplainServerError + RawExplainReply)" where
  "parse_reply_doc D debug_chunks doc =
     (case probe_ok doc of
        Ok_Malformed shape \<Rightarrow> Inl (MalformedOk shape)
      | Ok_Rejected \<Rightarrow>
          let preview = truncate_doc_preview debug_chunks doc 256 in
          (case de_server_error D doc of
             Inr raw \<Rightarrow> Inr (Inl (Rejected (se_message raw) (se_code raw) (se_code_name raw) (se_error_labels raw)))
           | Inl source \<Rightarrow> Inl (MalformedServerError preview source))
      | Ok_Success \<Rightarrow>
          let preview = truncate_doc_preview debug_chunks doc 256 in
          (case de_explain_reply D doc of
             Inr reply \<Rightarrow> Inr (Inr reply)
           | Inl source \<Rightarrow> Inl (Deserialise preview source)))"

section \<open>The plan tree\<close>

definition i64_ms_to_duration :: "string \<Rightarrow> i64 \<Rightarrow> NegativeDurationError + nat" where
  "i64_ms_to_duration field ms =
     (if sint ms < 0 then Inl \<lparr>nd_field = field, nd_value = ms\<rparr> else Inr (nat (sint ms)))"

fun to_plan_node :: "(string \<Rightarrow> string) \<Rightarrow> RawPlanNode \<Rightarrow> nat \<Rightarrow> ExplainParseError + PlanNode" where
  "to_plan_node lower (RawPlanNode stage time n_returned docs keys index_name key_pattern bounds direction
       fltr input_stage input_stages) depth =
     res_bind (case time of
         None \<Rightarrow> Inr None
       | Some ms \<Rightarrow>
           res_bind (map_err NegativeDuration (i64_ms_to_duration ''executionTimeMillisEstimate'' ms))
             (\<lambda>d. Inr (Some (NodeTime d)))) (\<lambda>execution_time.
     res_bind (case (input_stage, input_stages) of
         (Some _, Some _) \<Rightarrow> Inl (BothChildrenShapesPresent depth)
       | (Some s, None) \<Rightarrow> res_bind (to_plan_node lower s (depth + 1)) (\<lambda>c. Inr [c])
       | (None, Some v) \<Rightarrow> res_map (\<lambda>n. to_plan_node lower n (depth + 1)) v
       | (None, None) \<Rightarrow> Inr []) (\<lambda>children.
     Inr (PlanNode stage execution_time n_returned docs keys index_name key_pattern bounds
       (map_option (Direction_from_wire_str lower) direction) fltr children)))"

section \<open>Lemmas\<close>

lemma boundary_below_spec: "is_char_boundary s (boundary_below s n) \<and> boundary_below s n \<le> n"
  by (induction s n rule: boundary_below.induct) (auto simp: is_char_boundary_def)

lemma BoundedWrite_ok:
  "BoundedWrite_write_str cap buf c = (True, out) \<longleftrightarrow>
   length buf < cap \<and> length buf + length c \<le> cap \<and> out = buf @ c"
  by (auto simp: BoundedWrite_write_str_def Let_def)

lemma write_chunks_done:
  "write_chunks cap buf cs = (True, out) \<Longrightarrow> length buf \<le> cap \<Longrightarrow> out = buf @ concat cs \<and> length out \<le> cap"
proof (induction cap buf cs rule: write_chunks.induct)
  case (2 cap buf c cs)
  from 2(2) have w: "BoundedWrite_write_str cap buf c = (True, buf @ c)"
    by (auto simp: BoundedWrite_ok split: prod.splits bool.splits)
  with 2(1) [OF w [symmetric]] 2(2) show ?case by (auto simp: BoundedWrite_ok)
qed simp

lemma write_chunks_cut:
  "write_chunks cap buf cs = (False, out) \<Longrightarrow> length buf \<le> cap \<Longrightarrow>
   \<exists>before c after i. cs = before @ c # after \<and> is_char_boundary c i \<and>
     out = buf @ concat before @ take i c \<and> length out \<le> cap \<and> cap \<le> length (buf @ concat cs)"
proof (induction cap buf cs rule: write_chunks.induct)
  case (2 cap buf c cs)
  show ?case
  proof (cases "cap \<le> length buf \<or> cap - length buf < length c")
    case True
    let ?i = "if cap \<le> length buf then 0 else boundary_below c (cap - length buf)"
    from True 2(2) have "out = buf @ take ?i c"
      by (auto simp: BoundedWrite_write_str_def Let_def split: if_splits)
    moreover have "is_char_boundary c ?i" "?i \<le> cap - length buf"
      using boundary_below_spec [of c "cap - length buf"] by (auto simp: is_char_boundary_def)
    ultimately show ?thesis
      using True 2(3) by (intro exI [of _ "[]"] exI [of _ c] exI [of _ cs] exI [of _ ?i]) auto
  next
    case False
    then have w: "BoundedWrite_write_str cap buf c = (True, buf @ c)"
      by (auto simp: BoundedWrite_write_str_def Let_def)
    have "write_chunks cap (buf @ c) cs = (False, out)" "length (buf @ c) \<le> cap"
      using 2(2) w False by auto
    from 2(1) [OF w [symmetric] refl this] obtain before d after i where
      "cs = before @ d # after" "is_char_boundary d i" "out = (buf @ c) @ concat before @ take i d"
      "length out \<le> cap" "cap \<le> length ((buf @ c) @ concat cs)"
      by blast
    then show ?thesis
      by (intro exI [of _ "c # before"] exI [of _ d] exI [of _ after] exI [of _ i]) auto
  qed
qed simp

text \<open>The children of a raw node, and the plan that a raw tree stands for.\<close>

definition raw_children :: "RawPlanNode \<Rightarrow> RawPlanNode list" where
  "raw_children r =
     (case (rp_input_stage r, rp_input_stages r) of
        (Some s, None) \<Rightarrow> [s]
      | (None, Some v) \<Rightarrow> v
      | _ \<Rightarrow> [])"

definition both_shapes :: "RawPlanNode \<Rightarrow> bool" where
  "both_shapes r \<longleftrightarrow> rp_input_stage r \<noteq> None \<and> rp_input_stages r \<noteq> None"

definition node_time_of :: "i64 option \<Rightarrow> NodeTime option \<Rightarrow> bool" where
  "node_time_of ms t \<longleftrightarrow> list_all (\<lambda>m. 0 \<le> sint m) (case ms of None \<Rightarrow> [] | Some m \<Rightarrow> [m]) \<and>
     t = map_option (\<lambda>m. NodeTime (nat (sint m))) ms"

inductive plan_of :: "(string \<Rightarrow> string) \<Rightarrow> RawPlanNode \<Rightarrow> PlanNode \<Rightarrow> bool" for lower where
  node: "\<not> both_shapes r \<Longrightarrow> node_time_of (rp_execution_time_millis_estimate r) t \<Longrightarrow>
    list_all2 (plan_of lower) (raw_children r) children \<Longrightarrow>
    plan_of lower r (PlanNode (rp_stage r) t (rp_n_returned r) (rp_docs_examined r) (rp_keys_examined r)
      (rp_index_name r) (rp_key_pattern r) (rp_index_bounds r)
      (map_option (Direction_from_wire_str lower) (rp_direction r)) (rp_filter r) children)"

text \<open>\<open>node_at r n x\<close>: the tree \<open>r\<close> has the node \<open>x\<close> at depth \<open>n\<close>.\<close>

inductive node_at :: "RawPlanNode \<Rightarrow> nat \<Rightarrow> RawPlanNode \<Rightarrow> bool" where
  root: "node_at r 0 r"
| below: "c \<in> set (raw_children r) \<Longrightarrow> node_at c n x \<Longrightarrow> node_at r (Suc n) x"

definition plan_time :: "i64 option \<Rightarrow> ExplainParseError + NodeTime option" where
  "plan_time time =
     (case time of
        None \<Rightarrow> Inr None
      | Some ms \<Rightarrow>
          res_bind (map_err NegativeDuration (i64_ms_to_duration ''executionTimeMillisEstimate'' ms))
            (\<lambda>d. Inr (Some (NodeTime d))))"

lemma plan_time_Inr: "plan_time ms = Inr t \<longleftrightarrow> node_time_of ms t"
  by (auto simp: plan_time_def node_time_of_def i64_ms_to_duration_def result_simps split: option.splits if_splits)

lemma plan_time_Inl: "plan_time ms = Inl e \<Longrightarrow> \<exists>d. e = NegativeDuration d"
  by (auto simp: plan_time_def result_simps split: option.splits)

text \<open>The recursion of \<open>to_plan_node\<close> in terms of the children.\<close>

lemma to_plan_node_eq:
  "to_plan_node lower r depth =
     res_bind (plan_time (rp_execution_time_millis_estimate r)) (\<lambda>t.
     res_bind (if both_shapes r then Inl (BothChildrenShapesPresent depth)
       else res_map (\<lambda>n. to_plan_node lower n (Suc depth)) (raw_children r)) (\<lambda>children.
     Inr (PlanNode (rp_stage r) t (rp_n_returned r) (rp_docs_examined r) (rp_keys_examined r)
      (rp_index_name r) (rp_key_pattern r) (rp_index_bounds r)
      (map_option (Direction_from_wire_str lower) (rp_direction r)) (rp_filter r) children)))"
  by (cases r) (simp add: plan_time_def raw_children_def both_shapes_def split: option.split)

lemma raw_children_size: "c \<in> set (raw_children r) \<Longrightarrow> size c < size r"
proof -
  assume "c \<in> set (raw_children r)"
  moreover have "size c \<le> size_list size v" if "c \<in> set v" for v
    using that by (rule size_list_estimation') simp
  ultimately show ?thesis
    by (cases r) (force simp: raw_children_def less_Suc_eq_le split: option.splits)
qed

section \<open>Properties\<close>

text \<open>C19. The plan tree of an event is the plan tree of the reply: the conversion succeeds exactly
  if no node of the tree has both child shapes and no time is negative, and then every node
  keeps its fields and has its children in their order, at every depth.\<close>

theorem plan_tree_exact: "to_plan_node lower r depth = Inr p \<longleftrightarrow> plan_of lower r p"
proof (induction r arbitrary: depth p rule: measure_induct_rule [of size])
  case (less r)
  have children: "res_map (\<lambda>n. to_plan_node lower n (Suc depth)) (raw_children r) = Inr cs \<longleftrightarrow>
      list_all2 (plan_of lower) (raw_children r) cs" for cs
    unfolding res_map_Inr_iff using less.IH raw_children_size
    by (intro list.rel_cong refl) blast
  show ?case
  proof
    assume "to_plan_node lower r depth = Inr p"
    then show "plan_of lower r p"
      by (subst (asm) to_plan_node_eq)
        (auto simp: result_simps plan_time_Inr children split: if_splits intro: plan_of.node)
  next
    assume "plan_of lower r p"
    then show "to_plan_node lower r depth = Inr p"
      by cases (subst to_plan_node_eq, auto simp: result_simps plan_time_Inr children)
  qed
qed

text \<open>The depth in the error for an ambiguous node is right: there is a node with both child
  shapes exactly that deep.\<close>

lemma ambiguous_node_depth:
  "to_plan_node lower r depth = Inl (BothChildrenShapesPresent k) \<Longrightarrow>
   \<exists>n x. k = depth + n \<and> node_at r n x \<and> both_shapes x"
proof (induction r arbitrary: depth rule: measure_induct_rule [of size])
  case (less r)
  have e: "\<exists>c \<in> set cs. to_plan_node lower c (Suc depth) = Inl e"
    if "res_map (\<lambda>n. to_plan_node lower n (Suc depth)) cs = Inl e" for cs e
    using that by (induction cs) (auto simp: result_simps)
  from less.prems consider "both_shapes r" "k = depth"
    | c where "c \<in> set (raw_children r)" "to_plan_node lower c (Suc depth) = Inl (BothChildrenShapesPresent k)"
    by (subst (asm) to_plan_node_eq)
      (auto simp: result_simps split: if_splits dest!: plan_time_Inl e)
  then show ?case
  proof cases
    case 1
    then show ?thesis by (intro exI2 [of _ 0 r]) (auto intro: node_at.root)
  next
    case 2
    from less.IH [OF raw_children_size [OF 2(1)] 2(2)] obtain n x where
      "k = Suc depth + n" "node_at c n x" "both_shapes x"
      by blast
    with 2(1) show ?thesis by (intro exI2 [of _ "Suc n" x]) (auto intro: node_at.below)
  qed
qed

text \<open>The preview in an error is bounded and well-formed: it is the whole rendering if that
  fits, and otherwise a prefix of at most \<open>cap\<close> bytes, cut at a character boundary, followed
  by the truncation mark.\<close>

lemma preview_bounded:
  "truncate_doc_preview debug_chunks doc cap = concat (debug_chunks doc) \<and>
     length (concat (debug_chunks doc)) \<le> cap \<or>
   cap \<le> length (concat (debug_chunks doc)) \<and>
     (\<exists>before c after i. debug_chunks doc = before @ c # after \<and> is_char_boundary c i \<and>
        length (concat before @ take i c) \<le> cap \<and>
        truncate_doc_preview debug_chunks doc cap = concat before @ take i c @ TRUNCATED)"
proof (cases "write_chunks cap [] (debug_chunks doc)")
  case (Pair complete out)
  show ?thesis
  proof (cases complete)
    case True
    with Pair write_chunks_done [of cap "[]" "debug_chunks doc" out] show ?thesis
      by (auto simp: truncate_doc_preview_def)
  next
    case False
    with Pair write_chunks_cut [of cap "[]" "debug_chunks doc" out]
    obtain before c after i where "debug_chunks doc = before @ c # after" "is_char_boundary c i"
      "out = concat before @ take i c" "length out \<le> cap" "cap \<le> length (concat (debug_chunks doc))"
      by auto
    with Pair False show ?thesis by (auto simp: truncate_doc_preview_def intro!: disjI2)
  qed
qed

end
