(* ===== verification/ExplainIds.thy ===== *)
theory ExplainIds
  imports ExplainParse
begin

text \<open>
  Allocation of the ids of sideband requests (\<open>alloc_request_id\<close> of
  \<open>src/src/serve/explain/layer.rs\<close>): a compare-and-exchange loop on a counter that all clones of a
  service share. The loop is given twice: as a function, for one caller alone, and as
  the step relation of any number of concurrent callers. A relaxed load may return any value
  the counter has ever held, and a weak exchange may fail without a reason.
\<close>

section \<open>One caller\<close>

definition i32_MIN :: i32 where "i32_MIN = 0x80000000"

definition ids_exhausted :: "i32 \<Rightarrow> bool" where
  "ids_exhausted cur \<longleftrightarrow> 0 \<le> sint cur \<or> cur = i32_MIN"

definition alloc_request_id :: "i32 \<Rightarrow> (RequestIdExhausted + ExplainRequestId) \<times> i32" where
  "alloc_request_id c =
     (if ids_exhausted c then (Inl RequestIdExhausted, c)
      else let next = c - 1 in
        (map_err (\<lambda>_. RequestIdExhausted) (ExplainRequestId_try_new next), next))"

text \<open>The counter of a fresh service.\<close>

definition initial_request_id :: i32 where "initial_request_id = - 1"

section \<open>Concurrent callers\<close>

datatype alloc_pc =
    Entered
  | Looping i32 \<comment> \<open>the local variable \<open>cur\<close>\<close>
  | Finished "RequestIdExhausted + ExplainRequestId"

record alloc_state =
  al_counter :: i32
  al_seen :: "i32 set" \<comment> \<open>every value the counter has held\<close>
  al_callers :: "nat \<Rightarrow> alloc_pc"

definition alloc_start :: alloc_state where
  "alloc_start = \<lparr>al_counter = initial_request_id, al_seen = {initial_request_id}, al_callers = (\<lambda>_. Entered)\<rparr>"

inductive alloc_step :: "alloc_state \<Rightarrow> alloc_state \<Rightarrow> bool" where
  load: "al_callers s t = Entered \<Longrightarrow> v \<in> al_seen s \<Longrightarrow>
     alloc_step s (s\<lparr>al_callers := (al_callers s)(t := Looping v)\<rparr>)"
| refuse: "al_callers s t = Looping cur \<Longrightarrow> ids_exhausted cur \<Longrightarrow>
     alloc_step s (s\<lparr>al_callers := (al_callers s)(t := Finished (Inl RequestIdExhausted))\<rparr>)"
| exchanged: "al_callers s t = Looping cur \<Longrightarrow> \<not> ids_exhausted cur \<Longrightarrow> al_counter s = cur \<Longrightarrow>
     alloc_step s (s\<lparr>al_counter := cur - 1, al_seen := insert (cur - 1) (al_seen s),
       al_callers := (al_callers s)(t := Finished
         (map_err (\<lambda>_. RequestIdExhausted) (ExplainRequestId_try_new (cur - 1))))\<rparr>)"
| exchange_failed: "al_callers s t = Looping cur \<Longrightarrow> \<not> ids_exhausted cur \<Longrightarrow> v \<in> al_seen s \<Longrightarrow>
     alloc_step s (s\<lparr>al_callers := (al_callers s)(t := Looping v)\<rparr>)"

inductive alloc_reachable :: "alloc_state \<Rightarrow> bool" where
  start: "alloc_reachable alloc_start"
| step: "alloc_reachable s \<Longrightarrow> alloc_step s t \<Longrightarrow> alloc_reachable t"

inductive_cases alloc_stepE: "alloc_step s t"

section \<open>The invariant\<close>

text \<open>The counter has held exactly the values from \<open>-1\<close> down to the current one; the ids below
  \<open>-1\<close> and not below the counter have each been given to exactly one caller.\<close>

definition alloc_inv :: "alloc_state \<Rightarrow> bool" where
  "alloc_inv s \<longleftrightarrow>
     al_seen s = {v. sint (al_counter s) \<le> sint v \<and> sint v \<le> -1} \<and>
     sint (al_counter s) < 0 \<and>
     (\<forall>t v. al_callers s t = Looping v \<longrightarrow> v \<in> al_seen s) \<and>
     (\<forall>t i. al_callers s t = Finished (Inr i) \<longrightarrow>
        sint (al_counter s) \<le> sint (explain_request_id_inner i) \<and> sint (explain_request_id_inner i) < -1) \<and>
     (\<forall>t t' i. al_callers s t = Finished (Inr i) \<longrightarrow> al_callers s t' = Finished (Inr i) \<longrightarrow> t = t') \<and>
     (\<forall>v. sint (al_counter s) \<le> sint v \<and> sint v < -1 \<longrightarrow>
        (\<exists>t. al_callers s t = Finished (Inr (ExplainRequestId v)))) \<and>
     (\<forall>t e. al_callers s t = Finished (Inl e) \<longrightarrow> al_counter s = i32_MIN)"

lemma alloc_invD:
  assumes "alloc_inv s"
  shows "al_seen s = {v. sint (al_counter s) \<le> sint v \<and> sint v \<le> -1}" "sint (al_counter s) < 0"
    and "al_callers s t = Looping v \<Longrightarrow> v \<in> al_seen s"
    and "al_callers s t = Finished (Inr i) \<Longrightarrow>
      sint (al_counter s) \<le> sint (explain_request_id_inner i) \<and> sint (explain_request_id_inner i) < -1"
    and "al_callers s t = Finished (Inr i) \<Longrightarrow> al_callers s t' = Finished (Inr i) \<Longrightarrow> t = t'"
    and "sint (al_counter s) \<le> sint v \<Longrightarrow> sint v < -1 \<Longrightarrow>
      \<exists>t. al_callers s t = Finished (Inr (ExplainRequestId v))"
    and "al_callers s t = Finished (Inl e) \<Longrightarrow> al_counter s = i32_MIN"
  using assms unfolding alloc_inv_def by blast+

lemma sint_i32_eqI: "sint (a :: i32) = sint b \<Longrightarrow> a = b"
  by (rule signed_word_eqI)

lemma sint_i32_MIN: "sint i32_MIN = - (2 ^ 31)"
  by (simp add: i32_MIN_def)

lemma sint_i32_ge: "- (2 ^ 31) \<le> sint (v :: i32)"
  using sint_ge [of v] by simp

lemma sint_pred:
  assumes "\<not> ids_exhausted c"
  shows "sint (c - 1) = sint c - 1" "sint c < 0" "- (2 ^ 31) < sint c"
proof -
  from assms have n: "sint c < 0" "c \<noteq> i32_MIN" by (auto simp: ids_exhausted_def)
  then have "sint c \<noteq> - (2 ^ 31)" using sint_i32_MIN sint_i32_eqI by metis
  with sint_i32_ge [of c] have l: "- (2 ^ 31) < sint c" by simp
  have "signed_take_bit 31 (sint c - 1) = sint c - 1"
    using l n by (intro signed_take_bit_int_eq_self) simp_all
  then have "sint (c - 1) = sint c - 1"
    by (simp add: sint_word_ariths)
  with l n show "sint (c - 1) = sint c - 1" "sint c < 0" "- (2 ^ 31) < sint c" by simp_all
qed

lemma try_new_pred:
  "\<not> ids_exhausted c \<Longrightarrow> ExplainRequestId_try_new (c - 1) = Inr (ExplainRequestId (c - 1))"
  using sint_pred [of c] by (simp add: ExplainRequestId_try_new_def ExplainRequestId_valid_def)

lemma alloc_inv_start: "alloc_inv alloc_start"
proof -
  have "sint (initial_request_id) = -1" by (simp add: initial_request_id_def)
  moreover have "v = initial_request_id" if "sint v = -1" for v
    using that calculation by (metis sint_i32_eqI)
  ultimately show ?thesis by (auto simp: alloc_inv_def alloc_start_def intro!: order_antisym)
qed

lemma callers_looping:
  assumes "\<And>r. f t \<noteq> Finished r"
  shows "(f(t := Looping v)) u = Finished r \<longleftrightarrow> f u = Finished r"
  using assms by auto

lemma alloc_inv_looping:
  assumes "alloc_inv s" "\<And>r. al_callers s t \<noteq> Finished r" "v \<in> al_seen s"
  shows "alloc_inv (s\<lparr>al_callers := (al_callers s)(t := Looping v)\<rparr>)"
proof -
  have "w \<in> al_seen s" if "((al_callers s)(t := Looping v)) u = Looping w" for u w
    using that assms(1,3) unfolding alloc_inv_def by (cases "u = t") auto
  with assms(1) show ?thesis
    unfolding alloc_inv_def by (simp add: callers_looping [of "al_callers s" t, OF assms(2)] del: fun_upd_apply)
qed

lemma alloc_inv_refuse:
  assumes inv: "alloc_inv s" and c: "al_callers s t = Looping cur" "ids_exhausted cur"
  shows "alloc_inv (s\<lparr>al_callers := (al_callers s)(t := Finished (Inl e))\<rparr>)"
proof -
  have seen: "cur \<in> al_seen s" using inv c(1) unfolding alloc_inv_def by blast
  then have "sint (al_counter s) \<le> sint cur" "sint cur < 0" using inv unfolding alloc_inv_def by auto
  then have m: "al_counter s = i32_MIN"
    using c(2) sint_i32_MIN sint_i32_ge [of "al_counter s"]
    unfolding ids_exhausted_def by (auto intro: sint_i32_eqI)
  let ?f = "(al_callers s)(t := Finished (Inl e))"
  have "?f u = Looping w \<Longrightarrow> al_callers s u = Looping w" for u w by (cases "u = t") auto
  moreover have "?f u = Finished (Inr i) \<longleftrightarrow> al_callers s u = Finished (Inr i)" for u i
    using c(1) by (cases "u = t") auto
  ultimately show ?thesis using inv m unfolding alloc_inv_def by (simp del: fun_upd_apply) blast
qed

lemma alloc_inv_exchanged:
  assumes inv: "alloc_inv s" and c: "al_callers s t = Looping (al_counter s)" "\<not> ids_exhausted (al_counter s)"
  shows "alloc_inv (s\<lparr>al_counter := al_counter s - 1, al_seen := insert (al_counter s - 1) (al_seen s),
    al_callers := (al_callers s)(t := Finished (Inr (ExplainRequestId (al_counter s - 1))))\<rparr>)"
proof -
  let ?c = "al_counter s" and ?i = "ExplainRequestId (al_counter s - 1)"
  let ?f = "(al_callers s)(t := Finished (Inr ?i))"
  note pred = sint_pred [OF c(2)]
  have below: "v = ?c - 1 \<or> sint ?c \<le> sint v" if "sint ?c - 1 \<le> sint v" for v
    using that pred(1) sint_i32_eqI [of v "?c - 1"] by (cases "sint ?c \<le> sint v") auto
  have loop: "?f u = Looping w \<longleftrightarrow> u \<noteq> t \<and> al_callers s u = Looping w" for u w by auto
  have fin: "?f u = Finished r \<longleftrightarrow> u = t \<and> r = Inr ?i \<or> u \<noteq> t \<and> al_callers s u = Finished r" for u r by auto
  have old: "al_callers s u \<noteq> Finished (Inr ?i)" for u
    using alloc_invD(4) [OF inv, of u ?i] pred(1) by auto
  have refused: "?f u \<noteq> Finished (Inl e)" for u e
    using alloc_invD(7) [OF inv, of u e] c(2) unfolding fin ids_exhausted_def by auto
  have seen: "insert (?c - 1) (al_seen s) = {v. sint (?c - 1) \<le> sint v \<and> sint v \<le> -1}"
    using pred below unfolding alloc_invD(1) [OF inv] by auto
  have all: "\<exists>u. ?f u = Finished (Inr (ExplainRequestId v))"
    if "sint (?c - 1) \<le> sint v" "sint v < -1" for v
  proof (cases "v = ?c - 1")
    case False
    with below [of v] that pred(1) have "sint ?c \<le> sint v" by simp
    from alloc_invD(6) [OF inv this that(2)]
    obtain u where "al_callers s u = Finished (Inr (ExplainRequestId v))" ..
    with c(1) show ?thesis by (intro exI [of _ u]) auto
  qed auto
  have looping: "w \<in> insert (?c - 1) (al_seen s)" if "?f u = Looping w" for u w
    using that alloc_invD(3) [OF inv] unfolding loop by blast
  have range: "sint (?c - 1) \<le> sint (explain_request_id_inner i) \<and> sint (explain_request_id_inner i) < -1"
    if "?f u = Finished (Inr i)" for u i
    using that alloc_invD(2) [OF inv] alloc_invD(4) [OF inv, of u i] pred unfolding fin by auto
  have unique: "u = u'" if "?f u = Finished (Inr i)" "?f u' = Finished (Inr i)" for u u' i
    using that alloc_invD(5) [OF inv] old unfolding fin by blast
  have "sint (?c - 1) < 0" using pred by simp
  with seen looping range unique all refused show ?thesis
    unfolding alloc_inv_def by (simp del: fun_upd_apply)
qed

lemma alloc_inv_step:
  assumes "alloc_inv s" "alloc_step s s'"
  shows "alloc_inv s'"
  using assms(2)
proof cases
  case (load t v)
  then show ?thesis using alloc_inv_looping [OF assms(1), of t v] by simp
next
  case (refuse t cur)
  then show ?thesis using alloc_inv_refuse [OF assms(1)] by simp
next
  case (exchanged t cur)
  then show ?thesis using alloc_inv_exchanged [OF assms(1)] by (simp add: try_new_pred)
next
  case (exchange_failed t cur v)
  then show ?thesis using alloc_inv_looping [OF assms(1), of t v] by simp
qed

lemma alloc_reachable_inv: "alloc_reachable s \<Longrightarrow> alloc_inv s"
  by (induction rule: alloc_reachable.induct) (auto intro: alloc_inv_start alloc_inv_step)

section \<open>Properties\<close>

text \<open>C15. The ids of sideband requests never clash. However the calls interleave, and however
  often an exchange fails, every id that is handed out is negative, no two callers get
  the same one, and a caller is refused only when every negative id but \<open>-1\<close> has been
  handed out: the counter never wraps.\<close>

theorem explain_ids_unique:
  assumes "alloc_reachable s"
  shows "(\<forall>t i. al_callers s t = Finished (Inr i) \<longrightarrow> ExplainRequestId_valid (explain_request_id_inner i)) \<and>
    (\<forall>t t' i. al_callers s t = Finished (Inr i) \<longrightarrow> al_callers s t' = Finished (Inr i) \<longrightarrow> t = t') \<and>
    (\<forall>t e v. al_callers s t = Finished (Inl e) \<longrightarrow> sint v < -1 \<longrightarrow>
       (\<exists>t'. al_callers s t' = Finished (Inr (ExplainRequestId v))))"
proof -
  note inv = alloc_reachable_inv [OF assms]
  have "\<exists>t'. al_callers s t' = Finished (Inr (ExplainRequestId v))"
    if "al_callers s t = Finished (Inl e)" "sint v < -1" for t e v
  proof -
    have "sint (al_counter s) \<le> sint v"
      using alloc_invD(7) [OF inv that(1)] sint_i32_MIN sint_i32_ge [of v] by simp
    from alloc_invD(6) [OF inv this that(2)] show ?thesis .
  qed
  moreover have "ExplainRequestId_valid (explain_request_id_inner i)"
    if "al_callers s t = Finished (Inr i)" for t i
    using alloc_invD(4) [OF inv that] unfolding ExplainRequestId_valid_def by linarith
  ultimately show ?thesis using alloc_invD(5) [OF inv] by blast
qed

text \<open>The first allocation of caller \<open>0\<close>.\<close>

definition loaded :: alloc_state where
  "loaded = alloc_start\<lparr>al_callers := (\<lambda>_. Entered)(0 := Looping (-1))\<rparr>"

definition served :: alloc_state where
  "served = loaded\<lparr>al_counter := -2, al_seen := {-2, -1},
     al_callers := (\<lambda>_. Entered)(0 := Finished (Inr (ExplainRequestId (-2))))\<rparr>"

lemma first_load: "alloc_reachable loaded"
proof (rule alloc_reachable.step [OF alloc_reachable.start])
  show "alloc_step alloc_start loaded"
    using alloc_step.load [of alloc_start 0 "-1"]
    by (simp add: loaded_def alloc_start_def initial_request_id_def)
qed

lemma first_exchange: "alloc_step loaded served"
proof -
  have "\<not> ids_exhausted (-1)" by code_simp
  then show ?thesis
    using alloc_step.exchanged [of loaded 0 "-1"] try_new_pred [of "-1"]
    by (simp add: served_def loaded_def alloc_start_def initial_request_id_def)
qed

theorem explain_ids_unique_witness: "ExplainRequestId_valid (-2)"
  using explain_ids_unique [OF alloc_reachable.step [OF first_load first_exchange],
      THEN conjunct1, THEN spec, of 0, THEN spec, of "ExplainRequestId (-2)"]
  by (simp add: served_def)

text \<open>C16. The loop is linearisable: each step of a caller either leaves the counter alone and
  nobody finished, or is one atomic run of the sequential \<open>alloc_request_id\<close> on the
  shared counter, whose result the caller returns.\<close>

theorem alloc_linearizable:
  assumes "alloc_reachable s" "alloc_step s s'"
  shows "al_counter s' = al_counter s \<and> (\<forall>t r. al_callers s' t = Finished r \<longleftrightarrow> al_callers s t = Finished r) \<or>
    (\<exists>t r. alloc_request_id (al_counter s) = (r, al_counter s') \<and>
       al_callers s' = (al_callers s)(t := Finished r))"
  using assms(2)
proof cases
  case (refuse t cur)
  have "al_counter s' = i32_MIN"
    using alloc_invD(7) [OF alloc_reachable_inv [OF alloc_reachable.step [OF assms]], of t] refuse by simp
  with refuse have "alloc_request_id (al_counter s) = (Inl RequestIdExhausted, al_counter s')"
    by (simp add: alloc_request_id_def ids_exhausted_def)
  with refuse show ?thesis by (intro disjI2 exI [of _ t]) simp
next
  case (exchanged t cur)
  then have "alloc_request_id (al_counter s) =
      (map_err (\<lambda>_. RequestIdExhausted) (ExplainRequestId_try_new (cur - 1)), al_counter s')"
    by (simp add: alloc_request_id_def Let_def)
  with exchanged show ?thesis by (intro disjI2 exI [of _ t]) simp
qed auto

theorem alloc_linearizable_witness:
  "alloc_request_id (-1) = (Inr (ExplainRequestId (-2)), -2)"
  using alloc_linearizable [OF first_load first_exchange]
  by (auto simp: served_def loaded_def alloc_start_def initial_request_id_def fun_eq_iff split: if_splits)

text \<open>C17. The loop is lock-free: a caller in the loop can always finish with its next step,
  unless its value is stale, and then another caller has been served meanwhile with the
  very id it would have taken.\<close>

theorem alloc_progress:
  assumes "alloc_reachable s" "al_callers s t = Looping cur"
  shows "(\<exists>s' r. alloc_step s s' \<and> al_callers s' t = Finished r) \<or>
    (\<exists>t'. t' \<noteq> t \<and> al_callers s t' = Finished (Inr (ExplainRequestId (cur - 1))))"
proof (cases "ids_exhausted cur \<or> al_counter s = cur")
  case True
  then show ?thesis
    using alloc_step.refuse [OF assms(2)] alloc_step.exchanged [OF assms(2)] by fastforce
next
  case False
  note inv = alloc_reachable_inv [OF assms(1)]
  have "sint (al_counter s) \<le> sint cur" "sint cur \<le> -1"
    using alloc_invD(1) [OF inv] alloc_invD(3) [OF inv assms(2)] by auto
  moreover from False have "sint (al_counter s) \<noteq> sint cur" using sint_i32_eqI [of "al_counter s" cur] by auto
  ultimately have "sint (al_counter s) \<le> sint (cur - 1)" "sint (cur - 1) < -1"
    using sint_pred [of cur] False by auto
  from alloc_invD(6) [OF inv this]
  obtain t' where "al_callers s t' = Finished (Inr (ExplainRequestId (cur - 1)))" ..
  with assms(2) show ?thesis by (intro disjI2 exI [of _ t']) auto
qed

theorem alloc_progress_witness:
  "\<exists>s' r. alloc_step loaded s' \<and> al_callers s' 0 = Finished r"
  using alloc_progress [OF first_load, of 0 "-1"] by (auto simp: loaded_def)

end
