(* ===== verification/Explain.thy ===== *)
theory Explain
  imports ExplainIds ReplyStream Log BsonRef
begin

text \<open>
  The explain inspector (\<open>src/src/serve/explain/classify.rs\<close>, \<open>build.rs\<close>, \<open>layer.rs\<close>, \<open>sink.rs\<close>): a
  layer that forwards a request, buffers its replies, and for an explainable command runs a
  second, sideband request over the same inner service whose outcome goes to a sink.
  The world of the layer is the world of the inner service together with the id counter,
  the state of the sink and the \<open>tracing\<close> events of \<open>emit_or_log\<close>. The reply streams of
  the crate release the upstream lock when they end, so dropping an ended stream
  changes nothing.
\<close>

section \<open>Classification\<close>

record ClassifiedRequest =
  cr_command :: Command
  cr_database :: Database
  cr_body :: document
  cr_doc_sequences :: "OpMsgSection list"

definition classify :: "(string \<Rightarrow> string) \<Rightarrow> Message \<Rightarrow> ClassifiedRequest option" where
  "classify lower req =
     (case msg_operation req of
        Operation_Message op_msg \<Rightarrow>
          if flags_contains (om_flags op_msg) MORE_TO_COME then None
          else
            Option.bind (OperationMessage_command_name op_msg) (\<lambda>raw_name.
            Option.bind (from_command_name lower raw_name) (\<lambda>command.
            Option.bind (find_body (om_sections op_msg)) (\<lambda>body.
            Option.bind (get_str body ''$db'') (\<lambda>db_str.
            case Database_try_new db_str of
              Inl _ \<Rightarrow> None
            | Inr database \<Rightarrow>
                Some \<lparr>cr_command = command, cr_database = database, cr_body = body,
                  cr_doc_sequences = om_sections op_msg\<rparr>))))
      | _ \<Rightarrow> None)"

section \<open>The explain request\<close>

datatype BuildExplainOutcome = Built Message | NotBuilt UnsupportedShape

definition EXPLAIN_VERBOSITY :: string where "EXPLAIN_VERBOSITY = ''executionStats''"

definition batch_ident :: "Command \<Rightarrow> string option" where
  "batch_ident command =
     (case command of
        Command_Update \<Rightarrow> Some ''updates''
      | Command_Delete \<Rightarrow> Some ''deletes''
      | _ \<Rightarrow> None)"

fun batch_is_multi :: "string \<Rightarrow> OpMsgSection list \<Rightarrow> bool" where
  "batch_is_multi ident [] = False"
| "batch_is_multi ident (DocumentSequence identifier documents # ss) =
     (if identifier = ident then 1 < length documents else batch_is_multi ident ss)"
| "batch_is_multi ident (_ # ss) = batch_is_multi ident ss"

definition is_multi_op_write_batch :: "Command \<Rightarrow> OpMsgSection list \<Rightarrow> bool" where
  "is_multi_op_write_batch command sections =
     (case batch_ident command of None \<Rightarrow> False | Some ident \<Rightarrow> batch_is_multi ident sections)"

fun single_op :: "string \<Rightarrow> OpMsgSection list \<Rightarrow> document option" where
  "single_op ident [] = None"
| "single_op ident (DocumentSequence identifier documents # ss) =
     (if identifier = ident then (case documents of [only] \<Rightarrow> Some only | _ \<Rightarrow> single_op ident ss)
      else single_op ident ss)"
| "single_op ident (_ # ss) = single_op ident ss"

definition fold_single_op_doc_sequence ::
  "bson_crate \<Rightarrow> Command \<Rightarrow> OpMsgSection list \<Rightarrow> document \<Rightarrow> document" where
  "fold_single_op_doc_sequence B command sections inner =
     (case batch_ident command of
        None \<Rightarrow> inner
      | Some ident \<Rightarrow>
          (case single_op ident sections of
             None \<Rightarrow> inner
           | Some only \<Rightarrow> doc_insert B inner ident (Array [Document only])))"

definition STRIPPED_FIELDS :: "string list" where
  "STRIPPED_FIELDS =
     [''$db'', ''lsid'', ''txnNumber'', ''autocommit'', ''$clusterTime'', ''$readPreference'',
      ''$readConcern'', ''readConcern'', ''startTransaction'', ''stmtId'']"

definition should_strip_from_inner :: "string \<Rightarrow> bool" where
  "should_strip_from_inner key \<longleftrightarrow> key \<in> set STRIPPED_FIELDS"

definition inner_command :: "bson_crate \<Rightarrow> ClassifiedRequest \<Rightarrow> document" where
  "inner_command B plan =
     fold_single_op_doc_sequence B (cr_command plan) (cr_doc_sequences plan)
       (fold (\<lambda>(k, v) inner. if should_strip_from_inner k then inner else doc_insert B inner k v)
         (cr_body plan) [])"

definition build_explain :: "bson_crate \<Rightarrow> ClassifiedRequest \<Rightarrow> ExplainRequestId \<Rightarrow> BuildExplainOutcome" where
  "build_explain B plan request_id =
     (if is_multi_op_write_batch (cr_command plan) (cr_doc_sequences plan) then NotBuilt MultiOpWriteBatch
      else
        let envelope = doc_insert B [] ''explain'' (Document (inner_command B plan));
            envelope = doc_insert B envelope ''verbosity'' (String EXPLAIN_VERBOSITY);
            envelope = doc_insert B envelope ''$db'' (String (database_inner (cr_database plan))) in
        Built \<lparr>msg_request_id = RequestId_from_explain request_id, msg_response_to = None,
          msg_operation = Operation_Message \<lparr>om_flags = 0, om_sections = [Body envelope], om_checksum = None\<rparr>\<rparr>)"

section \<open>Sinks\<close>

record ('k, 'e) ExplainSink =
  sink_record :: "ExplainEvent \<Rightarrow> 'k \<Rightarrow> 'k"
  sink_record_error :: "'e ExplainError \<Rightarrow> 'k \<Rightarrow> 'k"

text \<open>A closure; \<open>record_error\<close> keeps its default, which does nothing.\<close>

definition closure_sink :: "(ExplainEvent \<Rightarrow> 'k \<Rightarrow> 'k) \<Rightarrow> ('k, 'e) ExplainSink" where
  "closure_sink f = \<lparr>sink_record = f, sink_record_error = (\<lambda>_ k. k)\<rparr>"

definition TracingOnly :: "('k, 'e) ExplainSink" where
  "TracingOnly = \<lparr>sink_record = (\<lambda>_ k. k), sink_record_error = (\<lambda>_ k. k)\<rparr>"

text \<open>A bounded channel: \<open>try_send\<close> is tokio's. The state is the channel and the warnings.\<close>

datatype TrySendError = Full | Closed
datatype sink_warning = ChannelFull | ReceiverDropped

definition Sender_sink ::
  "('ch \<Rightarrow> ExplainEvent \<Rightarrow> (TrySendError + unit) \<times> 'ch) \<Rightarrow> ('ch \<times> sink_warning list, 'e) ExplainSink" where
  "Sender_sink try_send =
     \<lparr>sink_record = (\<lambda>event (ch, warnings).
        case try_send ch event of
          (Inr _, ch) \<Rightarrow> (ch, warnings)
        | (Inl Full, ch) \<Rightarrow> (ch, warnings @ [ChannelFull])
        | (Inl Closed, ch) \<Rightarrow> (ch, warnings @ [ReceiverDropped])),
      sink_record_error = (\<lambda>_ k. k)\<rparr>"

definition UnboundedSender_sink ::
  "('ch \<Rightarrow> ExplainEvent \<Rightarrow> (unit + unit) \<times> 'ch) \<Rightarrow> ('ch \<times> sink_warning list, 'e) ExplainSink" where
  "UnboundedSender_sink send =
     \<lparr>sink_record = (\<lambda>event (ch, warnings).
        case send ch event of
          (Inr _, ch) \<Rightarrow> (ch, warnings)
        | (Inl _, ch) \<Rightarrow> (ch, warnings @ [ReceiverDropped])),
      sink_record_error = (\<lambda>_ k. k)\<rparr>"

section \<open>Buffering\<close>

text \<open>\<open>drain_stream\<close> and the stream that replays the buffer.\<close>

partial_function (option) drain_stream ::
  "('st, 'w, 'e) reply_poll \<Rightarrow> 'st \<Rightarrow> 'w \<Rightarrow> Message list \<Rightarrow> (('e + Message list) \<times> 'w) option" where
  "drain_stream poll_next st w out =
     (case poll_next st w of
        (Pending, st, w) \<Rightarrow> drain_stream poll_next st w out
      | (Ready None, st, w) \<Rightarrow> Some (Inr out, w)
      | (Ready (Some (Inl e)), st, w) \<Rightarrow> Some (Inl e, w)
      | (Ready (Some (Inr m)), st, w) \<Rightarrow> drain_stream poll_next st w (out @ [m]))"

fun ReplayStream_poll_next :: "(Message list, 'w, 'e) reply_poll" where
  "ReplayStream_poll_next [] w = (Ready None, [], w)"
| "ReplayStream_poll_next (m # ms) w = (Ready (Some (Inr m)), ms, w)"

text \<open>\<open>inner.call(req).await?\<close> followed by \<open>drain_stream(stream).await?\<close>.\<close>

definition call_and_drain ::
  "('s, 'w, 'st, 'e) service_call \<Rightarrow> ('st, 'w, 'e) reply_poll \<Rightarrow> 's \<Rightarrow> Message \<Rightarrow> 'w
   \<Rightarrow> (('e + Message list) \<times> 's \<times> 'w) option" where
  "call_and_drain call poll_next inner req w =
     (case call inner req w of
        (Pending, _, _) \<Rightarrow> None
      | (Ready (Inl e), inner, w) \<Rightarrow> Some (Inl e, inner, w)
      | (Ready (Inr stream), inner, w) \<Rightarrow>
          map_option (\<lambda>(r, w). (r, inner, w)) (drain_stream poll_next stream w []))"

section \<open>The sideband explain\<close>

definition extract_body :: "Message list \<Rightarrow> ExplainParseError + document" where
  "extract_body replies =
     (case replies of
        [] \<Rightarrow> Inl MissingBody
      | first # _ \<Rightarrow>
          (case msg_operation first of
             Operation_Message op_msg \<Rightarrow> ok_or (find_body (om_sections op_msg)) MissingBody
           | _ \<Rightarrow> Inl MissingBody))"

definition raw_into_event ::
  "(string \<Rightarrow> string) \<Rightarrow> Command \<Rightarrow> RawExplainReply \<Rightarrow> RequestId \<Rightarrow> ExplainRequestId option
   \<Rightarrow> ExplainParseError + ExplainEvent" where
  "raw_into_event lower command raw client_request_id explain_request_id =
     (let stats = re_execution_stats raw in
      res_bind (map_err BadNamespace (Namespace_parse (rq_namespace (re_query_planner raw)))) (\<lambda>namespace.
      res_bind (map_err NegativeDuration (i64_ms_to_duration ''executionTimeMillis'' (rs_execution_time_millis stats)))
        (\<lambda>d.
      res_bind (to_plan_node lower (rs_execution_stages stats) 0) (\<lambda>plan.
      Inr \<lparr>ee_command = command, ee_namespace = namespace,
        ee_total = \<lparr>et_n_returned = rs_n_returned stats, et_docs_examined = rs_total_docs_examined stats,
          et_keys_examined = rs_total_keys_examined stats, et_execution_time = AggregateTime d\<rparr>,
        ee_plan = plan, ee_client_request_id = client_request_id,
        ee_explain_request_id = explain_request_id\<rparr>))))"

text \<open>What the source is made of outside the repository: the \<open>bson\<close> crate, the generated
  deserialisers, the pieces of the crate's \<open>Debug\<close>, and Unicode lower-casing.\<close>

record explain_env =
  env_bson :: bson_crate
  env_de :: explain_de
  env_debug :: "document \<Rightarrow> string list"
  env_lower :: "string \<Rightarrow> string"

definition explain_outcome ::
  "explain_env \<Rightarrow> Command \<Rightarrow> RequestId \<Rightarrow> ExplainRequestId option \<Rightarrow> 'e + Message list
   \<Rightarrow> 'e ExplainError + ExplainEvent" where
  "explain_outcome V command client_request_id explain_request_id replies =
     res_bind (map_err InnerService replies) (\<lambda>explain_replies.
     res_bind (map_err ParseFailed (extract_body explain_replies)) (\<lambda>body.
     res_bind (map_err ParseFailed (parse_reply_doc (env_de V) (env_debug V) body)) (\<lambda>parsed.
     case parsed of
       Inl server_err \<Rightarrow> Inl (Server server_err)
     | Inr raw \<Rightarrow>
         map_err ParseFailed
           (raw_into_event (env_lower V) command raw client_request_id explain_request_id))))"

definition run_explain ::
  "explain_env \<Rightarrow> ('s, 'w, 'st, 'e) service_call \<Rightarrow> ('st, 'w, 'e) reply_poll \<Rightarrow> 's \<Rightarrow> Command
   \<Rightarrow> Message \<Rightarrow> RequestId \<Rightarrow> ExplainRequestId option \<Rightarrow> 'w
   \<Rightarrow> (('e ExplainError + ExplainEvent) \<times> 's \<times> 'w) option" where
  "run_explain V call poll_next inner command explain_msg client_request_id explain_request_id w =
     map_option (\<lambda>(r, inner, w).
         (explain_outcome V command client_request_id explain_request_id r, inner, w))
       (call_and_drain call poll_next inner explain_msg w)"

section \<open>The layer\<close>

datatype 'e explain_trace =
    TraceExplain level Command Database Collection DocsReturned nat
  | TraceInner level Command 'e
  | TraceParse level Command ExplainParseError
  | TraceServer level Command ExplainServerError
  | TraceExhausted level Command
  | TraceUnsupported level Command UnsupportedShape

record ('w, 'k, 'e) explain_world =
  ew_inner :: 'w
  ew_counter :: i32
  ew_sink :: 'k
  ew_trace :: "'e explain_trace list"

definition explain_event_trace :: "ExplainEvent \<Rightarrow> 'e explain_trace" where
  "explain_event_trace event =
     TraceExplain INFO (ee_command event) (ns_database (ee_namespace event)) (ns_collection (ee_namespace event))
       (et_n_returned (ee_total event)) (aggregate_time_millis (et_execution_time (ee_total event)) mod 2 ^ 64)"

fun explain_error_trace :: "Command \<Rightarrow> 'e ExplainError \<Rightarrow> 'e explain_trace" where
  "explain_error_trace command (InnerService e) = TraceInner WARN command e"
| "explain_error_trace command (ParseFailed e) = TraceParse WARN command e"
| "explain_error_trace command (Server e) = TraceServer WARN command e"
| "explain_error_trace command (IdsExhausted _) = TraceExhausted WARN command"
| "explain_error_trace command (Unsupported reason) = TraceUnsupported DEBUG command reason"

definition emit_or_log ::
  "('k, 'e) ExplainSink \<Rightarrow> Command \<Rightarrow> 'e ExplainError + ExplainEvent \<Rightarrow> ('w, 'k, 'e) explain_world
   \<Rightarrow> ('w, 'k, 'e) explain_world" where
  "emit_or_log sink command result v =
     (case result of
        Inr event \<Rightarrow>
          v\<lparr>ew_trace := ew_trace v @ [explain_event_trace event],
            ew_sink := sink_record sink event (ew_sink v)\<rparr>
      | Inl err \<Rightarrow>
          v\<lparr>ew_trace := ew_trace v @ [explain_error_trace command err],
            ew_sink := sink_record_error sink err (ew_sink v)\<rparr>)"

text \<open>Phase 1: the command, the id and the request to send, and the counter afterwards.\<close>

type_synonym 'e prepared = "Command \<times> ExplainRequestId option \<times> ('e ExplainError + Message)"

definition prepare :: "explain_env \<Rightarrow> i32 \<Rightarrow> Message \<Rightarrow> 'e prepared option \<times> i32" where
  "prepare V counter req =
     (case classify (env_lower V) req of
        None \<Rightarrow> (None, counter)
      | Some plan \<Rightarrow>
          (case alloc_request_id counter of
             (Inl e, counter) \<Rightarrow> (Some (cr_command plan, None, Inl (IdsExhausted e)), counter)
           | (Inr rid, counter) \<Rightarrow>
               (Some (cr_command plan, Some rid,
                  case build_explain (env_bson V) plan rid of
                    Built msg \<Rightarrow> Inr msg
                  | NotBuilt r \<Rightarrow> Inl (Unsupported r)), counter)))"

definition handle_request ::
  "explain_env \<Rightarrow> ('s, 'w, 'st, 'e) service_call \<Rightarrow> ('st, 'w, 'e) reply_poll \<Rightarrow> ('k, 'e) ExplainSink
   \<Rightarrow> 's \<Rightarrow> Message \<Rightarrow> ('w, 'k, 'e) explain_world
   \<Rightarrow> (('e + Message list) \<times> ('w, 'k, 'e) explain_world) option" where
  "handle_request V call poll_next sink inner req v =
     (let (prepared, counter) = prepare V (ew_counter v) req;
          v = v\<lparr>ew_counter := counter\<rparr> in
      case call_and_drain call poll_next inner req (ew_inner v) of
        None \<Rightarrow> None
      | Some (Inl e, inner, w) \<Rightarrow> Some (Inl e, v\<lparr>ew_inner := w\<rparr>)
      | Some (Inr replies, inner, w) \<Rightarrow>
          let v = v\<lparr>ew_inner := w\<rparr> in
          (case prepared of
             None \<Rightarrow> Some (Inr replies, v)
           | Some (command, explain_request_id, Inl prebuilt_err) \<Rightarrow>
               Some (Inr replies, emit_or_log sink command (Inl prebuilt_err) v)
           | Some (command, explain_request_id, Inr explain_msg) \<Rightarrow>
               (case run_explain V call poll_next inner command explain_msg (msg_request_id req)
                       explain_request_id (ew_inner v) of
                  None \<Rightarrow> None
                | Some (result, inner, w) \<Rightarrow>
                    Some (Inr replies, emit_or_log sink command result (v\<lparr>ew_inner := w\<rparr>)))))"

record ('s, 'k, 'e) ExplainService =
  es_inner :: 's
  es_sink :: "('k, 'e) ExplainSink"

text \<open>\<open>ExplainLayer::layer\<close> makes the service and a fresh counter.\<close>

definition ExplainLayer_layer :: "('k, 'e) ExplainSink \<Rightarrow> 's \<Rightarrow> ('s, 'k, 'e) ExplainService \<times> i32" where
  "ExplainLayer_layer sink inner = (\<lparr>es_inner = inner, es_sink = sink\<rparr>, initial_request_id)"

text \<open>The future works on a clone of the inner service, so the service itself keeps its state. A
  future that never completes is pending; the world paired with it then stands for one that nobody
  observes, since the caller waits for ever.\<close>

definition ExplainService_call ::
  "explain_env \<Rightarrow> ('s, 'w, 'st, 'e) service_call \<Rightarrow> ('st, 'w, 'e) reply_poll
   \<Rightarrow> (('s, 'k, 'e) ExplainService, ('w, 'k, 'e) explain_world, Message list, 'e) service_call" where
  "ExplainService_call V call poll_next svc req v =
     (case handle_request V call poll_next (es_sink svc) (es_inner svc) req v of
        None \<Rightarrow> (Pending, svc, v)
      | Some (Inl e, v) \<Rightarrow> (Ready (Inl e), svc, v)
      | Some (Inr replies, v) \<Rightarrow> (Ready (Inr replies), svc, v))"

section \<open>Buffering replays the stream\<close>

lemma drain_yields:
  "stream_yields poll_next st w ms w' \<Longrightarrow> drain_stream poll_next st w out = Some (Inr (out @ ms), w')"
proof (induction arbitrary: out rule: stream_yields.induct)
  case (finished s w s' w')
  then show ?case by (subst drain_stream.simps) simp
next
  case (waiting s w s1 w1 ms w')
  then show ?case by (subst drain_stream.simps) simp
next
  case (item s w m s1 w1 ms w')
  then show ?case by (subst drain_stream.simps) simp
qed

text \<open>What the future of the layer returns is what it would return without the explain.\<close>

lemma call_and_drain_answers:
  "answers call poll_next inner w req ms inner' w' \<Longrightarrow>
   call_and_drain call poll_next inner req w = Some (Inr ms, inner', w')"
  by (auto simp: answers_def call_and_drain_def drain_yields)

lemma replay_yields: "stream_yields ReplayStream_poll_next ms w ms w"
  by (induction ms) (auto intro: stream_yields.intros)

text \<open>A stream that never ends is drained for ever.\<close>

lemma drain_endless:
  assumes "drain_stream poll_next st w out = Some y" "I st w"
    and "\<And>s w r s' w'. I s w \<Longrightarrow> poll_next s w = (r, s', w') \<Longrightarrow>
      I s' w' \<and> (r = Pending \<or> (\<exists>m. r = Ready (Some (Inr m))))"
  shows False
proof -
  have "(\<forall>s w r s' w'. I s w \<longrightarrow> poll_next s w = (r, s', w') \<longrightarrow>
      I s' w' \<and> (r = Pending \<or> (\<exists>m. r = Ready (Some (Inr m))))) \<longrightarrow> \<not> I st w"
  proof (rule drain_stream.raw_induct [OF _ assms(1),
      of "\<lambda>poll_next st w out y. (\<forall>s w r s' w'. I s w \<longrightarrow> poll_next s w = (r, s', w') \<longrightarrow>
        I s' w' \<and> (r = Pending \<or> (\<exists>m. r = Ready (Some (Inr m))))) \<longrightarrow> \<not> I st w"], goal_cases)
    case (1 f poll_next st w out y)
    obtain q s1 w1 where p: "poll_next st w = (q, s1, w1)" by (cases "poll_next st w")
    show ?case
    proof (intro impI notI)
      assume e: "\<forall>s w r s' w'. I s w \<longrightarrow> poll_next s w = (r, s', w') \<longrightarrow>
        I s' w' \<and> (r = Pending \<or> (\<exists>m. r = Ready (Some (Inr m))))" and "I st w"
      with p have i: "I s1 w1" and q: "q = Pending \<or> (\<exists>m. q = Ready (Some (Inr m)))" by blast+
      from q 1(2) p obtain out' where "f poll_next s1 w1 out' = Some y" by auto
      from 1(1) [OF this] e i show False by blast
    qed
  qed
  with assms(2,3) show False by blast
qed

section \<open>The sideband requests\<close>

definition sideband :: "explain_env \<Rightarrow> i32 \<Rightarrow> Message \<Rightarrow> Message list" where
  "sideband V counter req =
     (case classify (env_lower V) req of
        None \<Rightarrow> []
      | Some plan \<Rightarrow>
          (case alloc_request_id counter of
             (Inr rid, _) \<Rightarrow> (case build_explain (env_bson V) plan rid of Built msg \<Rightarrow> [msg] | _ \<Rightarrow> [])
           | _ \<Rightarrow> []))"

definition next_counter :: "explain_env \<Rightarrow> i32 \<Rightarrow> Message \<Rightarrow> i32" where
  "next_counter V counter req =
     (case classify (env_lower V) req of None \<Rightarrow> counter | Some _ \<Rightarrow> snd (alloc_request_id counter))"

lemma prepare_sideband:
  "(\<exists>command rid e. prepare V counter req = (Some (command, rid, Inl e), next_counter V counter req) \<and>
      sideband V counter req = []) \<or>
   (\<exists>command rid msg. prepare V counter req = (Some (command, rid, Inr msg), next_counter V counter req) \<and>
      sideband V counter req = [msg]) \<or>
   prepare V counter req = (None, next_counter V counter req) \<and> sideband V counter req = []"
  by (auto simp: prepare_def sideband_def next_counter_def
      split: option.splits prod.splits sum.splits BuildExplainOutcome.splits)

lemma emit_or_log_worlds [simp]:
  "ew_inner (emit_or_log sink command result v) = ew_inner v"
  "ew_counter (emit_or_log sink command result v) = ew_counter v"
  by (simp_all add: emit_or_log_def split: sum.splits)

text \<open>The client sees the outcome of its own request, whatever becomes of the explain, provided
  that this comes to an end.\<close>

lemma handle_request_outcome:
  fixes v :: "('w, 'k, 'e) explain_world"
  assumes "call_and_drain call poll_next inner req (ew_inner v) = Some (r, inner', w')"
    and "\<And>msg. msg \<in> set (sideband V (ew_counter v) req) \<Longrightarrow> call_and_drain call poll_next inner' msg w' \<noteq> None"
  shows "\<exists>v'. handle_request V call poll_next sink inner req v = Some (r, v') \<and>
    ew_counter v' = next_counter V (ew_counter v) req"
proof -
  let ?p = "prepare V (ew_counter v) req :: 'e prepared option \<times> i32"
  from prepare_sideband [of V "ew_counter v" req, where ?'a = 'e] consider
    command rid e where "?p = (Some (command, rid, Inl e), next_counter V (ew_counter v) req)"
  | command rid msg where "?p = (Some (command, rid, Inr msg), next_counter V (ew_counter v) req)"
      "sideband V (ew_counter v) req = [msg]"
  | "?p = (None, next_counter V (ew_counter v) req)"
    by blast
  then show ?thesis
  proof cases
    case 2
    with assms(2) obtain x where "call_and_drain call poll_next inner' msg w' = Some x" by auto
    with 2 assms(1) show ?thesis
      by (cases r; cases x) (simp_all add: handle_request_def run_explain_def)
  qed (use assms(1) in \<open>cases r; simp add: handle_request_def\<close>)+
qed

lemma handle_request_error:
  fixes v :: "('w, 'k, 'e) explain_world"
  assumes "call_and_drain call poll_next inner req (ew_inner v) = Some (Inl e, inner', w')"
  shows "\<exists>v'. handle_request V call poll_next sink inner req v = Some (Inl e, v')"
  using assms by (simp add: handle_request_def split: prod.split)

lemma handle_request_stuck:
  fixes v :: "('w, 'k, 'e) explain_world"
  assumes "call_and_drain call poll_next inner req (ew_inner v) = Some (r, inner', w')" "\<not> isl r"
    and "msg \<in> set (sideband V (ew_counter v) req)" "call_and_drain call poll_next inner' msg w' = None"
  shows "handle_request V call poll_next sink inner req v = None"
proof -
  let ?p = "prepare V (ew_counter v) req :: 'e prepared option \<times> i32"
  from prepare_sideband [of V "ew_counter v" req, where ?'a = 'e] assms(3) obtain command rid where
    "?p = (Some (command, rid, Inr msg), next_counter V (ew_counter v) req)"
    by auto
  moreover obtain replies where "r = Inr replies" using assms(2) by (cases r) auto
  ultimately show ?thesis using assms(1,4) by (simp add: handle_request_def run_explain_def)
qed

lemma explain_answers:
  fixes v :: "('w, 'k, 'e) explain_world"
  assumes "answers_all call poll_next (es_inner svc) (ew_inner v) (req # sideband V (ew_counter v) req)
      (ms # xss) inner' w'"
  shows "\<exists>v'. answers (ExplainService_call V call poll_next) ReplayStream_poll_next svc v req ms svc v' \<and>
    ew_inner v' = w' \<and> ew_counter v' = next_counter V (ew_counter v) req"
proof -
  from assms obtain inner1 w1 where a: "answers call poll_next (es_inner svc) (ew_inner v) req ms inner1 w1"
    and b: "answers_all call poll_next inner1 w1 (sideband V (ew_counter v) req) xss inner' w'"
    by (auto simp: answers_all_Cons)
  note c = call_and_drain_answers [OF a]
  let ?p = "prepare V (ew_counter v) req :: 'e prepared option \<times> i32" and ?n = "next_counter V (ew_counter v) req"
  have ended: "w' = w1" if "sideband V (ew_counter v) req = []"
    using b that by (auto simp: answers_all_Nil)
  have asked: "\<exists>xs. answers call poll_next inner1 w1 msg xs inner' w'" if "sideband V (ew_counter v) req = [msg]" for msg
    using b that by (auto simp: answers_all_Nil answers_all_Cons)
  from prepare_sideband [of V "ew_counter v" req, where ?'a = 'e] consider
    command rid e where "?p = (Some (command, rid, Inl e), ?n)" "w' = w1"
  | command rid msg xs where "?p = (Some (command, rid, Inr msg), ?n)"
      "answers call poll_next inner1 w1 msg xs inner' w'"
  | "?p = (None, ?n)" "w' = w1"
    using ended asked by blast
  then have "\<exists>v'. handle_request V call poll_next (es_sink svc) (es_inner svc) req v = Some (Inr ms, v') \<and>
      ew_inner v' = w' \<and> ew_counter v' = ?n"
  proof cases
    case 2
    with call_and_drain_answers [OF 2(2)] c show ?thesis by (simp add: handle_request_def run_explain_def)
  qed (use c in \<open>simp_all add: handle_request_def\<close>)
  then show ?thesis
    using replay_yields by (fastforce simp: answers_def ExplainService_call_def)
qed

section \<open>The wrapped command\<close>

lemma known_command_not_stripped:
  "from_command_name lower s = Some c \<Longrightarrow> \<not> should_strip_from_inner s"
proof -
  assume "from_command_name lower s = Some c"
  then have "s \<in> fst ` set Command_arms"
    unfolding from_command_name_iff using map_of_SomeD by force
  moreover have "\<forall>k \<in> fst ` set Command_arms. \<not> should_strip_from_inner k" by code_simp
  ultimately show ?thesis by blast
qed

lemma batch_ident_not_stripped: "batch_ident c = Some i \<Longrightarrow> \<not> should_strip_from_inner i"
  by (auto simp: batch_ident_def should_strip_from_inner_def STRIPPED_FIELDS_def split: Command.splits)

lemma classify_SomeD:
  assumes "classify lower req = Some plan"
  shows "\<exists>m name db. msg_operation req = Operation_Message m \<and>
    \<not> flags_contains (om_flags m) MORE_TO_COME \<and> find_body (om_sections m) = Some (cr_body plan) \<and>
    first_key (cr_body plan) = Some name \<and> from_command_name lower name = Some (cr_command plan) \<and>
    get_str (cr_body plan) ''$db'' = Some db \<and> str_trim db \<noteq> [] \<and>
    cr_database plan = Database (str_trim db) \<and> cr_doc_sequences plan = om_sections m"
  using assms
  by (auto simp: classify_def OperationMessage_command_name_def bind_eq_Some_conv Database_try_new_eq
      split: Operation.splits if_splits)

lemma doc_simps:
  "doc_keys [] = []" "doc_keys ((k, v) # d) = k # doc_keys d"
  "doc_get [] = Map.empty" "doc_get ((k, v) # d) = (doc_get d)(k \<mapsto> v)"
  by (auto simp: doc_keys_def doc_get_def)

context bson_document
begin

lemma insert_all:
  "distinct (doc_keys body) \<Longrightarrow> set (doc_keys body) \<inter> set (doc_keys inner) = {} \<Longrightarrow>
   doc_get (fold (\<lambda>(k, v) inner. if should_strip_from_inner k then inner else doc_insert B inner k v) body inner) =
     (\<lambda>k. if should_strip_from_inner k \<or> k \<notin> set (doc_keys body) then doc_get inner k else doc_get body k) \<and>
   doc_keys (fold (\<lambda>(k, v) inner. if should_strip_from_inner k then inner else doc_insert B inner k v) body inner) =
     doc_keys inner @ filter (\<lambda>k. \<not> should_strip_from_inner k) (doc_keys body)"
proof (induction body arbitrary: inner)
  case (Cons e body)
  obtain k v where e: "e = (k, v)" by (cases e)
  let ?i = "if should_strip_from_inner k then inner else doc_insert B inner k v"
  from Cons.prems e have d: "distinct (doc_keys body)" "set (doc_keys body) \<inter> set (doc_keys ?i) = {}"
    by (auto simp: doc_simps keys_insert)
  from Cons.IH [OF d] Cons.prems show ?case
    by (auto simp: e doc_simps get_insert keys_insert fun_eq_iff)
qed (simp add: doc_simps)

text \<open>The wrapped command is the client's command without the stripped fields, with the single
  write of a batch folded in.\<close>

lemma inner_command_get:
  assumes "distinct (doc_keys (cr_body plan))"
  shows "doc_get (inner_command B plan) k =
    (case Option.bind (batch_ident (cr_command plan))
            (\<lambda>i. map_option (Pair i) (single_op i (cr_doc_sequences plan))) of
       Some (i, d) \<Rightarrow> if k = i then Some (Array [Document d])
                    else if should_strip_from_inner k then None else doc_get (cr_body plan) k
     | None \<Rightarrow> if should_strip_from_inner k then None else doc_get (cr_body plan) k)"
proof -
  have "doc_get d k = None" if "k \<notin> set (doc_keys d)" for d
    using that by (simp add: doc_get_def doc_keys_def map_of_eq_None_iff)
  with insert_all [OF assms, of "[]"] show ?thesis
    by (auto simp: inner_command_def fold_single_op_doc_sequence_def get_insert doc_simps split: option.splits)
qed

lemma inner_command_first:
  assumes "distinct (doc_keys (cr_body plan))" "first_key (cr_body plan) = Some name"
    and "\<not> should_strip_from_inner name"
  shows "first_key (inner_command B plan) = Some name"
proof -
  let ?f = "fold (\<lambda>(k, v) inner. if should_strip_from_inner k then inner else doc_insert B inner k v)
    (cr_body plan) []"
  from assms(2) obtain ks where "doc_keys (cr_body plan) = name # ks"
    by (auto simp: first_key_def split: list.splits)
  then obtain ks' where "doc_keys ?f = name # ks'"
    using insert_all [OF assms(1), of "[]"] assms(3) by (auto simp: doc_simps)
  then show ?thesis
    by (auto simp: inner_command_def fold_single_op_doc_sequence_def first_key_def keys_insert
        split: option.splits)
qed

lemma envelope:
  "doc_keys (doc_insert B (doc_insert B (doc_insert B [] ''explain'' a) ''verbosity'' b) ''$db'' c) =
     [''explain'', ''verbosity'', ''$db'']"
  "doc_get (doc_insert B (doc_insert B (doc_insert B [] ''explain'' a) ''verbosity'' b) ''$db'' c) =
     [''explain'' \<mapsto> a, ''verbosity'' \<mapsto> b, ''$db'' \<mapsto> c]"
  by (simp_all add: keys_insert get_insert doc_simps)

end

section \<open>Properties\<close>

definition sample_env :: explain_env where
  "sample_env = \<lparr>env_bson = reference_bson,
     env_de = \<lparr>de_explain_reply = (\<lambda>_. Inl ''missing field''), de_server_error = (\<lambda>_. Inl ''missing field'')\<rparr>,
     env_debug = (\<lambda>_. []), env_lower = to_ascii_lowercase\<rparr>"

definition sample_update :: Message where
  "sample_update = \<lparr>msg_request_id = RequestId 7, msg_response_to = None,
     msg_operation = Operation_Message \<lparr>om_flags = 0,
       om_sections = [Body [(''update'', String ''c''), (''lsid'', Int32 1), (''$db'', String '' db'')],
         DocumentSequence ''updates'' [[(''q'', Int32 1)]]],
       om_checksum = None\<rparr>\<rparr>"

definition sample_world :: "(unit + Message) option poll list \<Rightarrow> ((unit + Message) option poll list, unit, unit) explain_world" where
  "sample_world w = \<lparr>ew_inner = w, ew_counter = initial_request_id, ew_sink = (), ew_trace = []\<rparr>"

definition ready_call :: "(unit, 'w, unit, 'e) service_call" where
  "ready_call s req w = (Ready (Inr ()), s, w)"

lemma playback_drained:
  "call_and_drain ready_call playback () req (map (\<lambda>m. Ready (Some (Inr m))) ms) = Some (Inr ms, (), [])"
proof -
  have "stream_yields playback () (map (\<lambda>m. Ready (Some (Inr m))) ms) ms []"
    by (induction ms) (auto intro: stream_yields.intros)
  from drain_yields [OF this, of "[]"] show ?thesis by (simp add: call_and_drain_def ready_call_def)
qed

text \<open>C13. The inspector does not change what the client gets, except by keeping it waiting. Once the client's
  own request has an outcome on the inner service, error or replies, this is the outcome of the call,
  whether the request is explainable or not and whatever the sideband explain comes to (it may
  be refused, fail, be rejected or be unreadable). There is no timeout: if the request succeeded
  and its explain never ends, the call never completes.\<close>

theorem explain_isolated:
  fixes v :: "('w, 'k, 'e) explain_world"
  assumes "call_and_drain call poll_next (es_inner svc) req (ew_inner v) = Some (r, inner', w')"
  shows "if \<not> isl r \<and> (\<exists>msg \<in> set (sideband V (ew_counter v) req). call_and_drain call poll_next inner' msg w' = None)
    then fst (ExplainService_call V call poll_next svc req v) = Pending
    else (\<exists>v'. ExplainService_call V call poll_next svc req v = (Ready r, svc, v'))"
proof (cases "\<not> isl r \<and> (\<exists>msg \<in> set (sideband V (ew_counter v) req). call_and_drain call poll_next inner' msg w' = None)")
  case True
  then have "handle_request V call poll_next (es_sink svc) (es_inner svc) req v = None"
    using handle_request_stuck [OF assms] by blast
  with True show ?thesis by (simp add: ExplainService_call_def)
next
  case False
  have "\<exists>v'. handle_request V call poll_next (es_sink svc) (es_inner svc) req v = Some (r, v')"
  proof (cases r)
    case (Inl e)
    from handle_request_error [OF assms [unfolded Inl], of V "es_sink svc"] show ?thesis by (simp add: Inl)
  next
    case (Inr replies)
    with False have "call_and_drain call poll_next inner' msg w' \<noteq> None"
      if "msg \<in> set (sideband V (ew_counter v) req)" for msg
      using that by auto
    from handle_request_outcome [OF assms this] show ?thesis by blast
  qed
  then obtain v' where "handle_request V call poll_next (es_sink svc) (es_inner svc) req v = Some (r, v')" by blast
  then have "\<exists>v'. ExplainService_call V call poll_next svc req v = (Ready r, svc, v')"
    by (cases r) (simp_all add: ExplainService_call_def)
  with False show ?thesis by (simp only: if_False)
qed

theorem explain_isolated_witness:
  "\<exists>v'. ExplainService_call sample_env ready_call playback \<lparr>es_inner = (), es_sink = TracingOnly\<rparr> sample_update
     (sample_world [Ready (Some (Inr ping_message))]) =
   (Ready (Inr [ping_message]), \<lparr>es_inner = (), es_sink = TracingOnly\<rparr>, v')"
proof -
  let ?svc = "\<lparr>es_inner = (), es_sink = TracingOnly\<rparr>" and ?v = "sample_world [Ready (Some (Inr ping_message))]"
  have c: "call_and_drain ready_call playback (es_inner ?svc) sample_update (ew_inner ?v) = Some (Inr [ping_message], (), [])"
    using playback_drained [of sample_update "[ping_message]"] by (simp add: sample_world_def)
  have "call_and_drain ready_call playback () msg ([] :: (unit + Message) option poll list) \<noteq> None" for msg
    using playback_drained [of msg "[]", where ?'a = unit] by simp
  with explain_isolated [OF c, of sample_env] show ?thesis by simp
qed

text \<open>C14. The explain request wraps the client's command and nothing else. It has a negative id, no
  flags, and the envelope \<open>explain\<close>, \<open>verbosity\<close>, \<open>$db\<close> in this order; the wrapped command starts
  with the name of the client's command, has every field of it except the session,
  transaction and routing fields, and the single write of a batch folded in.\<close>

theorem explain_request_faithful:
  assumes "bson_document B" "classify lower req = Some plan" "distinct (doc_keys (cr_body plan))"
    and "ExplainRequestId_valid (explain_request_id_inner rid)" "build_explain B plan rid = Built m"
  shows "\<exists>envelope inner.
    m = \<lparr>msg_request_id = RequestId_from_explain rid, msg_response_to = None,
      msg_operation = Operation_Message \<lparr>om_flags = 0, om_sections = [Body envelope], om_checksum = None\<rparr>\<rparr> \<and>
    sint (request_id_inner (msg_request_id m)) < 0 \<and>
    doc_keys envelope = [''explain'', ''verbosity'', ''$db''] \<and>
    doc_get envelope ''explain'' = Some (Document inner) \<and>
    doc_get envelope ''verbosity'' = Some (String ''executionStats'') \<and>
    map_option str_trim (get_str (cr_body plan) ''$db'') = get_str envelope ''$db'' \<and>
    first_key inner = Operation_command_name (msg_operation req) \<and>
    (\<forall>k. doc_get inner k =
      (if k \<in> set STRIPPED_FIELDS then None
       else case Option.bind (batch_ident (cr_command plan)) (\<lambda>i. if k = i then single_op i (cr_doc_sequences plan) else None) of
         Some d \<Rightarrow> Some (Array [Document d])
       | None \<Rightarrow> doc_get (cr_body plan) k))"
proof -
  from classify_SomeD [OF assms(2)] obtain om name db where c:
    "msg_operation req = Operation_Message om" "find_body (om_sections om) = Some (cr_body plan)"
    "first_key (cr_body plan) = Some name" "from_command_name lower name = Some (cr_command plan)"
    "get_str (cr_body plan) ''$db'' = Some db" "cr_database plan = Database (str_trim db)"
    by blast
  let ?inner = "inner_command B plan"
  let ?env = "doc_insert B (doc_insert B (doc_insert B [] ''explain'' (Document ?inner)) ''verbosity''
    (String ''executionStats'')) ''$db'' (String (str_trim db))"
  have m: "m = \<lparr>msg_request_id = RequestId_from_explain rid, msg_response_to = None,
      msg_operation = Operation_Message \<lparr>om_flags = 0, om_sections = [Body ?env], om_checksum = None\<rparr>\<rparr>"
    using assms(5) c(6) by (auto simp: build_explain_def EXPLAIN_VERBOSITY_def Let_def split: if_splits)
  have "sint (request_id_inner (msg_request_id m)) < 0"
    using assms(4) by (simp add: m RequestId_from_explain_def ExplainRequestId_valid_def)
  moreover have "first_key ?inner = Operation_command_name (msg_operation req)"
    using bson_document.inner_command_first [OF assms(1,3) c(3) known_command_not_stripped [OF c(4)]] c(1,2,3)
    by (simp add: OperationMessage_command_name_def)
  moreover have "get_str ?env ''$db'' = Some (str_trim db)"
    by (simp add: get_str_def bson_document.envelope [OF assms(1)])
  moreover have "doc_get ?inner k =
      (if k \<in> set STRIPPED_FIELDS then None
       else case Option.bind (batch_ident (cr_command plan)) (\<lambda>i. if k = i then single_op i (cr_doc_sequences plan) else None) of
         Some d \<Rightarrow> Some (Array [Document d])
       | None \<Rightarrow> doc_get (cr_body plan) k)" for k
    using bson_document.inner_command_get [OF assms(1,3), of k] batch_ident_not_stripped [of "cr_command plan"]
    by (cases "batch_ident (cr_command plan)") (auto simp: should_strip_from_inner_def split: option.splits)
  ultimately show ?thesis
    using m c(5) by (intro exI2 [of _ ?env ?inner]) (simp add: bson_document.envelope [OF assms(1)])
qed

theorem explain_request_faithful_witness:
  "\<exists>envelope inner. build_explain reference_bson
       \<lparr>cr_command = Command_Update, cr_database = Database ''db'',
         cr_body = [(''update'', String ''c''), (''lsid'', Int32 1), (''$db'', String '' db'')],
         cr_doc_sequences = [Body [(''update'', String ''c''), (''lsid'', Int32 1), (''$db'', String '' db'')],
           DocumentSequence ''updates'' [[(''q'', Int32 1)]]]\<rparr> (ExplainRequestId (-2)) =
     Built \<lparr>msg_request_id = RequestId (-2), msg_response_to = None,
       msg_operation = Operation_Message \<lparr>om_flags = 0, om_sections = [Body envelope], om_checksum = None\<rparr>\<rparr> \<and>
     doc_get envelope ''explain'' = Some (Document inner) \<and> first_key inner = Some ''update'' \<and>
     doc_get inner ''lsid'' = None \<and> doc_get inner ''updates'' = Some (Array [Document [(''q'', Int32 1)]])"
proof -
  let ?plan = "\<lparr>cr_command = Command_Update, cr_database = Database ''db'',
    cr_body = [(''update'', String ''c''), (''lsid'', Int32 1), (''$db'', String '' db'')],
    cr_doc_sequences = [Body [(''update'', String ''c''), (''lsid'', Int32 1), (''$db'', String '' db'')],
      DocumentSequence ''updates'' [[(''q'', Int32 1)]]]\<rparr>"
  have b: "bson_document reference_bson" by unfold_locales
  have c: "classify to_ascii_lowercase sample_update = Some ?plan" by code_simp
  have d: "distinct (doc_keys (cr_body ?plan))" by code_simp
  have i: "ExplainRequestId_valid (explain_request_id_inner (ExplainRequestId (-2)))" by code_simp
  have n: "\<not> is_multi_op_write_batch (cr_command ?plan) (cr_doc_sequences ?plan)" by code_simp
  obtain m where m: "build_explain reference_bson ?plan (ExplainRequestId (-2)) = Built m"
    using n by (simp add: build_explain_def Let_def)
  have k: "''lsid'' \<in> set STRIPPED_FIELDS" "''updates'' \<notin> set STRIPPED_FIELDS"
    "single_op ''updates'' (cr_doc_sequences ?plan) = Some [(''q'', Int32 1)]"
    "batch_ident (cr_command ?plan) = Some ''updates''"
    "Operation_command_name (msg_operation sample_update) = Some ''update''"
    by code_simp+
  from explain_request_faithful [OF b c d i m] obtain envelope inner where
    e: "m = \<lparr>msg_request_id = RequestId (-2), msg_response_to = None,
       msg_operation = Operation_Message \<lparr>om_flags = 0, om_sections = [Body envelope], om_checksum = None\<rparr>\<rparr>"
      "doc_get envelope ''explain'' = Some (Document inner)" "first_key inner = Some ''update''"
    and g: "\<And>k. doc_get inner k =
      (if k \<in> set STRIPPED_FIELDS then None
       else case Option.bind (batch_ident (cr_command ?plan)) (\<lambda>i. if k = i then single_op i (cr_doc_sequences ?plan) else None) of
         Some d \<Rightarrow> Some (Array [Document d])
       | None \<Rightarrow> doc_get (cr_body ?plan) k)"
    unfolding k(5) by (auto simp: RequestId_from_explain_def)
  have "doc_get inner ''lsid'' = None" "doc_get inner ''updates'' = Some (Array [Document [(''q'', Int32 1)]])"
    using g [of "''lsid''"] g [of "''updates''"] k by simp_all
  with e m show ?thesis by blast
qed

text \<open>C22. The inspector buffers: a reply stream that does not end, as an exhaust cursor or a
  streaming \<open>hello\<close> opens it, never reaches the client. Without the layer its replies
  are forwarded one by one; with it the call stays pending for ever, for every
  request, explainable or not.\<close>

theorem endless_stream_stalls:
  assumes "call (es_inner svc) req (ew_inner v) = (Ready (Inr st), inner', w')" "I st w'"
    and "\<And>s w r s' w'. I s w \<Longrightarrow> poll_next s w = (r, s', w') \<Longrightarrow>
      I s' w' \<and> (r = Pending \<or> (\<exists>m. r = Ready (Some (Inr m))))"
  shows "ExplainService_call V call poll_next svc req v = (Pending, svc, v)"
proof -
  have "drain_stream poll_next st w' [] = None"
    using drain_endless [of poll_next st w' "[]" _ I] assms(2,3) by (meson not_None_eq)
  with assms(1) have "call_and_drain call poll_next (es_inner svc) req (ew_inner v) = None"
    by (simp add: call_and_drain_def)
  then show ?thesis by (simp add: ExplainService_call_def handle_request_def split: prod.splits)
qed

theorem endless_stream_stalls_witness:
  "ExplainService_call sample_env ready_call (\<lambda>s w. (Ready (Some (Inr ping_message)), s, w))
     \<lparr>es_inner = (), es_sink = TracingOnly\<rparr> ping_message (sample_world []) =
   (Pending, \<lparr>es_inner = (), es_sink = TracingOnly\<rparr>, sample_world [])"
  by (rule endless_stream_stalls [where I = "\<lambda>_ _. True"]) (auto simp: ready_call_def)

end
