(* ===== verification/Logger.thy ===== *)
theory Logger
  imports Serve Proxy Log Explain
begin

text \<open>
  The programs that run the proxy: the \<open>logger\<close> binary (\<open>src/logger/src/\<close>) and the set-up of the sample
  inspector (\<open>src/examples/explain.rs\<close>), with the convenience constructors of \<open>Proxy\<close> that they use.
  The process environment is a function from names to values, \<open>None\<close> for a variable that is
  unset or not Unicode. Binding the socket and installing the subscriber are left to arguments; the
  subscriber is described by the calls that build it.
\<close>

section \<open>Layers by name (\<open>Proxy\<close> of \<open>serve/service.rs\<close>)\<close>

datatype ('k, 'e) layer = LogLayer | ExplainLayer "('k, 'e) ExplainSink"

definition ExplainLayer_new :: "('k, 'e) layer" where
  "ExplainLayer_new = ExplainLayer TracingOnly"

definition ExplainLayer_with_sink :: "('k, 'e) ExplainSink \<Rightarrow> ('k, 'e) layer" where
  "ExplainLayer_with_sink sink = ExplainLayer sink"

definition enable_logging :: "('roots, ('k, 'e) layer) Proxy \<Rightarrow> ('roots, ('k, 'e) layer) Proxy" where
  "enable_logging p = add_layer p LogLayer"

definition enable_explain :: "('roots, ('k, 'e) layer) Proxy \<Rightarrow> ('roots, ('k, 'e) layer) Proxy" where
  "enable_explain p = add_layer p ExplainLayer_new"

definition enable_explain_with_sink ::
  "('roots, ('k, 'e) layer) Proxy \<Rightarrow> ('k, 'e) ExplainSink \<Rightarrow> ('roots, ('k, 'e) layer) Proxy" where
  "enable_explain_with_sink p sink = add_layer p (ExplainLayer_with_sink sink)"

section \<open>The subscriber (\<open>logger/src/log.rs\<close>)\<close>

type_synonym environment = "string \<Rightarrow> string option"

definition ENV_LOG_FORMAT :: string where "ENV_LOG_FORMAT = ''MONGOD_PROXY_LOG_FORMAT''"

text \<open>\<open>from_env\<close> is what \<open>EnvFilter::try_from_default_env\<close> gives, \<open>new_filter\<close> is \<open>EnvFilter::new\<close>.\<close>

definition make_env_filter :: "string + 'f \<Rightarrow> (string \<Rightarrow> 'f) \<Rightarrow> 'f" where
  "make_env_filter from_env new_filter = (case from_env of Inr f \<Rightarrow> f | Inl _ \<Rightarrow> new_filter ''info'')"

definition want_json :: "string option \<Rightarrow> bool" where
  "want_json format = (case format of None \<Rightarrow> False | Some v \<Rightarrow> eq_ignore_ascii_case v ''json'')"

datatype fmt_call =
    Json | Pretty | With_ansi bool | With_file bool | With_target bool | With_thread_ids bool
  | With_thread_names bool

definition make_fmt_layer :: "bool \<Rightarrow> bool \<Rightarrow> fmt_call list" where
  "make_fmt_layer json use_ansi =
     (if json then [Json, With_target False, With_thread_ids False, With_thread_names False]
      else [Pretty, With_ansi use_ansi, With_file False, With_target False, With_thread_ids False,
            With_thread_names False])"

definition log_setup :: "environment \<Rightarrow> string + 'f \<Rightarrow> (string \<Rightarrow> 'f) \<Rightarrow> bool \<Rightarrow> 'f \<times> fmt_call list" where
  "log_setup env from_env new_filter is_terminal =
     (let filter = make_env_filter from_env new_filter;
          json = want_json (env ENV_LOG_FORMAT) in
      (filter, make_fmt_layer json is_terminal))"

section \<open>The logger binary (\<open>logger/src/main.rs\<close>)\<close>

definition ENV_LISTEN :: string where "ENV_LISTEN = ''MONGOD_PROXY_LISTEN''"
definition ENV_UPSTREAM_URI :: string where "ENV_UPSTREAM_URI = ''MONGOD_PROXY_UPSTREAM_URI''"
definition DEFAULT_LISTEN :: string where "DEFAULT_LISTEN = ''127.0.0.1:27018''"
definition DEFAULT_UPSTREAM_URI :: string where "DEFAULT_UPSTREAM_URI = ''mongodb://localhost:27017/''"

text \<open>An \<open>anyhow\<close> error is the chain of its texts, outermost context first.\<close>

type_synonym error_chain = "string list"

definition with_context :: "('e \<Rightarrow> string) \<Rightarrow> string \<Rightarrow> 'e + 'a \<Rightarrow> error_chain + 'a" where
  "with_context display context r = map_err (\<lambda>e. [context, display e]) r"

text \<open>\<open>main\<close> up to the point where \<open>serve\<close> runs: the listener and the proxy, with the interval of its
  fail-over loop if it has one.\<close>

definition logger_main ::
  "codec_text \<Rightarrow> environment \<Rightarrow> (string \<Rightarrow> io_error + 'listener)
   \<Rightarrow> (string \<Rightarrow> FromUriError + ('roots, ('k, 'e) layer) Proxy \<times> duration option)
   \<Rightarrow> error_chain + ('listener, ('roots, ('k, 'e) layer) Proxy \<times> duration option) Serve" where
  "logger_main T env bind proxy_from_uri =
     (let listen_addr = unwrap_or (env ENV_LISTEN) DEFAULT_LISTEN;
          upstream_uri = unwrap_or (env ENV_UPSTREAM_URI) DEFAULT_UPSTREAM_URI in
      res_bind (with_context id (''bind tcp socket on '' @ listen_addr) (bind listen_addr)) (\<lambda>listener.
      res_bind (with_context (FromUriError_display T)
          (''build proxy from '' @ ENV_UPSTREAM_URI @ ''=`'' @ upstream_uri @ ''`'')
          (proxy_from_uri (str_trim upstream_uri))) (\<lambda>(proxy, interval).
      Inr (serve listener (enable_logging proxy, interval)))))"

text \<open>What running the \<open>Serve\<close> ends with, as \<open>main\<close> reports it.\<close>

fun ServeError_display :: "ServeError \<Rightarrow> string" where
  "ServeError_display (Accept e) = ''failed to accept incoming connection: '' @ e"

definition logger_result :: "ServeError + unit \<Rightarrow> error_chain + unit" where
  "logger_result r = with_context ServeError_display ''run mongodb proxy'' r"

section \<open>The sample inspector (\<open>examples/explain.rs\<close>)\<close>

definition ENV_UPSTREAM_HOST :: string where "ENV_UPSTREAM_HOST = ''MONGOD_PROXY_UPSTREAM_HOST''"
definition ENV_UPSTREAM_PORT :: string where "ENV_UPSTREAM_PORT = ''MONGOD_PROXY_UPSTREAM_PORT''"
definition ENV_TLS :: string where "ENV_TLS = ''MONGOD_PROXY_TLS''"
definition DEFAULT_UPSTREAM_HOST :: string where "DEFAULT_UPSTREAM_HOST = ''127.0.0.1''"
definition DEFAULT_UPSTREAM_PORT :: u16 where "DEFAULT_UPSTREAM_PORT = 27017"
definition DEFAULT_TLS :: bool where "DEFAULT_TLS = False"

definition parse_bool_str :: "string \<Rightarrow> bool option" where
  "parse_bool_str v = (if v = ''true'' then Some True else if v = ''false'' then Some False else None)"

definition setup_tracing :: "bool \<Rightarrow> level \<times> fmt_call list" where
  "setup_tracing use_ansi =
     (INFO, [With_ansi use_ansi, With_target False, With_thread_ids False, With_thread_names False])"

text \<open>The texts of the standard library's parse errors are arguments.\<close>

definition inspector_main ::
  "(string \<Rightarrow> string) \<Rightarrow> (string \<Rightarrow> string) \<Rightarrow> environment \<Rightarrow> (string \<Rightarrow> io_error + 'listener) \<Rightarrow> 'roots
   \<Rightarrow> ('k, 'e) ExplainSink
   \<Rightarrow> error_chain + ('listener, ('roots, ('k, 'e) layer) Proxy) Serve" where
  "inspector_main port_error bool_error env bind webpki tx =
     (let listen_addr = unwrap_or (env ENV_LISTEN) DEFAULT_LISTEN;
          upstream_host = unwrap_or (env ENV_UPSTREAM_HOST) DEFAULT_UPSTREAM_HOST in
      res_bind (case env ENV_UPSTREAM_PORT of
          Some v \<Rightarrow> with_context port_error (''invalid '' @ ENV_UPSTREAM_PORT @ '': '' @ v)
            (ok_or (parse_u16 v) v)
        | None \<Rightarrow> Inr DEFAULT_UPSTREAM_PORT) (\<lambda>upstream_port.
      res_bind (case env ENV_TLS of
          Some v \<Rightarrow> with_context bool_error (''invalid '' @ ENV_TLS @ '': '' @ v) (ok_or (parse_bool_str v) v)
        | None \<Rightarrow> Inr DEFAULT_TLS) (\<lambda>use_tls.
      res_bind (with_context id (''bind tcp socket on '' @ listen_addr) (bind listen_addr)) (\<lambda>listener.
      let tls = (if use_tls then TlsSystem else TlsDisabled);
          proxy = enable_explain_with_sink (with_tls webpki upstream_host upstream_port tls) tx in
      Inr (serve listener proxy)))))"

section \<open>Properties\<close>



text \<open>Started with nothing configured, the logger listens on \<open>127.0.0.1:27018\<close> and forwards to
  \<open>localhost:27017\<close> without TLS, with the rewriting of \<open>hello\<close> and the logging layer in place,
  whatever the resolver and the hosts would answer.\<close>

lemma logger_defaults:
  fixes webpki :: 'roots
  assumes "bind ''127.0.0.1:27018'' = Inr listener"
  shows "logger_main T (\<lambda>_. None) bind (from_uri webpki system_lookup entropy probing) =
    Inr \<lparr>sv_listener = listener,
         sv_make_service = (\<lparr>px_target = \<lparr>tg_host = ''localhost'', tg_port = 27017\<rparr>,
           px_tls_connector = None, px_rewrite_hello = True, px_layers = [LogLayer :: ('k, 'e) layer]\<rparr>, None)\<rparr>"
proof -
  have "parse (str_trim DEFAULT_UPSTREAM_URI) = Inr \<lparr>pu_scheme = Mongodb,
      pu_hosts = [\<lparr>hs_host = ''localhost'', hs_port = Some 27017\<rparr>], pu_tls = None, pu_srv_service_name = None\<rparr>"
    by code_simp
  then have "from_uri webpki system_lookup entropy probing (str_trim DEFAULT_UPSTREAM_URI) =
      Inr (with_tls webpki ''localhost'' 27017 TlsDisabled :: ('roots, ('k, 'e) layer) Proxy, None)"
    by (simp add: from_uri_def route_def opt_or_def)
  then show ?thesis
    using assms
    by (simp add: logger_main_def unwrap_or_def DEFAULT_LISTEN_def with_context_def serve_def
        enable_logging_def add_layer_def with_tls_def with_target_def)
qed

lemma logger_defaults_witness:
  "\<exists>s. logger_main \<lparr>encoder_text = (\<lambda>_. []), decoder_text = (\<lambda>_. [])\<rparr> (\<lambda>_. None)
     (\<lambda>addr. if addr = ''127.0.0.1:27018'' then Inr () else Inl ''in use'')
     (from_uri () (Inl (LookupFailure_new ''read system DNS config'' ''none'')) 0 sample_probing) =
   Inr (s :: (unit, (unit, (unit, unit) layer) Proxy \<times> duration option) Serve)"
  by (rule exI, rule logger_defaults) simp

text \<open>The logger reports a connection string it cannot use verbatim: the outermost text of
  the error contains the value of the variable, with the user and password in it.\<close>

lemma logger_error_discloses_uri:
  assumes "env ENV_UPSTREAM_URI = Some uri" "bind (unwrap_or (env ENV_LISTEN) DEFAULT_LISTEN) = Inr listener"
    and "proxy_from_uri (str_trim uri) = Inl e"
  shows "logger_main T env bind proxy_from_uri =
    Inl [''build proxy from MONGOD_PROXY_UPSTREAM_URI=`'' @ uri @ ''`'', FromUriError_display T e]"
  using assms by (simp add: logger_main_def with_context_def unwrap_or_def ENV_UPSTREAM_URI_def)

lemma logger_error_discloses_uri_witness:
  "logger_main \<lparr>encoder_text = (\<lambda>_. []), decoder_text = (\<lambda>_. [])\<rparr>
     [ENV_UPSTREAM_URI \<mapsto> ''mongodb://ann:secret@a:port/''] (\<lambda>_. Inr ())
     (from_uri () (Inl (LookupFailure_new ''read system DNS config'' ''none'')) 0 sample_probing) =
   (Inl [''build proxy from MONGOD_PROXY_UPSTREAM_URI=`mongodb://ann:secret@a:port/`'',
         ''invalid connection string: invalid port `port`'']
    :: error_chain + (unit, (unit, (unit, unit) layer) Proxy \<times> duration option) Serve)"
proof -
  have t: "str_trim ''mongodb://ann:secret@a:port/'' = ''mongodb://ann:secret@a:port/''" by code_simp
  have "parse ''mongodb://ann:secret@a:port/'' = Inl (InvalidPort ''port'')" by code_simp
  then have e: "from_uri () (Inl (LookupFailure_new ''read system DNS config'' ''none'')) 0 sample_probing
      (str_trim ''mongodb://ann:secret@a:port/'') =
    (Inl (ParseError (InvalidPort ''port''))
     :: FromUriError + (unit, (unit, unit) layer) Proxy \<times> duration option)"
    by (simp add: from_uri_def t)
  show ?thesis
    using logger_error_discloses_uri [where uri = "''mongodb://ann:secret@a:port/''"
      and env = "[ENV_UPSTREAM_URI \<mapsto> ''mongodb://ann:secret@a:port/'']" and bind = "\<lambda>_. Inr ()"
      and proxy_from_uri = "from_uri () (Inl (LookupFailure_new ''read system DNS config'' ''none'')) 0
        sample_probing", OF _ _ e]
    by simp
qed

end
