(* ===== verification/PlanPrinter.thy ===== *)
theory PlanPrinter
  imports ExplainParse
begin

text \<open>
  The plan printer of the sample binary (\<open>src/examples/explain.rs\<close>): what \<open>print_event\<close> writes to
  standard output, one string for each \<open>println!\<close>. The \<open>Debug\<close> of a string escapes by Unicode
  tables and the \<open>Debug\<close> of a document belongs to the \<open>bson\<close> crate; both are fields of
  \<open>debug_env\<close>, an argument. The derived \<open>Debug\<close> of the enumerations is written out.
\<close>

section \<open>Formatting\<close>

record debug_env =
  debug_str :: "string \<Rightarrow> string"
  debug_doc :: "document \<Rightarrow> string"

definition show_int :: "int \<Rightarrow> string" where
  "show_int n = (if n < 0 then CHR ''-'' # show_nat (nat (- n)) else show_nat (nat n))"

definition OtherName_debug :: "debug_env \<Rightarrow> OtherName \<Rightarrow> string" where
  "OtherName_debug E n = ''OtherName('' @ debug_str E (other_name_inner n) @ '')''"

fun Command_debug :: "debug_env \<Rightarrow> Command \<Rightarrow> string" where
  "Command_debug E Command_Find = ''Find''"
| "Command_debug E Command_Aggregate = ''Aggregate''"
| "Command_debug E Command_Count = ''Count''"
| "Command_debug E Command_Distinct = ''Distinct''"
| "Command_debug E Command_Update = ''Update''"
| "Command_debug E Command_Delete = ''Delete''"
| "Command_debug E Command_FindAndModify = ''FindAndModify''"
| "Command_debug E (Command_Other n) = ''Other('' @ OtherName_debug E n @ '')''"

fun ProjectionKind_debug :: "ProjectionKind \<Rightarrow> string" where
  "ProjectionKind_debug Projection_Default = ''Default''"
| "ProjectionKind_debug Projection_Simple = ''Simple''"
| "ProjectionKind_debug Projection_Covered = ''Covered''"

fun AndKind_debug :: "AndKind \<Rightarrow> string" where
  "AndKind_debug And_Sorted = ''Sorted''"
| "AndKind_debug And_Hash = ''Hash''"

fun stage_label :: "debug_env \<Rightarrow> Stage \<Rightarrow> string" where
  "stage_label E Collscan = ''Collscan''"
| "stage_label E Ixscan = ''Ixscan''"
| "stage_label E Fetch = ''Fetch''"
| "stage_label E Sort = ''Sort''"
| "stage_label E SortMerge = ''SortMerge''"
| "stage_label E Limit = ''Limit''"
| "stage_label E Skip = ''Skip''"
| "stage_label E Group = ''Group''"
| "stage_label E (Project k) = ''Project('' @ ProjectionKind_debug k @ '')''"
| "stage_label E Stage_Or = ''Or''"
| "stage_label E (Stage_And k) = ''And('' @ AndKind_debug k @ '')''"
| "stage_label E Subplan = ''Subplan''"
| "stage_label E ShardingFilter = ''ShardingFilter''"
| "stage_label E ReturnKey = ''ReturnKey''"
| "stage_label E Stage_Count = ''Count''"
| "stage_label E CountScan = ''CountScan''"
| "stage_label E DistinctScan = ''DistinctScan''"
| "stage_label E UpdateStage = ''UpdateStage''"
| "stage_label E DeleteStage = ''DeleteStage''"
| "stage_label E SbeScan = ''SbeScan''"
| "stage_label E SbeIxscan = ''SbeIxscan''"
| "stage_label E SbeIxseek = ''SbeIxseek''"
| "stage_label E SbeFetch = ''SbeFetch''"
| "stage_label E SbeFilter = ''SbeFilter''"
| "stage_label E SbeProject = ''SbeProject''"
| "stage_label E SbeGroup = ''SbeGroup''"
| "stage_label E SbeSort = ''SbeSort''"
| "stage_label E SbeLimit = ''SbeLimit''"
| "stage_label E SbeSkip = ''SbeSkip''"
| "stage_label E SbeOr = ''SbeOr''"
| "stage_label E SbeUnwind = ''SbeUnwind''"
| "stage_label E SbeHashLookup = ''SbeHashLookup''"
| "stage_label E SbeMerge = ''SbeMerge''"
| "stage_label E ExpressIxscan = ''ExpressIxscan''"
| "stage_label E ExpressClusteredIxscan = ''ExpressClusteredIxscan''"
| "stage_label E ExpressUpdate = ''ExpressUpdate''"
| "stage_label E ExpressDelete = ''ExpressDelete''"
| "stage_label E (Stage_Other n) = ''Other('' @ OtherName_debug E n @ '')''"

text \<open>The arms for variants that the library may add later (\<open>non_exhaustive\<close>) are never taken.\<close>

fun format_field_kind :: "IndexFieldKind \<Rightarrow> string" where
  "format_field_kind Ascending = ''1''"
| "format_field_kind Descending = ''-1''"
| "format_field_kind Hashed = [CHR 0x22] @ ''hashed'' @ [CHR 0x22]"
| "format_field_kind Text = [CHR 0x22] @ ''text'' @ [CHR 0x22]"
| "format_field_kind TwoDSphere = [CHR 0x22] @ ''2dsphere'' @ [CHR 0x22]"
| "format_field_kind TwoD = [CHR 0x22] @ ''2d'' @ [CHR 0x22]"
| "format_field_kind (IndexFieldKind_Other _) = ''<other>''"

definition format_key_field :: "KeyPatternField \<Rightarrow> string" where
  "format_key_field f = kp_field f @ '': '' @ format_field_kind (kp_kind f)"

fun format_key_pattern :: "KeyPattern \<Rightarrow> string" where
  "format_key_pattern (KeyPattern_Document fs) =
     ''{ '' @ str_join '', '' (map format_key_field fs) @ '' }''"
| "format_key_pattern (Express s) = ''(express) '' @ s"

fun format_bound_value :: "BoundValue \<Rightarrow> string" where
  "format_bound_value Inf = ''inf''"
| "format_bound_value NegInf = ''-inf''"
| "format_bound_value MinKey = ''MinKey''"
| "format_bound_value MaxKey = ''MaxKey''"
| "format_bound_value (Literal s) = s"

definition format_range :: "IndexBoundRange \<Rightarrow> string" where
  "format_range r =
     (let lo = format_bound_value (br_lower r);
          hi = format_bound_value (br_upper r);
          open_bracket = (case br_lower_inclusivity r of Inclusive \<Rightarrow> CHR ''['' | Exclusive \<Rightarrow> CHR ''('');
          close_bracket = (case br_upper_inclusivity r of Inclusive \<Rightarrow> CHR '']'' | Exclusive \<Rightarrow> CHR '')'') in
      [open_bracket] @ lo @ '', '' @ hi @ [close_bracket])"

fun format_index_bounds :: "IndexBounds \<Rightarrow> string" where
  "format_index_bounds (IndexBounds_Document m) =
     ''{ '' @ str_join '', ''
       (map (\<lambda>(field, ranges). field @ '': ['' @ str_join '', '' (map format_range ranges) @ '']'') m) @ '' }''"
| "format_index_bounds (Raw s) = ''(raw) '' @ s"

fun format_direction :: "Direction \<Rightarrow> string" where
  "format_direction Forward = ''forward''"
| "format_direction Backward = ''backward''"
| "format_direction (Direction_Other _) = ''<other>''"

text \<open>\<open>str::split_whitespace\<close>: the maximal runs of other characters; \<open>cur\<close> is the run being
  collected, reversed.\<close>

function split_whitespace :: "string \<Rightarrow> string \<Rightarrow> string list" where
  "split_whitespace cur [] = (if cur = [] then [] else [rev cur])"
| "split_whitespace cur (c # cs) =
     (case find (\<lambda>w. take (length w) (c # cs) = w) WHITE_SPACE of
        Some w \<Rightarrow>
          (if cur = [] then [] else [rev cur]) @ split_whitespace [] (drop (length w) (c # cs))
      | None \<Rightarrow> split_whitespace (c # cur) cs)"
  by pat_completeness auto
termination
proof (relation "measure (\<lambda>(_, s). length s)", goal_cases)
  case (3 cur c cs w)
  from find_Some_mem [OF 3] have "w \<noteq> []" by (auto dest: white_space_not_Nil)
  then show ?case by simp
qed auto

fun format_filter :: "debug_env \<Rightarrow> Filter \<Rightarrow> string" where
  "format_filter E (MatchExpression d) = str_join '' '' (split_whitespace [] (debug_doc E d))"
| "format_filter E (SbeExpression s) = ''(sbe) '' @ s"

section \<open>Printing\<close>

definition opt_text :: "('a \<Rightarrow> string) \<Rightarrow> 'a option \<Rightarrow> string" where
  "opt_text f x = (case x of None \<Rightarrow> '''' | Some y \<Rightarrow> f y)"

definition indent_text :: "nat \<Rightarrow> string" where
  "indent_text depth = concat (replicate depth ''  '')"

text \<open>What \<open>walk\<close> prints for the node itself; \<open>as i64\<close> keeps the low 64 bits.\<close>

definition node_lines :: "debug_env \<Rightarrow> PlanNode \<Rightarrow> nat \<Rightarrow> string list" where
  "node_lines E node depth =
     (let indent = indent_text depth;
          per_stage_ms =
            (case pn_execution_time node of
               None \<Rightarrow> - 1
             | Some t \<Rightarrow> sint (word_of_nat (node_time_millis t) :: i64));
          index = opt_text (\<lambda>i. '' idx='' @ index_name_inner i) (pn_index_name node);
          direction = opt_text (\<lambda>d. '' dir='' @ format_direction d) (pn_direction node) in
      [indent @ stage_label E (pn_stage node) @ '' n='' @ show_int (sint (docs_returned_inner (pn_n_returned node)))
         @ index @ direction @ '' ms='' @ show_int per_stage_ms] @
      (case pn_key_pattern node of
         Some kp \<Rightarrow> [indent @ ''  keyPattern: '' @ format_key_pattern kp] | None \<Rightarrow> []) @
      (case pn_index_bounds node of
         Some b \<Rightarrow> [indent @ ''  bounds:     '' @ format_index_bounds b] | None \<Rightarrow> []) @
      (case pn_filter node of
         Some f \<Rightarrow> [indent @ ''  filter:     '' @ format_filter E f] | None \<Rightarrow> []))"

fun walk :: "debug_env \<Rightarrow> PlanNode \<Rightarrow> nat \<Rightarrow> string list" where
  "walk E (PlanNode stage t n docs keys index kp bounds dir fil children) depth =
     node_lines E (PlanNode stage t n docs keys index kp bounds dir fil children) depth @
     concat (map (\<lambda>child. walk E child (depth + 1)) children)"

definition print_event :: "debug_env \<Rightarrow> ExplainEvent \<Rightarrow> string list" where
  "print_event E event =
     (let total = ee_total event;
          total_ms = aggregate_time_millis (et_execution_time total);
          explain_req =
            (case ee_explain_request_id event of
               Some r \<Rightarrow> show_int (sint (explain_request_id_inner r)) | None \<Rightarrow> ''<none>'') in
      [[CHR 0x0A] @ ''['' @ Command_debug E (ee_command event) @ ''] ''
         @ database_inner (ns_database (ee_namespace event)) @ ''.''
         @ collection_inner (ns_collection (ee_namespace event))
         @ ''  client_req='' @ show_int (sint (request_id_inner (ee_client_request_id event)))
         @ '' explain_req='' @ explain_req
         @ ''  '' @ [CHR 0xE2, CHR 0x86, CHR 0x92] @ '' ''
         @ show_int (sint (docs_returned_inner (et_n_returned total))) @ '' docs in ''
         @ show_nat total_ms @ ''ms  (examined: ''
         @ show_int (sint (docs_examined_inner (et_docs_examined total))) @ '' docs, ''
         @ show_int (sint (keys_examined_inner (et_keys_examined total))) @ '' keys)''] @
      walk E (ee_plan event) 1)"

text \<open>The consumer task prints the events in the order the channel delivers them.\<close>

definition consumer :: "debug_env \<Rightarrow> ExplainEvent list \<Rightarrow> string list" where
  "consumer E events = concat (map (print_event E) events)"

section \<open>White space\<close>

text \<open>A string that does not start with white space and whose last byte is no part of any has
  nothing to trim.\<close>

definition starts_plain :: "string \<Rightarrow> bool" where
  "starts_plain s \<longleftrightarrow> (\<forall>w \<in> set WHITE_SPACE. take (length w) s \<noteq> w)"

definition ends_plain :: "string \<Rightarrow> bool" where
  "ends_plain s \<longleftrightarrow> s \<noteq> [] \<and> last s \<notin> set (concat WHITE_SPACE)"

lemma starts_plain_append:
  assumes "starts_plain a" "c \<notin> set (concat WHITE_SPACE)"
  shows "starts_plain (a @ c # b)"
proof -
  have "take (length w) (a @ c # b) \<noteq> w" if w: "w \<in> set WHITE_SPACE" for w
  proof (cases "length w \<le> length a")
    case True
    then show ?thesis using assms(1) w by (simp add: starts_plain_def)
  next
    case False
    then have "c \<in> set (take (length w) (a @ c # b))" by (simp add: take_Cons')
    moreover have "c \<notin> set w" using assms(2) w by auto
    ultimately show ?thesis by metis
  qed
  then show ?thesis by (simp add: starts_plain_def)
qed

lemma ends_plain_append [simp]: "b \<noteq> [] \<Longrightarrow> ends_plain (a @ b) = ends_plain b"
  by (simp add: ends_plain_def)

lemma trimmed_plain:
  assumes "starts_plain s" "ends_plain s"
  shows "trimmed s"
proof -
  have "take (length w) (rev s) \<noteq> rev w" if w: "w \<in> set WHITE_SPACE" for w
  proof
    assume t: "take (length w) (rev s) = rev w"
    from w have "w \<noteq> []" by (rule white_space_not_Nil)
    then have "hd (take (length w) (rev s)) = last s" by (simp add: hd_rev)
    with t \<open>w \<noteq> []\<close> have "last s = last w" by (simp add: hd_rev)
    with w \<open>w \<noteq> []\<close> assms(2) show False by (auto simp: ends_plain_def)
  qed
  then show ?thesis using assms(1) by (simp add: trimmed_def starts_plain_def)
qed

lemma trimmed_starts: "trimmed s \<Longrightarrow> starts_plain s"
  by (simp add: trimmed_def starts_plain_def)

lemma strip_leading_space [simp]:
  "strip_leading WHITE_SPACE (CHR 0x20 # s) = strip_leading WHITE_SPACE s"
  "strip_leading (map rev WHITE_SPACE) (CHR 0x20 # s) = strip_leading (map rev WHITE_SPACE) s"
  by (subst strip_leading.simps, simp add: WHITE_SPACE_def)+

lemma str_trim_spaces:
  assumes "trimmed s"
  shows "str_trim (CHR 0x20 # s) = s" "s \<noteq> [] \<Longrightarrow> str_trim (CHR 0x20 # s @ [CHR 0x20]) = s"
proof -
  have "strip_leading WHITE_SPACE s = s" "strip_leading (map rev WHITE_SPACE) (rev s) = rev s"
    using assms by (auto intro!: strip_leading_id simp: trimmed_def)
  then show "str_trim (CHR 0x20 # s) = s" by (simp add: str_trim_def)
  assume "s \<noteq> []"
  have "take (length w) (s @ [CHR 0x20]) \<noteq> w" if w: "w \<in> set WHITE_SPACE" for w
  proof
    assume t: "take (length w) (s @ [CHR 0x20]) = w"
    show False
    proof (cases "length w \<le> length s")
      case True
      with t w assms show False by (simp add: trimmed_def)
    next
      case False
      then have "CHR 0x20 \<in> set (take (length w) (s @ [CHR 0x20]))" by (simp add: take_Cons')
      with t have "CHR 0x20 \<in> set w" by simp
      then have "w = [CHR 0x20]" using w by (auto simp: WHITE_SPACE_def)
      with False \<open>s \<noteq> []\<close> show False by (cases s) auto
    qed
  qed
  then have "strip_leading WHITE_SPACE (s @ [CHR 0x20]) = s @ [CHR 0x20]" by (rule strip_leading_id)
  with \<open>strip_leading (map rev WHITE_SPACE) (rev s) = rev s\<close>
  show "str_trim (CHR 0x20 # s @ [CHR 0x20]) = s" by (simp add: str_trim_def)
qed

section \<open>The plan in order\<close>

lemma concat_of_concat: "concat (concat xss) = concat (map concat xss)"
  by (induction xss) auto

fun preorder :: "PlanNode \<Rightarrow> nat \<Rightarrow> (PlanNode \<times> nat) list" where
  "preorder (PlanNode stage t n docs keys index kp bounds dir fil children) depth =
     (PlanNode stage t n docs keys index kp bounds dir fil children, depth) #
     concat (map (\<lambda>child. preorder child (depth + 1)) children)"

text \<open>The text of a match expression stays on its line.\<close>

lemma split_whitespace_one_line:
  "p \<in> set (split_whitespace cur s) \<Longrightarrow> CHR 0x0A \<notin> set cur \<Longrightarrow> CHR 0x0A \<notin> set p"
proof (induction cur s rule: split_whitespace.induct)
  case (2 cur c cs)
  show ?case
  proof (cases "find (\<lambda>w. take (length w) (c # cs) = w) WHITE_SPACE")
    case None
    then have "c \<noteq> CHR 0x0A" by (auto simp: find_None_iff WHITE_SPACE_def)
    with 2 None show ?thesis by simp
  next
    case (Some w)
    with 2 show ?thesis by (auto split: if_splits)
  qed
qed (auto split: if_splits)

lemma match_expression_one_line: "CHR 0x0A \<notin> set (format_filter E (MatchExpression d))"
proof
  assume "CHR 0x0A \<in> set (format_filter E (MatchExpression d))"
  then obtain p where "p \<in> set (split_whitespace [] (debug_doc E d))" "CHR 0x0A \<in> set p"
    using set_str_join [of "'' ''" "split_whitespace [] (debug_doc E d)"] by auto
  then show False using split_whitespace_one_line by fastforce
qed

section \<open>Key patterns in text\<close>

text \<open>A field name that survives the syntax of the text form: no separator, no white space and
  no quote at its ends. The kinds that are printed as themselves.\<close>

definition plain_field :: "string \<Rightarrow> bool" where
  "plain_field k \<longleftrightarrow> CHR '','' \<notin> set k \<and> CHR '':'' \<notin> set k \<and> trimmed k \<and> trim_quotes k = k"

definition named_kind :: "IndexFieldKind \<Rightarrow> bool" where
  "named_kind k \<longleftrightarrow> (case k of IndexFieldKind_Other _ \<Rightarrow> False | _ \<Rightarrow> True)"

definition plain_key_field :: "KeyPatternField \<Rightarrow> bool" where
  "plain_key_field f \<longleftrightarrow> plain_field (kp_field f) \<and> named_kind (kp_kind f)"

lemma express_kinds:
  "express_value (format_field_kind Ascending) = Int64 1"
  "express_value (format_field_kind Descending) = Int64 (- 1)"
  "express_value (format_field_kind Hashed) = String ''hashed''"
  "express_value (format_field_kind Text) = String ''text''"
  "express_value (format_field_kind TwoDSphere) = String ''2dsphere''"
  "express_value (format_field_kind TwoD) = String ''2d''"
  by code_simp+

lemma kind_texts:
  "list_all (\<lambda>k. trimmed (format_field_kind k) \<and> ends_plain (format_field_kind k) \<and>
     CHR '','' \<notin> set (format_field_kind k)) [Ascending, Descending, Hashed, Text, TwoDSphere, TwoD]"
  by code_simp

lemma kind_text:
  assumes "named_kind k"
  shows "trimmed (format_field_kind k)" "ends_plain (format_field_kind k)"
    and "CHR '','' \<notin> set (format_field_kind k)"
    and "IndexFieldKind_from_bson lower (express_value (format_field_kind k)) = Inr k"
  using assms kind_texts express_kinds
  by (cases k; simp add: named_kind_def IndexFieldKind_from_bson_def del: format_field_kind.simps)+

lemma separators_plain:
  "CHR '','' \<notin> set (concat WHITE_SPACE)" "CHR '':'' \<notin> set (concat WHITE_SPACE)"
  by code_simp+

lemma key_field_text:
  assumes "plain_key_field f"
  shows "starts_plain (format_key_field f)" "ends_plain (format_key_field f)"
    and "CHR '','' \<notin> set (format_key_field f)"
  using assms kind_text [of "kp_kind f"] starts_plain_append [OF trimmed_starts separators_plain(2)]
  by (auto simp: plain_key_field_def plain_field_def format_key_field_def ends_plain_def)

lemma parse_key_field:
  assumes "plain_key_field f"
  shows "parse_express_part lower (format_key_field f) = Some f"
    and "parse_express_part lower (CHR 0x20 # format_key_field f) = Some f"
proof -
  note t = trimmed_plain [OF key_field_text(1,2) [OF assms]]
  from assms have f: "plain_field (kp_field f)" "named_kind (kp_kind f)"
    by (simp_all add: plain_key_field_def)
  have s: "split_once '':'' (format_key_field f) = Some (kp_field f, CHR 0x20 # format_field_kind (kp_kind f))"
    using f(1) split_once_char [of "CHR '':''" "kp_field f"]
    by (simp add: format_key_field_def plain_field_def)
  show "parse_express_part lower (format_key_field f) = Some f"
    using f kind_text [OF f(2)] t
    by (simp add: parse_express_part_def str_trim_id s str_trim_spaces plain_field_def)
  then show "parse_express_part lower (CHR 0x20 # format_key_field f) = Some f"
    by (simp add: parse_express_part_def str_trim_id t str_trim_spaces)
qed

lemma str_join_spaced:
  "str_join '', '' (p # ps) = str_join '','' (p # map ((#) CHR 0x20) ps)"
proof (induction ps arbitrary: p)
  case (Cons q ps)
  then show ?case by (cases ps) simp_all
qed simp

lemma key_fields_text:
  assumes "list_all plain_key_field fs" "fs \<noteq> []"
  shows "starts_plain (str_join '', '' (map format_key_field fs)) \<and>
         ends_plain (str_join '', '' (map format_key_field fs))"
  using assms
proof (induction fs rule: induct_list012)
  case (3 f g fs)
  then show ?case
    using starts_plain_append [OF _ separators_plain(1)] by (auto simp: key_field_text ends_plain_def)
qed (simp_all add: key_field_text)

lemma trimmed_braced: "str_trim (CHR ''{'' # s @ [CHR ''}'']) = CHR ''{'' # s @ [CHR ''}'']"
proof (rule str_trim_id, rule trimmed_plain)
  have b: "CHR ''{'' \<notin> set (concat WHITE_SPACE)" "CHR ''}'' \<notin> set (concat WHITE_SPACE)"
    by code_simp+
  have "starts_plain []" by code_simp
  from starts_plain_append [OF this b(1)] show "starts_plain (CHR ''{'' # s @ [CHR ''}''])" by simp
  show "ends_plain (CHR ''{'' # s @ [CHR ''}''])" using b by (simp add: ends_plain_def)
qed

lemma those_map_Some: "(\<And>x. x \<in> set xs \<Longrightarrow> f x = Some (g x)) \<Longrightarrow> those (map f xs) = Some (map g xs)"
  by (induction xs) auto

section \<open>Properties\<close>

text \<open>C21. The text of a non-empty key pattern document, as the sample printer writes it, is read back by
  \<open>parse_express_string\<close> to the same fields, in order and with their kinds, provided that the kinds are
  the named ones (the others are printed as a placeholder) and that no field name has white space
  or quotes at its ends or contains a comma or a colon.\<close>

theorem key_pattern_roundtrip:
  assumes "list_all plain_key_field fs" "fs \<noteq> []"
  shows "parse_express_string lower (format_key_pattern (KeyPattern_Document fs)) = Some fs"
proof -
  let ?t = "str_join '', '' (map format_key_field fs)"
  obtain f fs' where fs: "fs = f # fs'" using assms(2) by (cases fs) auto
  let ?parts = "format_key_field f # map ((#) CHR 0x20) (map format_key_field fs')"
  have "?t \<noteq> []" using key_fields_text [OF assms] by (simp add: ends_plain_def)
  moreover have "trimmed ?t" using key_fields_text [OF assms] trimmed_plain by blast
  ultimately have b: "str_trim (CHR 0x20 # ?t @ [CHR 0x20]) = ?t" by (simp add: str_trim_spaces)
  have sp: "str_split CHR '','' ?t = ?parts"
    unfolding fs list.map str_join_spaced
    using assms(1) by (intro str_split_join) (auto simp: fs list_all_iff key_field_text)
  have "those (map (parse_express_part lower) ?parts) = Some fs"
    using assms(1)
    by (simp add: fs parse_key_field comp_def list_all_iff those_map_Some [where g = "\<lambda>x. x"])
  moreover have "strip_braces (CHR ''{'' # (CHR 0x20 # ?t @ [CHR 0x20]) @ [CHR ''}'']) = Some (CHR 0x20 # ?t @ [CHR 0x20])"
    by (simp add: strip_braces_def butlast_append)
  ultimately show ?thesis
    using trimmed_braced [of "CHR 0x20 # ?t @ [CHR 0x20]"] b sp by (simp add: parse_express_string_def)
qed

theorem key_pattern_roundtrip_witness:
  "parse_express_string id ''{ year: -1, title: 1 }'' =
     Some [\<lparr>kp_field = ''year'', kp_kind = Descending\<rparr>, \<lparr>kp_field = ''title'', kp_kind = Ascending\<rparr>]"
proof -
  let ?fs = "[\<lparr>kp_field = ''year'', kp_kind = Descending\<rparr>, \<lparr>kp_field = ''title'', kp_kind = Ascending\<rparr>]"
  have "plain_field ''year''" "plain_field ''title''" by code_simp+
  then have "list_all plain_key_field ?fs" by (simp add: plain_key_field_def named_kind_def)
  from key_pattern_roundtrip [OF this, of id] show ?thesis by (simp add: format_key_field_def)
qed

text \<open>A literal that is not itself the text of a sentinel, has no white space at its ends and
  no comma.\<close>

definition plain_bound :: "BoundValue \<Rightarrow> bool" where
  "plain_bound v \<longleftrightarrow>
     BoundValue_parse (format_bound_value v) = v \<and> CHR '','' \<notin> set (format_bound_value v)"

text \<open>Index ranges are read as they are printed: for every pair of bounds and every
  combination of brackets the parser gives back the range.\<close>

lemma bound_range_roundtrip:
  assumes "plain_bound (br_lower r)" "plain_bound (br_upper r)"
  shows "IndexBoundRange_parse (format_range r) = Some (Inr r)"
proof -
  let ?body = "format_bound_value (br_lower r) @ '', '' @ format_bound_value (br_upper r)"
  have s: "split_once '', '' ?body =
      Some (format_bound_value (br_lower r), format_bound_value (br_upper r))"
    using assms(1) by (intro split_once_first) (auto simp: plain_bound_def)
  show ?thesis
    using assms parse_bracketed [OF _ _ s]
    by (cases r; cases "br_lower_inclusivity r"; cases "br_upper_inclusivity r")
      (simp_all add: format_range_def plain_bound_def)
qed

lemma bound_range_roundtrip_witness:
  "IndexBoundRange_parse ''(-inf, 1999]'' =
     Some (Inr \<lparr>br_lower = NegInf, br_lower_inclusivity = Exclusive,
       br_upper = Literal ''1999'', br_upper_inclusivity = Inclusive\<rparr>)"
proof -
  let ?r = "\<lparr>br_lower = NegInf, br_lower_inclusivity = Exclusive,
    br_upper = Literal ''1999'', br_upper_inclusivity = Inclusive\<rparr>"
  have "plain_bound NegInf" "plain_bound (Literal ''1999'')" by code_simp+
  then show ?thesis using bound_range_roundtrip [of ?r] by (simp add: format_range_def)
qed

text \<open>The printer shows the whole plan: the lines of every node of the tree, each node
  before its children and these in order, with one level of indentation per depth.\<close>

lemma plan_printed_in_preorder:
  "walk E node depth = concat (map (\<lambda>(n, k). node_lines E n k) (preorder node depth))"
proof (induction E node depth rule: walk.induct)
  case (1 E stage t n docs keys index kp bounds dir fil children depth)
  then show ?case by (simp add: map_concat concat_of_concat comp_def cong: map_cong)
qed

end
