(* ===== verification/WireTests.thy ===== *)
theory WireTests
  imports Redact Wire
begin

text \<open>
  The unit tests of the wire format, run on the model with the reference codec: identifiers, opcodes,
  operations, the stream decoder and redaction. (The tests on recorded messages are the theory \<open>Fixtures\<close>.)
\<close>

unbundle bit_operations_syntax

section \<open>\<open>ids.rs\<close>, \<open>op_code.rs\<close>\<close>

definition explain_id_tests :: "(i32 \<times> (ExplainRequestIdError + ExplainRequestId)) list" where
  "explain_id_tests =
     [(-1, Inr (ExplainRequestId (-1))), (0, Inl ExplainRequestIdPredicateViolated),
      (42, Inl ExplainRequestIdPredicateViolated), (-7, Inr (ExplainRequestId (-7)))]"

definition message_length_tests :: "(i32 \<times> (MessageLengthError + MessageLength)) list" where
  "message_length_tests =
     [(16, Inr (MessageLength 16)), (48 * 1024 * 1024, Inr (MessageLength (48 * 1024 * 1024))),
      (15, Inl MessageLengthPredicateViolated), (0, Inl MessageLengthPredicateViolated),
      (-1, Inl MessageLengthPredicateViolated), (48 * 1024 * 1024 + 1, Inl MessageLengthPredicateViolated),
      (1234, Inr (MessageLength 1234))]"

definition opcode_decode_tests :: "(byte list \<times> (OPCodeParseError + OPCode)) list" where
  "opcode_decode_tests =
     [([0xAA, 0, 0, 0], Inl (UnsupportedOpCode 0xAA)), ([0x01, 0, 0, 0], Inr OpcodeReply),
      ([0xD4, 0x07, 0, 0], Inr OpcodeQuery), ([0xDD, 0x07, 0, 0], Inr OpcodeMsg)]"

definition opcode_encode_tests :: "(OPCode \<times> byte list) list" where
  "opcode_encode_tests =
     [(OpcodeReply, [0x01, 0, 0, 0]), (OpcodeQuery, [0xD4, 0x07, 0, 0]), (OpcodeMsg, [0xDD, 0x07, 0, 0])]"

lemma id_tests_pass:
  "list_all (\<lambda>(n, r). ExplainRequestId_try_new n = r) explain_id_tests"
  "list_all (\<lambda>(n, r). MessageLength_try_new n = r) message_length_tests"
  "RequestId_from_explain (ExplainRequestId (-7)) = RequestId (-7)"
  by code_simp+

lemma opcode_tests_pass:
  "list_all (\<lambda>(bs, r). OPCode_from_le_bytes bs = r) opcode_decode_tests"
  "list_all (\<lambda>(c, bs). OPCode_to_le_bytes c = bs) opcode_encode_tests"
  by code_simp+

section \<open>\<open>op_msg.rs\<close>\<close>

definition hello_body :: OpMsgSection where "hello_body = Body [(''hello'', Int32 1)]"

text \<open>Messages that are written, and what is read back from the bytes after the header.\<close>

definition op_msg_flag_tests :: "(OperationMessage \<times> OperationMessage) list" where
  "op_msg_flag_tests =
     [(\<lparr>om_flags = MORE_TO_COME, om_sections = [hello_body], om_checksum = None\<rparr>,
       \<lparr>om_flags = MORE_TO_COME, om_sections = [hello_body], om_checksum = None\<rparr>),
      (\<lparr>om_flags = 0, om_sections = [hello_body], om_checksum = Some 0xDEADBEEF\<rparr>,
       \<lparr>om_flags = CHECKSUM_PRESENT, om_sections = [hello_body], om_checksum = Some 0xDEADBEEF\<rparr>)]"

definition op_msg_section_tests :: "(OperationMessage \<times> OperationMessage) list" where
  "op_msg_section_tests =
     (let plain = (\<lambda>flags sections. \<lparr>om_flags = flags, om_sections = sections, om_checksum = None\<rparr>);
          insert_sections = [Body [(''insert'', String ''movies''), (''$db'', String ''sample'')],
            DocumentSequence ''documents'' [[(''_id'', Int32 1), (''title'', String ''Movie 1'')],
              [(''_id'', Int32 2), (''title'', String ''Movie 2'')], [(''_id'', Int32 3), (''title'', String ''Movie 3'')]]];
          sequence_first = [DocumentSequence ''documents'' [[(''a'', Int32 1)]], Body [(''after'', Int32 2)]] in
      [(plain EXHAUST_ALLOWED [hello_body], plain EXHAUST_ALLOWED [hello_body]),
       (plain 0 insert_sections, plain 0 insert_sections),
       (plain 0 sequence_first, plain 0 sequence_first)])"

definition op_msg_write_and_read :: "OperationMessage \<Rightarrow> (OperationMessageParseError + OperationMessage) option" where
  "op_msg_write_and_read m =
     (case OperationMessage_write_bytes reference_bson m [] (RequestId 1) None of
        (Inr _, buf) \<Rightarrow> Some (OperationMessage_from_bytes reference_bson (drop MessageHeader_size buf))
      | _ \<Rightarrow> None)"

definition hello_doc_bytes :: "byte list" where
  "hello_doc_bytes = [16,0,0,0, 16, 104,101,108,108,111,0, 1,0,0,0, 0]"

text \<open>Bodies that are refused: an unknown required bit, an unknown section kind, a document that
  runs over the end of its section, a cut section header; and one with an unknown optional bit.\<close>

definition op_msg_error_tests :: "(byte list \<times> (OperationMessageParseError \<Rightarrow> bool)) list" where
  "op_msg_error_tests =
     [([4,0,0,0, 0] @ hello_doc_bytes, \<lambda>e. case e of UnknownRequiredBits _ \<Rightarrow> True | _ \<Rightarrow> False),
      ([0,0,0,0, 99], \<lambda>e. e = InvalidKind 99),
      ([0,0,0,0, 1] @ ([21,0,0,0] @ [100,111,99,117,109,101,110,116,115,0] @ [12,0,0,0] @ [0,0,0]) @
         [0] @ [23,0,0,0, 2, 110,101,120,116,0, 8,0,0,0, 115,101,99,116,105,111,110,0, 0],
       \<lambda>e. case e of InvalidBson _ \<Rightarrow> True | _ \<Rightarrow> False),
      ([0,0,0,0, 1, 0,0], \<lambda>e. case e of InvalidDocumentSequenceSize _ \<Rightarrow> True | _ \<Rightarrow> False)]"

lemma op_msg_roundtrip_tests_pass:
  "list_all (\<lambda>(m, r). op_msg_write_and_read m = Some (Inr r)) (op_msg_flag_tests @ op_msg_section_tests)"
  by code_simp

lemma op_msg_error_tests_pass:
  "list_all (\<lambda>(bs, is_error). case OperationMessage_from_bytes reference_bson bs of
     Inl e \<Rightarrow> is_error e | Inr _ \<Rightarrow> False) op_msg_error_tests"
  by code_simp

lemma op_msg_optional_bit_test_passes:
  "OperationMessage_from_bytes reference_bson ([0,0,2,0, 0] @ hello_doc_bytes) =
     Inr \<lparr>om_flags = 0, om_sections = [hello_body], om_checksum = None\<rparr>"
  by code_simp

section \<open>\<open>op_query.rs\<close>, \<open>op_reply.rs\<close>\<close>

definition query_test :: OperationQuery where
  "query_test = \<lparr>oq_flags = SLAVE_OK OR PARTIAL, oq_full_collection_name = ''db.coll'', oq_number_to_skip = 5,
     oq_number_to_return = 10, oq_query = [(''x'', Int32 1)],
     oq_return_fields_selector = Some [(''_id'', Int32 0), (''name'', Int32 1)]\<rparr>"

definition reply_test :: OperationReply where
  "reply_test = \<lparr>or_flags = AWAIT_CAPABLE, or_cursor_id = 42, or_starting_from = 7,
     or_documents = [[(''a'', Int32 1)], [(''b'', Int32 2)], [(''c'', Int32 3)]]\<rparr>"

lemma query_tests_pass:
  "(case OperationQuery_write_bytes reference_bson query_test [] (RequestId 1) None of
      (Inr _, buf) \<Rightarrow> OperationQuery_from_bytes reference_bson (drop MessageHeader_size buf) = Inr query_test
    | _ \<Rightarrow> False)"
  "(case OperationQuery_from_bytes reference_bson ([0,2,0,0, 97, 0, 0,0,0,0, 0,0,0,0, 5,0,0,0,0]) of
      Inl (QueryUnknownFlagBits _) \<Rightarrow> True | _ \<Rightarrow> False)"
  "(case OperationQuery_from_bytes reference_bson ([0,0,0,0, 100,98,0]) of
      Inl (QueryNotEnoughBytes _ _) \<Rightarrow> True | _ \<Rightarrow> False)"
  by code_simp+

lemma reply_tests_pass:
  "(case OperationReply_write_bytes reference_bson reply_test [] (RequestId 1) None of
      (Inr _, buf) \<Rightarrow> OperationReply_from_bytes reference_bson (drop MessageHeader_size buf) = Inr reply_test
    | _ \<Rightarrow> False)"
  "(case OperationReply_from_bytes reference_bson ([0,1,0,0] @ replicate 16 0) of
      Inl (ReplyUnknownFlagBits _) \<Rightarrow> True | _ \<Rightarrow> False)"
  by code_simp+

text \<open>A declared count of \<open>i32::MAX\<close> without documents fails at the first one.\<close>

lemma huge_count_test_passes:
  "\<exists>e. OperationReply_from_bytes reference_bson (replicate 16 0 @ i32_to_le_bytes 0x7FFFFFFF) = Inl (FailedToParseDocument 0 e)"
proof -
  let ?bs = "replicate 16 0 @ i32_to_le_bytes 0x7FFFFFFF"
  have "isl (read_document reference_bson [])" by code_simp
  then obtain e where e: "read_document reference_bson [] = Inl e" by (auto simp: isl_def)
  have r: "read_counted reference_bson n 0 [] = Inl (FailedToParseDocument 0 e)" if "0 < n" for n
    using that e by (cases n) (simp_all add: result_simps)
  have "OperationReply_min_len \<le> length ?bs" "drop OperationReply_min_len ?bs = []"
    "u32_from_le_bytes (take 4 ?bs) AND NOT OperationReplyFlags_all = 0"
    "0 < sint (i32_from_le_bytes (take 4 (drop 16 ?bs)))"
    by code_simp+
  with r show ?thesis
    by (auto simp: OperationReply_from_bytes_def Let_def result_simps flags_from_bits_def)
qed

section \<open>\<open>decoder.rs\<close>, \<open>message.rs\<close>\<close>

lemma decoder_tests_pass:
  "WireDecoder_decode reference_bson WireDecoder_default (replicate 8 0) =
     (Inr None, WireDecoder_default, replicate 8 0)"
  "(case WireDecoder_decode reference_bson WireDecoder_default
      (i32_to_le_bytes 16 @ i32_to_le_bytes 1 @ i32_to_le_bytes 0 @ i32_to_le_bytes 0xAA) of
      (Inl (DecoderInvalidOpcode _), _) \<Rightarrow> True | _ \<Rightarrow> False)"
  "Message_from_headers_and_bytes reference_bson \<lparr>mh_message_length = MessageLength 100, mh_request_id = RequestId 1,
      mh_response_to = None, mh_op_code = OpcodeMsg\<rparr> (replicate 20 0) =
     Inl (MessageNotEnoughBytes 20 100)"
  by code_simp+

section \<open>\<open>redact.rs\<close>\<close>

definition redaction_tests :: "(document \<times> debug) list" where
  "redaction_tests =
     [([(''saslStart'', Int32 1), (''mechanism'', String ''SCRAM-SHA-256''), (''payload'', String ''TOPSECRET'')],
       DebugMap [(''saslStart'', DebugText ''<redacted>''), (''mechanism'', DebugBson (String ''SCRAM-SHA-256'')),
         (''payload'', DebugText ''<redacted>'')]),
      ([(''hello'', Int32 1), (''speculativeAuthenticate'', Document [(''saslStart'', Int32 1), (''payload'', String ''NESTEDSECRET'')])],
       DebugMap [(''hello'', DebugBson (Int32 1)), (''speculativeAuthenticate'', DebugText ''<redacted>'')]),
      ([(''createUser'', String ''bob''), (''PWD'', String ''hunter2'')],
       DebugMap [(''createUser'', DebugBson (String ''bob'')), (''PWD'', DebugText ''<redacted>'')]),
      ([(''docs'', Array [Document [(''password'', String ''leak-me'')]])],
       DebugMap [(''docs'', DebugList [DebugMap [(''password'', DebugText ''<redacted>'')]])]),
      ([(''find'', String ''users''), (''filter'', Document [(''age'', Int32 30)])],
       DebugMap [(''find'', DebugBson (String ''users'')), (''filter'', DebugMap [(''age'', DebugBson (Int32 30))])])]"

lemma redaction_tests_pass: "list_all (\<lambda>(doc, shown). RedactedDoc doc = shown) redaction_tests"
  by code_simp

end
