(* ===== verification/ProxyTests.thy ===== *)
theory ProxyTests
  imports UnitTests Logger
begin

text \<open>
  The unit tests of \<open>serve/service.rs\<close>, run on the model, in the manner of \<open>UnitTests\<close>.
\<close>

section \<open>Reply streams\<close>

definition build_msg :: "OperationMessageFlags \<Rightarrow> i32 \<Rightarrow> ResponseTo option \<Rightarrow> Message" where
  "build_msg flags request_id response_to =
     \<lparr>msg_request_id = RequestId request_id, msg_response_to = response_to,
      msg_operation = Operation_Message \<lparr>om_flags = flags, om_sections = [Body [(''n'', Int32 request_id)]],
        om_checksum = None\<rparr>\<rparr>"

text \<open>A call against a scripted upstream, and then as many polls as there are results expected.\<close>

fun poll_times ::
  "nat \<Rightarrow> ('st, 'w, 'e) reply_poll \<Rightarrow> 'st \<Rightarrow> 'w \<Rightarrow> ('e + Message) option poll list" where
  "poll_times 0 poll_next st w = []"
| "poll_times (Suc n) poll_next st w =
     (case poll_next st w of (r, st, w) \<Rightarrow> r # poll_times n poll_next st w)"

definition call_and_poll ::
  "(WireDecoderError + Message) option poll list \<Rightarrow> Message \<Rightarrow> nat
   \<Rightarrow> (ProxyClientRequestError + Message) option poll list" where
  "call_and_poll upstream req n =
     (case ProxyClient_call record_send () req (Unlocked \<lparr>server_reader = upstream, server_writer = []\<rparr>) of
        (Ready (Inr stream), _, w) \<Rightarrow> poll_times n (ProxyResponseStream_poll_next read_script) stream w
      | _ \<Rightarrow> [])"

abbreviation arrives :: "Message \<Rightarrow> ('e + Message) option poll" where
  "arrives m \<equiv> Ready (Some (Inr m))"

definition reply_stream_tests ::
  "((WireDecoderError + Message) option poll list \<times> Message \<times> (ProxyClientRequestError + Message) option poll list) list" where
  "reply_stream_tests =
     (let to_1 = Some (ResponseTo 1); req = build_msg 0 1 None;
          more = (\<lambda>n. build_msg MORE_TO_COME n to_1); last = (\<lambda>n. build_msg 0 n to_1) in
      [([arrives (more 101), arrives (more 102), arrives (last 103)], req,
          [arrives (more 101), arrives (more 102), arrives (last 103), Ready None]),
       ([arrives (last 200)], req, [arrives (last 200), Ready None]),
       ([], build_msg MORE_TO_COME 1 None, [Ready None]),
       ([arrives (more 100)], req, [arrives (more 100), Ready (Some (Inl EndOfStream)), Ready None])])"

lemma reply_stream_tests_pass:
  "list_all (\<lambda>(upstream, req, polls). call_and_poll upstream req (length polls) = polls) reply_stream_tests"
  by code_simp

section \<open>TLS\<close>

definition tls_tests :: "(unit TlsConfig \<times> bool) list" where
  "tls_tests = [(TlsDisabled, False), (TlsSystem, True), (WithRoots (), True), (Insecure, True)]"

lemma tls_tests_pass:
  "list_all (\<lambda>(tls, some). (px_tls_connector (with_tls () ''mongo.example.com'' 27017 tls :: (unit, unit) Proxy) \<noteq> None) = some \<and>
     (build_tls_connector () tls \<noteq> None) = some) tls_tests"
  "px_tls_connector (Proxy_new () ''mongo.example.com'' 27017 :: (unit, unit) Proxy) = None"
  by code_simp+

definition unresolvable_srv_tests :: "(string \<times> unit TlsConfig) list" where
  "unresolvable_srv_tests =
     [(''srv-does-not-exist.invalid'', TlsSystem), (''srv-does-not-exist.invalid'', WithRoots ()),
      (''srv-does-not-exist.invalid'', Insecure)]"

lemma unresolvable_srv_tests_pass:
  "list_all (\<lambda>(name, tls). isl (from_srv_with_tls () (Inr (\<lambda>_. Inl \<lparr>lf_message = ''srv_lookup'', lf_source = None\<rparr>)) 0
     sample_probing name tls FailoverConfig_disabled :: SrvResolveError + (unit, unit) Proxy \<times> duration option))
   unresolvable_srv_tests"
  by code_simp

section \<open>The target\<close>

definition target_cell :: "string \<Rightarrow> u16 \<Rightarrow> Target" where
  "target_cell host port = \<lparr>tg_host = host, tg_port = port\<rparr>"

definition srv_host :: "string \<Rightarrow> u16 \<Rightarrow> SrvHost" where
  "srv_host host port = \<lparr>sh_host = host, sh_port = port\<rparr>"

definition apply_primary_tests :: "(Target \<times> SrvHost \<times> bool \<times> string \<times> u16) list" where
  "apply_primary_tests =
     [(target_cell ''old.example.com'' 27017, srv_host ''new.example.com'' 27017, True, ''new.example.com'', 27017),
      (target_cell ''host.example.com'' 27017, srv_host ''host.example.com'' 27018, True, ''host.example.com'', 27018),
      (target_cell ''host.example.com'' 27017, srv_host ''host.example.com'' 27017, False, ''host.example.com'', 27017)]"

lemma apply_primary_tests_pass:
  "list_all (\<lambda>(cell, primary, result). map_prod id read_target (apply_primary cell primary) = result) apply_primary_tests"
  by code_simp

text \<open>A mock that answers at once; \<open>primary\<close> is the host that reports itself.\<close>

definition mock_probing :: "string \<Rightarrow> unit probing" where
  "mock_probing primary tls timeout hosts = map (\<lambda>h. (h, Some (Inr (sh_host h = primary)))) hosts"

definition select_target_tests ::
  "(string \<times> SrvHost list \<times> ((SrvHost \<times> ProbeOutcome) list + Target)) list" where
  "select_target_tests =
     [(''primary.example.com'', [srv_host ''secondary-a.example.com'' 27017, srv_host ''secondary-b.example.com'' 27017,
           srv_host ''primary.example.com'' 27017], Inr (target_cell ''primary.example.com'' 27017)),
      ([], [srv_host ''a.example.com'' 27017, srv_host ''b.example.com'' 27017],
         Inl [(srv_host ''a.example.com'' 27017, NotPrimary), (srv_host ''b.example.com'' 27017, NotPrimary)])]"

definition reselect_test :: "string \<times> SrvHost list \<times> SrvHost option" where
  "reselect_test = (''b.example.com'', [srv_host ''a.example.com'' 27017, srv_host ''b.example.com'' 27017],
     Some (srv_host ''b.example.com'' 27017))"

lemma select_target_tests_pass:
  "list_all (\<lambda>(primary, hosts, result). select_target (mock_probing primary) None 0 hosts = result) select_target_tests"
  "(\<lambda>(primary, hosts, result). reselect_seed_list (mock_probing primary) None 0 hosts = result) reselect_test"
  by code_simp+

text \<open>\<open>ColdPrimaryProbe\<close>: every host is primary and answers after eight seconds.\<close>

definition cold_probing :: "unit probing" where
  "cold_probing tls timeout hosts = timed_completions timeout (map (\<lambda>h. (h, Some (8000, Inr True))) hosts)"

definition cold_select_tests :: "(duration \<times> ((SrvHost \<times> ProbeOutcome) list + Target)) list" where
  "cold_select_tests =
     [(DEFAULT_PROBE_TIMEOUT, Inl [(srv_host ''cold.example.com'' 27017, TimedOut)]),
      (15000, Inr (target_cell ''cold.example.com'' 27017))]"

definition cold_reselect_tests :: "(duration \<times> SrvHost option) list" where
  "cold_reselect_tests =
     [(DEFAULT_PROBE_TIMEOUT, None), (15000, Some (srv_host ''cold.example.com'' 27017))]"

lemma cold_primary_tests_pass:
  "list_all (\<lambda>(timeout, result). select_target cold_probing None timeout [srv_host ''cold.example.com'' 27017] = result)
     cold_select_tests"
  "list_all (\<lambda>(timeout, result). reselect_seed_list cold_probing None timeout [srv_host ''cold.example.com'' 27017] = result)
     cold_reselect_tests"
  by (simp_all add: cold_select_tests_def cold_reselect_tests_def select_target_def reselect_seed_list_def cold_probing_def
      timed_completions_def select_primary_def DEFAULT_PROBE_TIMEOUT_def srv_host_def target_cell_def target_of_def)

lemma failover_config_tests_pass:
  "fc_probe_timeout FailoverConfig_default = DEFAULT_PROBE_TIMEOUT"
  "fc_reprobe_interval (FailoverConfig_every 30000) = Some 30000"
  "fc_probe_timeout (FailoverConfig_every 30000) = DEFAULT_PROBE_TIMEOUT"
  "fc_reprobe_interval FailoverConfig_disabled = None"
  "fc_probe_timeout FailoverConfig_disabled = DEFAULT_PROBE_TIMEOUT"
  "fc_probe_timeout (with_probe_timeout FailoverConfig_default 20000) = 20000"
  "fc_reprobe_interval (with_probe_timeout FailoverConfig_default 20000) = Some DEFAULT_REPROBE_INTERVAL"
  by (simp_all add: FailoverConfig_default_def FailoverConfig_every_def FailoverConfig_disabled_def with_probe_timeout_def)

section \<open>Routing\<close>

definition route_tests :: "(string \<times> UriRoute) list" where
  "route_tests =
     [(''mongodb://only.example.com:27017/'', Single ''only.example.com'' 27017 False),
      (''mongodb://only.example.com/'', Single ''only.example.com'' 27017 False),
      (''mongodb://only.example.com/?tls=true'', Single ''only.example.com'' 27017 True),
      (''mongodb://a.example.com:27017,b.example.com:27018,c.example.com/'',
         SeedList [srv_host ''a.example.com'' 27017, srv_host ''b.example.com'' 27018, srv_host ''c.example.com'' 27017] False),
      (''mongodb://a.example.com,b.example.com/?tls=true'',
         SeedList [srv_host ''a.example.com'' 27017, srv_host ''b.example.com'' 27017] True),
      (''mongodb+srv://cluster0.foo.mongodb.net/'', SrvRoute ''cluster0.foo.mongodb.net'' True None),
      (''mongodb+srv://cluster0.foo.mongodb.net/?srvServiceName=customdb'',
         SrvRoute ''cluster0.foo.mongodb.net'' True (Some ''customdb'')),
      (''mongodb+srv://cluster0.foo.mongodb.net/?tls=false'', SrvRoute ''cluster0.foo.mongodb.net'' False None)]"

lemma route_tests_pass:
  "list_all (\<lambda>(uri, result). res_bind (map_err ParseError (parse uri)) route = Inr result) route_tests"
  by code_simp

section \<open>Fail-over\<close>

definition refused_probing :: "unit probing" where
  "refused_probing tls timeout hosts =
     map (\<lambda>h. (h, Some (Inl (ProbeConnect (FailedToConnectToProxiedServer ''connection refused''))))) hosts"

lemma seed_list_unreachable_test_passes:
  "case (from_seed_list () refused_probing [srv_host ''127.0.0.1'' 1, srv_host ''127.0.0.1'' 2] False
      FailoverConfig_disabled :: FromUriError + (unit, unit) Proxy \<times> duration option) of
     Inl (NoPrimary attempts) \<Rightarrow> length attempts = 2 \<and>
       list_all (\<lambda>(_, r). case r of ProbeFailed _ \<Rightarrow> True | _ \<Rightarrow> False) attempts
   | _ \<Rightarrow> False"
  by code_simp

text \<open>One tick of the loop with a new primary and with none, and the end of the loop once the proxy is gone.\<close>

lemma reprobe_loop_tests_pass:
  "failover_step ((=) (Some (srv_host ''new.example.com'' 27017))) (failover_start (target_cell ''old.example.com'' 27017))
     (failover_start (target_cell ''new.example.com'' 27017))"
  "failover_step ((=) None) (failover_start (target_cell ''old.example.com'' 27017))
     (failover_start (target_cell ''old.example.com'' 27017))"
  "failover_step select ((failover_start t)\<lparr>fo_open := False\<rparr>) ((failover_start t)\<lparr>fo_open := False, fo_running := False\<rparr>)"
proof -
  have "(failover_start (target_cell ''old.example.com'' 27017))
      \<lparr>fo_target := snd (apply_primary (target_cell ''old.example.com'' 27017) (srv_host ''new.example.com'' 27017))\<rparr> =
    failover_start (target_cell ''new.example.com'' 27017)"
    by code_simp
  with failover_step.tick_primary [of "failover_start (target_cell ''old.example.com'' 27017)"
      "(=) (Some (srv_host ''new.example.com'' 27017))" "srv_host ''new.example.com'' 27017"]
  show "failover_step ((=) (Some (srv_host ''new.example.com'' 27017))) (failover_start (target_cell ''old.example.com'' 27017))
     (failover_start (target_cell ''new.example.com'' 27017))"
    by (simp add: failover_start_def)
  show "failover_step ((=) None) (failover_start (target_cell ''old.example.com'' 27017))
     (failover_start (target_cell ''old.example.com'' 27017))"
    by (rule failover_step.tick_none) (simp_all add: failover_start_def)
  show "failover_step select ((failover_start t)\<lparr>fo_open := False\<rparr>) ((failover_start t)\<lparr>fo_open := False, fo_running := False\<rparr>)"
    using failover_step.channel_closed [of "(failover_start t)\<lparr>fo_open := False\<rparr>"] by (simp add: failover_start_def)
qed

text \<open>A network in which a connection is the address it was dialled with: the next connection follows
  the swap of the target, through a layer too.\<close>

definition echo_network :: "(string, unit TlsConnector, string, unit) network" where
  "echo_network = \<lparr>tcp_connect = Inr, server_name = Inr, tls_connect = (\<lambda>_ _ sock. Inr sock), framed_split = (\<lambda>sock. (sock, ()))\<rparr>"

definition dialled :: "(unit, (unit, unit) layer) Proxy \<Rightarrow> string option" where
  "dialled p =
     (case Proxy_call echo_network (\<lambda>s. s) (\<lambda>_ s. s) p of
        Inr svc \<Rightarrow> (case rhs_inner svc of Unlocked c \<Rightarrow> Some (server_reader c) | Locked \<Rightarrow> None)
      | Inl _ \<Rightarrow> None)"

definition swapped :: "(unit, (unit, unit) layer) Proxy \<Rightarrow> (unit, (unit, unit) layer) Proxy" where
  "swapped p = p\<lparr>px_target := snd (apply_primary (px_target p) (srv_host ''127.0.0.1'' 27018))\<rparr>"

definition target_swap_tests :: "(unit, (unit, unit) layer) Proxy list" where
  "target_swap_tests =
     (let proxy = with_target (target_cell ''127.0.0.1'' 27017) None in [proxy, enable_logging proxy])"

lemma foldr_const_snd [simp]: "foldr (\<lambda>_ s. s) ls svc = svc"
  by (induction ls) simp_all

lemma dialled_target:
  "px_tls_connector p = None \<Longrightarrow>
   dialled p = Some (tg_host (px_target p) @ '':'' @ show_u16 (tg_port (px_target p)))"
  by (simp add: dialled_def Proxy_call_def forward_to_def read_target_def echo_network_def
      RewriteHelloLayer_layer_def RewriteHelloLayer_enabled_def RewriteHelloLayer_disabled_def
      Let_def result_simps split_beta)

lemma show_ports: "show_u16 27017 = ''27017''" "show_u16 27018 = ''27018''"
  by (simp_all add: show_u16_def show_nat.simps digit_char_def char_of_def bit_Suc_0_iff)

lemma target_swap_tests_pass:
  "list_all (\<lambda>p. dialled p = Some ''127.0.0.1:27017'' \<and> dialled (swapped p) = Some ''127.0.0.1:27018'') target_swap_tests"
  by (simp add: target_swap_tests_def dialled_target swapped_def apply_primary_def target_of_def with_target_def
      enable_logging_def add_layer_def target_cell_def srv_host_def show_ports)

section \<open>\<open>serve/log.rs\<close>\<close>

text \<open>The inner service echoes the request; the credential-bearing request is \<open>saslContinue\<close>.\<close>

definition sensitive_request :: Message where
  "sensitive_request = \<lparr>msg_request_id = RequestId 7, msg_response_to = None, msg_operation = Operation_Message
     \<lparr>om_flags = 0, om_sections = [Body [(''saslContinue'', Int32 1), (''payload'', String ''p=hunter2supersecretpassword'')]],
      om_checksum = None\<rparr>\<rparr>"

fun bson_mentions :: "string \<Rightarrow> bson \<Rightarrow> bool" where
  "bson_mentions secret (String s) = sublist secret s"
| "bson_mentions secret (Array bs) = list_ex (bson_mentions secret) bs"
| "bson_mentions secret (Document d) = list_ex (\<lambda>(_, b). bson_mentions secret b) d"
| "bson_mentions secret (JavaScriptCodeWithScope s d) =
     (sublist secret s \<or> list_ex (\<lambda>(_, b). bson_mentions secret b) d)"
| "bson_mentions secret _ = False"

fun mentions :: "string \<Rightarrow> debug \<Rightarrow> bool" where
  "mentions secret (DebugText s) = sublist secret s"
| "mentions secret (DebugBson b) = bson_mentions secret b"
| "mentions secret (DebugString s) = sublist secret s"
| "mentions secret (DebugOption d) = (case d of None \<Rightarrow> False | Some d \<Rightarrow> mentions secret d)"
| "mentions secret (DebugMap es) = list_ex (\<lambda>(_, d). mentions secret d) es"
| "mentions secret (DebugList ds) = list_ex (mentions secret) ds"
| "mentions secret (DebugTuple _ ds) = list_ex (mentions secret) ds"
| "mentions secret (DebugStruct _ es) = list_ex (\<lambda>(_, d). mentions secret d) es"
| "mentions secret _ = False"

definition echo_log :: "event list" where
  "echo_log =
     (case LogService_call (\<lambda>s req w. (Ready (Inr ()), s, w) :: (unit + unit) poll \<times> unit \<times> unit) (LogLayer_layer ()) sensitive_request ((), []) of
        (Ready (Inr stream), _, v) \<Rightarrow>
          (case LoggedStream_poll_next (\<lambda>s w. (Ready (Some (Inr sensitive_request)), s, w) :: (unit + Message) option poll \<times> unit \<times> unit) stream v of
             (_, _, (_, log)) \<Rightarrow> log)
      | _ \<Rightarrow> [])"

lemma log_tests_pass:
  "list_ex (\<lambda>e. (''direction'', DebugString ''request'') \<in> set (ev_fields e)) echo_log"
  "list_ex (\<lambda>e. (''direction'', DebugString ''response'') \<in> set (ev_fields e)) echo_log"
  "list_all (\<lambda>e. ev_level e \<noteq> INFO \<and> map_option span_name (ev_span e) = Some ''request'' \<and>
     \<not> list_ex (\<lambda>(_, d). mentions ''hunter2supersecretpassword'' d) (ev_fields e)) echo_log"
  by code_simp+

end
