(* ===== verification/ExplainTests.thy ===== *)
theory ExplainTests
  imports Explain
begin

text \<open>
  The unit tests of \<open>serve/explain/\<close>, run on the model, in the manner of \<open>UnitTests\<close>. Lower-casing is
  that of ASCII, which is what the inputs of the tests need.
\<close>

abbreviation lower :: "string \<Rightarrow> string" where "lower \<equiv> to_ascii_lowercase"

section \<open>\<open>classify.rs\<close>\<close>

definition test_message :: "OperationMessageFlags \<Rightarrow> document \<Rightarrow> Message" where
  "test_message flags doc = \<lparr>msg_request_id = RequestId 1, msg_response_to = None,
     msg_operation = Operation_Message \<lparr>om_flags = flags, om_sections = [Body doc], om_checksum = None\<rparr>\<rparr>"

definition test_query :: Message where
  "test_query = \<lparr>msg_request_id = RequestId 1, msg_response_to = None,
     msg_operation = Operation_Query \<lparr>oq_flags = 0, oq_full_collection_name = ''admin.$cmd'', oq_number_to_skip = 0,
       oq_number_to_return = 1, oq_query = [(''hello'', Int32 1)], oq_return_fields_selector = None\<rparr>\<rparr>"

text \<open>Request, command and database.\<close>

definition classify_tests :: "(Message \<times> (Command \<times> string) option) list" where
  "classify_tests =
     [(test_message 0 [(''find'', String ''movies''), (''$db'', String ''sample'')], Some (Command_Find, ''sample'')),
      (test_message 0 [(''aggregate'', String ''movies''), (''$db'', String ''sample''), (''pipeline'', Array [])],
         Some (Command_Aggregate, ''sample'')),
      (test_message 0 [(''findandmodify'', String ''movies''), (''$db'', String ''sample'')],
         Some (Command_FindAndModify, ''sample'')),
      (test_message 0 [(''hello'', Int32 1), (''$db'', String ''admin'')], None),
      (test_message 0 [(''ping'', Int32 1), (''$db'', String ''admin'')], None),
      (test_message 0 [(''insert'', String ''movies''), (''$db'', String ''sample'')], None),
      (test_message 0 [(''getMore'', Int64 42), (''$db'', String ''sample'')], None),
      (test_message MORE_TO_COME [(''find'', String ''movies''), (''$db'', String ''sample'')], None),
      (test_query, None),
      (test_message 0 [(''find'', String ''movies'')], None),
      ((test_message 0 [(''find'', String ''movies''), (''$db'', String ''sample'')])
         \<lparr>msg_request_id := RequestId 2, msg_response_to := Some (ResponseTo 1)\<rparr>, Some (Command_Find, ''sample''))]"

lemma classify_tests_pass:
  "list_all (\<lambda>(req, result).
     map_option (\<lambda>r. (cr_command r, database_inner (cr_database r))) (classify lower req) = result) classify_tests"
  by code_simp

section \<open>\<open>build.rs\<close>\<close>

definition classified :: "Command \<Rightarrow> document \<Rightarrow> OpMsgSection list \<Rightarrow> ClassifiedRequest" where
  "classified cmd body seqs =
     \<lparr>cr_command = cmd, cr_database = Database ''sample'', cr_body = body, cr_doc_sequences = seqs\<rparr>"

definition built_message :: "i32 \<Rightarrow> document \<Rightarrow> BuildExplainOutcome" where
  "built_message n inner = Built \<lparr>msg_request_id = RequestId n, msg_response_to = None,
     msg_operation = Operation_Message \<lparr>om_flags = 0, om_sections = [Body
       [(''explain'', Document inner), (''verbosity'', String ''executionStats''), (''$db'', String ''sample'')]],
       om_checksum = None\<rparr>\<rparr>"

definition test_update :: "i32 \<Rightarrow> document" where
  "test_update n = [(''q'', Document [(''_id'', Int32 n)]), (''u'', Document [(''$set'', Document [(''x'', Int32 n)])])]"

definition build_tests :: "(ClassifiedRequest \<times> i32 \<times> BuildExplainOutcome) list" where
  "build_tests =
     [(classified Command_Find [(''find'', String ''movies''), (''$db'', String ''sample''),
           (''filter'', Document [(''year'', Int32 1999)])] [], -1,
         built_message (-1) [(''find'', String ''movies''), (''filter'', Document [(''year'', Int32 1999)])]),
      (classified Command_Find [(''find'', String ''movies''), (''$db'', String ''sample'')] [], -1,
         built_message (-1) [(''find'', String ''movies'')]),
      (classified Command_Find [(''find'', String ''movies''), (''$db'', String ''sample''),
           (''lsid'', Document [(''id'', String ''abc'')]), (''txnNumber'', Int64 7), (''autocommit'', Boolean False),
           (''$clusterTime'', Document [(''clusterTime'', Int32 1)]), (''$readPreference'', Document [(''mode'', String ''primary'')]),
           (''$readConcern'', Document [(''level'', String ''majority'')]), (''readConcern'', Document [(''level'', String ''majority'')]),
           (''startTransaction'', Boolean True), (''stmtId'', Int32 1)] [], -1,
         built_message (-1) [(''find'', String ''movies'')]),
      (classified Command_Find [(''find'', String ''movies''), (''$db'', String ''sample'')] [], -42,
         built_message (-42) [(''find'', String ''movies'')]),
      (classified Command_Update [(''update'', String ''movies''), (''$db'', String ''sample'')]
           [DocumentSequence ''updates'' [test_update 1]], -1,
         built_message (-1) [(''update'', String ''movies''), (''updates'', Array [Document (test_update 1)])]),
      (classified Command_Update [(''update'', String ''movies''), (''$db'', String ''sample'')]
           [DocumentSequence ''updates'' [test_update 1, test_update 2]], -1,
         NotBuilt MultiOpWriteBatch)]"

lemma build_tests_pass:
  "list_all (\<lambda>(plan, n, result). build_explain reference_bson plan (ExplainRequestId n) = result) build_tests"
  by code_simp

section \<open>\<open>parse.rs\<close>\<close>

definition probe_ok_tests :: "(document \<times> OkOutcome) list" where
  "probe_ok_tests =
     [([(''ok'', Int32 1)], Ok_Success), ([(''ok'', Int32 0)], Ok_Rejected), ([(''ok'', Int64 1)], Ok_Success),
      ([(''ok'', Double 0x3FF0000000000000)], Ok_Success), ([(''ok'', Double 0)], Ok_Rejected),
      ([(''ok'', Double 0x7FF8000000000000)], Ok_Malformed Ok_NonFinite),
      ([(''ok'', Double 0x7FF0000000000000)], Ok_Malformed Ok_NonFinite),
      ([(''x'', Int32 1)], Ok_Malformed Ok_Missing), ([(''ok'', String ''yes'')], Ok_Malformed Ok_StringValue),
      ([(''ok'', Boolean True)], Ok_Malformed Ok_Bool),
      ([(''ok'', Array [Int32 1, Int32 2, Int32 3])], Ok_Malformed Ok_Array)]"

definition duration_tests :: "(string \<times> i64 \<times> (NegativeDurationError + nat)) list" where
  "duration_tests =
     [(''f'', 0, Inr 0), (''f'', 16, Inr 16),
      (''executionTimeMillis'', -5, Inl \<lparr>nd_field = ''executionTimeMillis'', nd_value = -5\<rparr>)]"

lemma probe_ok_tests_pass: "list_all (\<lambda>(doc, result). probe_ok doc = result) probe_ok_tests"
  by code_simp

lemma duration_tests_pass: "list_all (\<lambda>(field, ms, result). i64_ms_to_duration field ms = result) duration_tests"
  by code_simp

section \<open>\<open>model/plan_details.rs\<close>\<close>

definition field_kind_tests :: "(bson \<times> IndexFieldKind) list" where
  "field_kind_tests =
     [(Int32 1, Ascending), (Int32 (-1), Descending), (String ''hashed'', Hashed), (String ''2dsphere'', TwoDSphere),
      (String ''BRAND_NEW'', IndexFieldKind_Other (OtherName ''brand_new''))]"

definition key_pattern_document_test :: "bson \<times> KeyPattern" where
  "key_pattern_document_test =
     (Document [(''year'', Int32 1), (''title'', String ''text'')],
      KeyPattern_Document [\<lparr>kp_field = ''year'', kp_kind = Ascending\<rparr>, \<lparr>kp_field = ''title'', kp_kind = Text\<rparr>])"

definition express_tests :: "(string \<times> KeyPatternField list) list" where
  "express_tests =
     [(''{ _id: 1 }'', [\<lparr>kp_field = ''_id'', kp_kind = Ascending\<rparr>]),
      (''{ year: -1, title: 1 }'', [\<lparr>kp_field = ''year'', kp_kind = Descending\<rparr>, \<lparr>kp_field = ''title'', kp_kind = Ascending\<rparr>])]"

definition bound_range_tests :: "(string \<times> IndexBoundRange) list" where
  "bound_range_tests =
     [(''[1999, 2001]'', \<lparr>br_lower = Literal ''1999'', br_lower_inclusivity = Inclusive,
         br_upper = Literal ''2001'', br_upper_inclusivity = Inclusive\<rparr>),
      (''(0, 100]'', \<lparr>br_lower = Literal ''0'', br_lower_inclusivity = Exclusive,
         br_upper = Literal ''100'', br_upper_inclusivity = Inclusive\<rparr>),
      (''[inf, 2000]'', \<lparr>br_lower = Inf, br_lower_inclusivity = Inclusive,
         br_upper = Literal ''2000'', br_upper_inclusivity = Inclusive\<rparr>),
      (''(-inf, 0)'', \<lparr>br_lower = NegInf, br_lower_inclusivity = Exclusive,
         br_upper = Literal ''0'', br_upper_inclusivity = Exclusive\<rparr>),
      (''[MinKey, MaxKey]'', \<lparr>br_lower = MinKey, br_lower_inclusivity = Inclusive,
         br_upper = MaxKey, br_upper_inclusivity = Inclusive\<rparr>)]"

definition bad_bound_range_tests :: "string list" where
  "bad_bound_range_tests = [''1999, 2001'', ''[1999]'']"

lemma field_kind_tests_pass:
  "list_all (\<lambda>(b, kind). IndexFieldKind_from_bson lower b = Inr kind) field_kind_tests"
  by code_simp

lemma key_pattern_document_test_passes:
  "KeyPattern_deserialize lower (fst key_pattern_document_test) = Inr (snd key_pattern_document_test)"
  by code_simp

lemma express_tests_pass: "list_all (\<lambda>(s, fs). parse_express_string lower s = Some fs) express_tests"
  by code_simp

lemma bound_range_tests_pass:
  "list_all (\<lambda>(s, r). IndexBoundRange_parse s = Some (Inr r)) bound_range_tests"
  "list_all (\<lambda>s. map_option isl (IndexBoundRange_parse s) = Some True) bad_bound_range_tests"
  by code_simp+

section \<open>\<open>model/namespace.rs\<close>, \<open>model/newtypes.rs\<close>\<close>

definition namespace_tests :: "(string \<times> (NamespaceParseError + string \<times> string)) list" where
  "namespace_tests =
     [(''sample.movies'', Inr (''sample'', ''movies'')),
      (''no_dot_here'', Inl \<lparr>npe_raw = ''no_dot_here'', npe_kind = NoDot\<rparr>),
      (''.movies'', Inl \<lparr>npe_raw = ''.movies'', npe_kind = BadDatabase DatabaseError\<rparr>),
      (''sample.'', Inl \<lparr>npe_raw = ''sample.'', npe_kind = BadCollection CollectionError\<rparr>),
      (''admin.users'', Inr (''admin'', ''users''))]"

text \<open>The call and its result.\<close>

definition database_tests :: "((DatabaseError + Database) \<times> (DatabaseError + Database)) list" where
  "database_tests =
     [(Database_try_new ''  sample  '', Inr (Database ''sample'')), (Database_try_new [], Inl DatabaseError),
      (Database_try_new ''   '', Inl DatabaseError)]"

definition collection_tests :: "((CollectionError + Collection) \<times> (CollectionError + Collection)) list" where
  "collection_tests =
     [(Collection_try_new '' movies '', Inr (Collection ''movies'')), (Collection_try_new [], Inl CollectionError)]"

definition index_name_tests :: "((IndexNameError + IndexName) \<times> (IndexNameError + IndexName)) list" where
  "index_name_tests =
     [(IndexName_try_new ''year_1'', Inr (IndexName ''year_1'')), (IndexName_try_new [], Inl IndexNameError)]"

lemma name_tests_pass:
  "list_all (\<lambda>(x, y). x = y) database_tests" "list_all (\<lambda>(x, y). x = y) collection_tests"
  "list_all (\<lambda>(x, y). x = y) index_name_tests"
  by code_simp+

lemma namespace_tests_pass:
  "map (map_sum id (\<lambda>n. (database_inner (ns_database n), collection_inner (ns_collection n))) \<circ> Namespace_parse \<circ> fst)
     namespace_tests = map snd namespace_tests"
proof -
  have "split_once ''.'' ''sample.movies'' = Some (''sample'', ''movies'')" "split_once ''.'' ''no_dot_here'' = None"
    "split_once ''.'' ''.movies'' = Some ([], ''movies'')" "split_once ''.'' ''sample.'' = Some (''sample'', [])"
    "split_once ''.'' ''admin.users'' = Some (''admin'', ''users'')"
    by code_simp+
  moreover have "Database_try_new ''sample'' = Inr (Database ''sample'')" "Database_try_new [] = Inl DatabaseError"
    "Database_try_new ''admin'' = Inr (Database ''admin'')" "Collection_try_new ''movies'' = Inr (Collection ''movies'')"
    "Collection_try_new [] = Inl CollectionError" "Collection_try_new ''users'' = Inr (Collection ''users'')"
    by code_simp+
  ultimately show ?thesis by (simp add: namespace_tests_def Namespace_parse_def result_simps)
qed

lemma count_tests_pass:
  "DocsReturned_try_new 0 = Inr (DocsReturned 0)" "DocsReturned_try_new 42 = Inr (DocsReturned 42)"
  "DocsReturned_try_new (-1) = Inl (DocsReturnedError (-1))"
  "DocsExamined_try_new (-5) = Inl (DocsExaminedError (-5))"
  "KeysExamined_try_new (-1) = Inl (KeysExaminedError (-1))"
  "ServerErrorCode_try_new 11000 = Inr (ServerErrorCode 11000)"
  "isl (ServerErrorCode_try_new 0)" "isl (ServerErrorCode_try_new (-1))"
  "OtherName_new lower ''FindAndModify'' = OtherName ''findandmodify''"
  by code_simp+

section \<open>\<open>model/stage.rs\<close>, \<open>model/open_vocab.rs\<close>\<close>

definition stage_tests :: "(string \<times> Stage) list" where
  "stage_tests =
     [(''COLLSCAN'', Collscan), (''IXSCAN'', Ixscan), (''PROJECTION_DEFAULT'', Project Projection_Default),
      (''PROJECTION_SIMPLE'', Project Projection_Simple), (''PROJECTION_COVERED'', Project Projection_Covered),
      (''AND_SORTED'', Stage_And And_Sorted), (''AND_HASH'', Stage_And And_Hash),
      (''BRAND_NEW_STAGE'', Stage_Other (OtherName ''brand_new_stage'')),
      (''scan'', SbeScan), (''ixscan'', SbeIxscan), (''ixseek'', SbeIxseek), (''filter'', SbeFilter),
      (''project'', SbeProject), (''group'', SbeGroup),
      (''EXPRESS_IXSCAN'', ExpressIxscan), (''express_ixscan'', ExpressIxscan),
      (''EXPRESS_CLUSTERED_IXSCAN'', ExpressClusteredIxscan), (''express_clustered_ixscan'', ExpressClusteredIxscan),
      (''EXPRESS_UPDATE'', ExpressUpdate), (''express_update'', ExpressUpdate),
      (''EXPRESS_DELETE'', ExpressDelete), (''express_delete'', ExpressDelete)]"

definition command_tests :: "(string \<times> Command) list" where
  "command_tests =
     [(''find'', Command_Find), (''aggregate'', Command_Aggregate), (''findAndModify'', Command_FindAndModify),
      (''findandmodify'', Command_FindAndModify), (''HELLO'', Command_Other (OtherName ''hello'')),
      (''UnknownThing'', Command_Other (OtherName ''unknownthing''))]"

definition command_name_tests :: "(string \<times> Command option) list" where
  "command_name_tests =
     [(''hello'', None), (''ping'', None), (''find'', Some Command_Find), (''findandmodify'', Some Command_FindAndModify)]"

lemma stage_tests_pass: "list_all (\<lambda>(s, stage). Stage_from_wire_str lower s = stage) stage_tests"
  by code_simp

lemma command_tests_pass:
  "list_all (\<lambda>(s, c). Command_from_wire_str lower s = c) command_tests"
  "list_all (\<lambda>(s, c). from_command_name lower s = c) command_name_tests"
  by code_simp+

lemma label_tests_pass:
  "ErrorLabel_from_wire_str lower ''RetryableWriteError'' = RetryableWriteError"
  "ServerErrorCodeName_from_wire_str lower ''NotMaster'' = NotMaster"
  "ServerErrorCodeName_from_wire_str lower ''NotWritablePrimary'' = NotMaster"
  by code_simp+

end
