(* ===== verification/Spec2Isabelle.thy ===== *)
theory Spec2Isabelle
  imports ByteSession Fixtures FuzzTarget Logger PlanPrinter WireTests ProxyTests ExplainTests
begin

text \<open>
  \<^bold>\<open>mongod-proxy\<close>: a proxy for the MongoDB wire protocol. A client connects to the proxy, the
  proxy opens one upstream connection for it, forwards every request and streams the
  replies back, through a stack of \<open>tower\<close> layers that may rewrite, log or inspect the traffic.

  \<^bold>\<open>Parts, theories and sources\<close> (paths under \<open>src/src/\<close>
  unless a path starts with \<open>examples/\<close>, \<open>logger/\<close> or \<open>fuzz/\<close>)

  \<^item> \<open>Prelude\<close>, \<open>Strings\<close>: words, results and the question-mark operator, little-endian
    integers, C strings, UTF-8; splitting and trimming. \<open>Numbers\<close>: the standard library's reading of
    integers and of decimal numbers as doubles, rounded to nearest even.
  \<^item> \<open>Bson\<close>, \<open>BsonRef\<close>: the interface to the \<open>bson\<close> crate, which is outside the
    repository. The record \<open>bson_crate\<close> is an argument; the locales \<open>bson_codec\<close> and
    \<open>bson_document\<close> state the documented behaviour; \<open>BsonRef\<close> is a codec that satisfies them, so
    that every theorem that assumes them has a witness.
  \<^item> \<open>Header\<close> (\<open>ids.rs\<close>, \<open>op_code.rs\<close>, \<open>header.rs\<close>), \<open>Frame\<close>, \<open>OpMsg\<close>, \<open>OpQuery\<close>, \<open>OpReply\<close>
    (\<open>operation/\<close>), \<open>Message\<close> (\<open>message.rs\<close>, \<open>encoder.rs\<close>), \<open>Decoder\<close> (\<open>decoder.rs\<close>), \<open>Wire\<close>: the wire
    format. Shown: round trips of frames and of whole streams under every chunking, transparency of
    forwarding, atomic encoding, bounded buffering, error states, flag and count checks.
  \<^item> \<open>Fixtures\<close> (\<open>fixtures/\<close>): the recorded exchanges with a real server, byte for byte; the codec
    reads and writes each as recorded, under every chunking. \<open>FuzzTarget\<close> (\<open>fuzz/fuzz_targets/\<close>):
    the fuzzing loop ends after one call per chunk and performs a run of the decoder.
  \<^item> \<open>Redact\<close> (\<open>redact.rs\<close>): \<open>Debug\<close> output as the tree of formatter calls. What may be revealed is
    specified by positions in a document and a list of credential keys of its own; without
    code scopes the output is a function of the public part of a message and determines it, and
    the scope of a code value is shown as it is.
  \<^item> \<open>ReplyStream\<close>: the interface of the layers, polled reply streams over a threaded world;
    the locale \<open>reply_stream_layer\<close> is the contract of a layer that maps replies one by one.
    \<open>RewriteHello\<close> (\<open>serve/rewrite_hello.rs\<close>) and \<open>Log\<close> (\<open>serve/log.rs\<close>) interpret it.
  \<^item> \<open>Client\<close> (\<open>ProxyClient\<close> of \<open>serve/service.rs\<close>) and \<open>Serve\<close> (\<open>serve/mod.rs\<close>): the upstream
    connection behind its mutex, the forwarding loop, the accept loop with shutdown as a step
    relation. Shown: whole sessions are forwarded, a closed upstream is reported, the lock
    covers the reply stream, shutdown drains and terminates. \<open>ByteSession\<close> puts the codec under the
    loop: bytes in are bytes out on both connections, but for rewritten \<open>hello\<close> replies.
  \<^item> \<open>Uri\<close> (\<open>uri.rs\<close>), \<open>Probe\<close> (\<open>serve/probe.rs\<close>), \<open>Srv\<close> (\<open>srv.rs\<close>), \<open>Proxy\<close> (\<open>serve/service.rs\<close>): where
    the proxy forwards to. Shown: connection strings are read as written, the primary race is
    right in every order of completion and, with a clock for the probe timeout, picks the fastest
    primary in time; a seed list with a primary that answers starts up; SRV ordering follows RFC 2782, targets stay in the
    domain or the seed list through every fail-over, TLS is never weakened, credentials never matter.
  \<^item> \<open>ExplainModel\<close>, \<open>PlanDetails\<close> (\<open>serve/explain/model/\<close>), \<open>ExplainParse\<close> (\<open>parse.rs\<close>, \<open>wire.rs\<close>,
    \<open>error.rs\<close>, \<open>util.rs\<close>, \<open>event.rs\<close>), \<open>ExplainIds\<close> (\<open>alloc_request_id\<close> of \<open>layer.rs\<close>) and \<open>Explain\<close>
    (\<open>classify.rs\<close>, \<open>build.rs\<close>, \<open>layer.rs\<close>, \<open>sink.rs\<close>): the inspector that runs a sideband explain for
    explainable commands. Shown: it changes what the client gets in nothing but time, its requests wrap the
    client's command faithfully, its ids never clash under any interleaving and the allocation is
    linearisable and lock-free, plan trees and namespaces are read exactly, previews are bounded.
    The locale \<open>open_vocab\<close> is the contract of the open vocabularies, interpreted for all five.
  \<^item> \<open>PlanPrinter\<close> (\<open>examples/explain.rs\<close>): the plan printer; what it prints of key patterns and index
    bounds determines them, and a plan is printed in preorder. \<open>Logger\<close> (\<open>logger/src/\<close>, the layer
    builders of \<open>serve/service.rs\<close>): the two programs that assemble the layers; the logging stack
    forwards sessions, its defaults, and what its error output contains.
  \<^item> \<open>WireTests\<close> (\<open>ids.rs\<close>, \<open>op_code.rs\<close>, \<open>operation/\<close>, \<open>redact.rs\<close>), \<open>UnitTests\<close> (\<open>uri.rs\<close>, \<open>srv.rs\<close>,
    \<open>serve/probe.rs\<close>, \<open>serve/rewrite_hello.rs\<close>), \<open>ProxyTests\<close> (\<open>serve/service.rs\<close>, \<open>serve/log.rs\<close>) and
    \<open>ExplainTests\<close> (\<open>serve/explain/\<close>): the unit tests of these modules, as tables of inputs and expected
    results; the kernel evaluates the model on them, so the model passes the code's own tests.
  \<^item> This theory: the inspector on top of the default stack and the forwarding loop.

  \<^bold>\<open>Conventions\<close>. A \<open>Result\<close> is a sum with \<open>Inl\<close> for the error; integers keep their width as words;
  strings are lists of UTF-8 bytes. Shared objects are a threaded world. Loops that
  may run for ever (waiting for a stream, forwarding or draining it) are \<open>partial_function (option)\<close>,
  where \<open>None\<close> means that the loop does not return; the theorems about them state that they
  return. No definition uses fuel. What the network, the resolver, the channels and the TLS
  library answer is an argument of the definitions, so every statement holds for all answers.
  Concurrency is modelled where the code relies on it: the completion order of probes,
  the join set of connections, the fail-over loop, and the compare-and-exchange loop.

  \<^bold>\<open>Not modelled\<close>. The line layout of the standard formatter (\<open>Debug\<close> output is the tree of formatter
  calls); the deserialisers that \<open>serde\<close> derives for the raw explain types (a parameter), while
  the hand-written ones are modelled; Unicode lower-casing (a parameter); the inside of \<open>rustls\<close>, \<open>tokio\<close>,
  \<open>hickory\<close> and the tracing subscriber, whose answers are parameters; generic trait plumbing
  (\<open>Layer::layer\<close>, \<open>poll_ready\<close>, boxing) that only passes a value on; the crate root; the end-to-end tests (\<open>tests/\<close>, which start
  servers in containers) and the tests that bind sockets or compare formatted text.
\<close>

section \<open>A session under the inspector\<close>

text \<open>What goes upstream: every request of the client, followed by its explain if there is one.\<close>

fun explained :: "explain_env \<Rightarrow> i32 \<Rightarrow> Message list \<Rightarrow> Message list list" where
  "explained V counter [] = []"
| "explained V counter (req # reqs) =
     (req # sideband V counter req) # explained V (next_counter V counter req) reqs"

lemma map2_concat:
  "list_all2 (\<lambda>g r. length g = length r) gs rs \<Longrightarrow> map2 f (concat gs) (concat rs) = concat (map2 (map2 f) gs rs)"
  by (induction rule: list_all2_induct) auto

lemma answers_all_explained:
  fixes v :: "('w, 'k, 'e) explain_world"
  assumes "\<forall>s req w. fst (snd (call s req w)) = s"
    and "list_all2 (\<lambda>g r. length g = length r) (explained V (ew_counter v) reqs) rss"
    and "answers_all call poll_next (es_inner svc) (ew_inner v) (concat (explained V (ew_counter v) reqs))
      (concat rss) inner' w'"
  shows "\<exists>v'. answers_all (ExplainService_call V call poll_next) ReplayStream_poll_next svc v reqs
      (map hd rss) svc v' \<and> ew_inner v' = w'"
  using assms(2,3)
proof (induction reqs arbitrary: rss v)
  case Nil
  then show ?case by (auto simp: answers_all_Nil)
next
  case (Cons req reqs)
  have one: "s1 = s" if "answers call poll_next s w req ms s1 w1" for s w req ms s1 w1
    using that assms(1) by (metis answers_def fst_conv snd_conv)
  have same: "inner1 = inner" if "answers_all call poll_next inner w rs mss inner1 w1" for inner w rs mss inner1 w1
    using that by (induction rule: answers_all.induct) (auto dest: one)
  from Cons.prems(1) obtain ms xss rest where r: "rss = (ms # xss) # rest"
    and l: "length (sideband V (ew_counter v) req) = length xss"
    by (auto simp: list_all2_Cons1) (metis Suc_length_conv)
  from answers_all_append [OF Cons.prems(2) [unfolded r explained.simps concat.simps]] l
  obtain inner1 w1 where a: "answers_all call poll_next (es_inner svc) (ew_inner v)
      (req # sideband V (ew_counter v) req) (ms # xss) inner1 w1"
    and b: "answers_all call poll_next inner1 w1
      (concat (explained V (next_counter V (ew_counter v) req) reqs)) (concat rest) inner' w'"
    by auto
  from explain_answers [OF a] obtain v1 where
    v1: "answers (ExplainService_call V call poll_next) ReplayStream_poll_next svc v req ms svc v1"
      "ew_inner v1 = w1" "ew_counter v1 = next_counter V (ew_counter v) req"
    by blast
  from Cons.IH [of v1 rest] Cons.prems(1) b same [OF a] v1 r obtain v' where
    "answers_all (ExplainService_call V call poll_next) ReplayStream_poll_next svc v1 reqs (map hd rest) svc v'"
    "ew_inner v' = w'"
    by auto
  with v1(1) r show ?case by (auto intro: answers_all.request)
qed

lemma explained_heads:
  "list_all2 (\<lambda>g r. length g = length r) (explained V n reqs) rss \<Longrightarrow>
   map hd (map2 (map2 f) (explained V n reqs) rss) = map2 f reqs (map hd rss)"
proof (induction reqs arbitrary: n rss)
  case (Cons req reqs)
  then obtain ms xss rest where "rss = (ms # xss) # rest"
    "list_all2 (\<lambda>g r. length g = length r) (explained V (next_counter V n req) reqs) rest"
    by (auto simp: list_all2_Cons1) (metis Suc_length_conv)
  with Cons.IH show ?case by simp
qed simp

section \<open>Properties\<close>

text \<open>C1. The whole proxy with the inspector: if upstream answers every message it is sent as the
  protocol says, the loop ends without error; upstream is sent the client's requests in order,
  each followed by its explain; the client is sent exactly the replies to its own
  requests, as without the inspector; and the upstream connection is unlocked again.\<close>

theorem explained_session_forwarded:
  fixes v :: "(('r, 'w) ProxyClientInner mutex, 'k, ProxyClientRequestError) explain_world"
  assumes "list_all2 (list_all2 replies_to) (explained V (ew_counter v) reqs) rss"
    and "ew_inner v = Unlocked \<lparr>server_reader = reader, server_writer = writer\<rparr>"
    and "reader_yields read_frame reader (concat (concat rss)) reader'"
    and "send_all send_frame writer (concat (explained V (ew_counter v) reqs)) = Some writer'"
    and "send_all client_send c (concat (map2 (\<lambda>req. map (deliver B enabled req)) reqs (map hd rss))) = Some c'"
  shows "\<exists>v' reader1.
    accept_client_inner (ExplainService_call V (stack_call send_frame) (stack_poll B read_frame))
      ReplayStream_poll_next client_send (map Inr reqs)
      \<lparr>es_inner = \<lparr>rhs_inner = (), rhs_enabled = enabled\<rparr>, es_sink = sink\<rparr> v c =
    Some (Inr (), \<lparr>es_inner = \<lparr>rhs_inner = (), rhs_enabled = enabled\<rparr>, es_sink = sink\<rparr>, v', c') \<and>
    ew_inner v' = Unlocked \<lparr>server_reader = reader1, server_writer = writer'\<rparr>"
proof -
  let ?gs = "explained V (ew_counter v) reqs" and ?svc = "\<lparr>rhs_inner = (), rhs_enabled = enabled\<rparr>"
  let ?f = "\<lambda>req. map (deliver B enabled req)"
  have len: "list_all2 (\<lambda>g r. length g = length r) ?gs rss"
    using assms(1) by (rule list_all2_mono) (rule list_all2_lengthD)
  have "list_all2 replies_to (concat ?gs) (concat rss)"
    using assms(1) by (induction rule: list_all2_induct) (auto intro: list_all2_appendI)
  from ProxyClient_answers_all [OF this assms(3,4)] obtain reader1 where
    "answers_all (ProxyClient_call send_frame) (ProxyResponseStream_poll_next read_frame) () (ew_inner v)
      (concat ?gs) (concat rss) () (Unlocked \<lparr>server_reader = reader1, server_writer = writer'\<rparr>)"
    unfolding assms(2) by blast
  from rewrite_answers_all [OF this, of ?svc B]
  have ans: "answers_all (stack_call send_frame) (stack_poll B read_frame) ?svc (ew_inner v) (concat ?gs)
      (concat (map2 (map2 ?f) ?gs rss)) ?svc (Unlocked \<lparr>server_reader = reader1, server_writer = writer'\<rparr>)"
    by (simp add: map2_concat [OF len])
  have len2: "list_all2 (\<lambda>g r. length g = length r) ?gs (map2 (map2 ?f) ?gs rss)"
    using len by (induction rule: list_all2_induct) auto
  have same: "\<forall>s req w. fst (snd (stack_call send_frame s req w)) = s"
    by (simp add: RewriteHelloService_call_def split: prod.splits)
  from answers_all_explained [where call = "stack_call send_frame" and poll_next = "stack_poll B read_frame"
      and svc = "\<lparr>es_inner = ?svc, es_sink = sink\<rparr>", OF same len2] ans
  obtain v' where a:
    "answers_all (ExplainService_call V (stack_call send_frame) (stack_poll B read_frame)) ReplayStream_poll_next
      \<lparr>es_inner = ?svc, es_sink = sink\<rparr> v reqs (map hd (map2 (map2 ?f) ?gs rss)) \<lparr>es_inner = ?svc, es_sink = sink\<rparr> v'"
    and w: "ew_inner v' = Unlocked \<lparr>server_reader = reader1, server_writer = writer'\<rparr>"
    by auto
  from accept_client_inner_answers [OF a, of client_send c c' "[]"] assms(5) w explained_heads [OF len, of ?f]
  show ?thesis by auto
qed

theorem explained_session_forwarded_witness:
  "\<exists>v'. accept_client_inner (ExplainService_call sample_env (stack_call record_send) (stack_poll reference_bson read_script))
      ReplayStream_poll_next record_send (map Inr [sample_update])
      \<lparr>es_inner = \<lparr>rhs_inner = (), rhs_enabled = True\<rparr>, es_sink = TracingOnly\<rparr>
      \<lparr>ew_inner = Unlocked \<lparr>server_reader = map (\<lambda>m. Ready (Some (Inr m))) [ping_message, ping_message], server_writer = []\<rparr>,
        ew_counter = initial_request_id, ew_sink = (), ew_trace = []\<rparr> [] =
    Some (Inr (), \<lparr>es_inner = \<lparr>rhs_inner = (), rhs_enabled = True\<rparr>, es_sink = TracingOnly\<rparr>, v', [ping_message])"
proof -
  let ?v = "\<lparr>ew_inner = Unlocked \<lparr>server_reader = map (\<lambda>m. Ready (Some (Inr m))) [ping_message, ping_message],
      server_writer = []\<rparr>, ew_counter = initial_request_id, ew_sink = (), ew_trace = []\<rparr>
    :: (((WireDecoderError + Message) option poll list, Message list) ProxyClientInner mutex, unit, ProxyClientRequestError) explain_world"
  have "length (sideband sample_env initial_request_id sample_update) = 1"
    "\<not> more_to_come (msg_operation (hd (sideband sample_env initial_request_id sample_update)))"
    "replies_to sample_update [ping_message]" "\<not> more_to_come (msg_operation ping_message)"
    "deliver reference_bson True sample_update ping_message = ping_message"
    by code_simp+
  then obtain m where m: "sideband sample_env initial_request_id sample_update = [m]"
      "\<not> more_to_come (msg_operation m)" "replies_to sample_update [ping_message]"
      "\<not> more_to_come (msg_operation ping_message)"
      "deliver reference_bson True sample_update ping_message = ping_message"
    by (auto simp: length_Suc_conv)
  have g: "list_all2 (list_all2 replies_to) (explained sample_env (ew_counter ?v) [sample_update]) [[[ping_message], [ping_message]]]"
    using m by (simp add: replies_to_def)
  have i: "ew_inner ?v = Unlocked \<lparr>server_reader = map (\<lambda>m. Ready (Some (Inr m))) [ping_message, ping_message],
      server_writer = []\<rparr>"
    by simp
  have y: "reader_yields read_script (map (\<lambda>m. Ready (Some (Inr m))) [ping_message, ping_message])
      (concat (concat [[[ping_message], [ping_message]]])) []"
    using reader_yields_script [of "[ping_message, ping_message]"] by simp
  from explained_session_forwarded [OF g i y send_all_record, of record_send "[]" reference_bson True "[ping_message]" TracingOnly] m(5)
  show ?thesis by (auto simp: record_send_def)
qed

end
